(* ===== verification/Prelude.thy ===== *)
theory Prelude
  imports Main "HOL-Library.Word"
begin

text \<open>
  The shared vocabulary of the development: machine integers and byte strings, the result
  type of the crate (core/src/error.rs) with the behaviour of the question mark operator,
  little- and big-endian encodings, exact reads from a byte stream, and the lemma
  collections the component theories extend.

  A \<open>String\<close> of the program is an Isabelle \<open>string\<close>, one \<open>char\<close> per UTF-8 byte.
  A \<open>Vec<u8>\<close> or \<open>[u8; n]\<close> is a list of 8-bit words.  A \<open>u64\<close> is a 64-bit word, so that
  addition and multiplication wrap as the release profile of the crate does.
\<close>

section \<open>Types\<close>

type_synonym u8 = "8 word"
type_synonym u16 = "16 word"
type_synonym u32 = "32 word"
type_synonym u64 = "64 word"
type_synonym bytes = "u8 list"

text \<open>Lemma collections: codecs of wire formats, effects of a store operation on each table,
  preservation of a component's invariant.\<close>

named_theorems codec_simps
named_theorems store_simps
named_theorems preserves

section \<open>Errors and results\<close>

text \<open>\<open>CoreError\<close> of error.rs.  The payload of the three variants that wrap a foreign error is
  the text of that error.\<close>

datatype core_error =
    Db string
  | Crypto string
  | Io string
  | Serde string
  | NotFound string
  | InvalidState string

type_synonym 'a res = "core_error + 'a"

text \<open>The question mark operator: leave with the error, continue with the value.\<close>

definition andThen :: "'e + 'a \<Rightarrow> ('a \<Rightarrow> 'e + 'b) \<Rightarrow> 'e + 'b" where
  "andThen r f = (case r of Inl e \<Rightarrow> Inl e | Inr x \<Rightarrow> f x)"

lemma andThen_simps [simp]:
  "andThen (Inl e) f = Inl e"
  "andThen (Inr x) f = f x"
  by (simp_all add: andThen_def)

lemma andThen_Inr_iff: "andThen r f = Inr y \<longleftrightarrow> (\<exists>x. r = Inr x \<and> f x = Inr y)"
  by (cases r) auto

definition is_ok :: "'e + 'a \<Rightarrow> bool" where
  "is_ok r = (case r of Inl _ \<Rightarrow> False | Inr _ \<Rightarrow> True)"

lemma is_ok_simps [simp]: "is_ok (Inr x)" "\<not> is_ok (Inl e)"
  by (simp_all add: is_ok_def)

lemma is_ok_iff: "is_ok r \<longleftrightarrow> (\<exists>x. r = Inr x)"
  by (cases r) auto

definition map_err :: "('e \<Rightarrow> 'f) \<Rightarrow> 'e + 'a \<Rightarrow> 'f + 'a" where
  "map_err g r = (case r of Inl e \<Rightarrow> Inl (g e) | Inr x \<Rightarrow> Inr x)"

lemma map_err_simps [simp]:
  "map_err g (Inl e) = Inl (g e)"
  "map_err g (Inr x) = Inr x"
  by (simp_all add: map_err_def)

definition ok_or :: "'e \<Rightarrow> 'a option \<Rightarrow> 'e + 'a" where
  "ok_or e m = (case m of None \<Rightarrow> Inl e | Some x \<Rightarrow> Inr x)"

lemma ok_or_simps [simp]: "ok_or e None = Inl e" "ok_or e (Some x) = Inr x"
  by (simp_all add: ok_or_def)

section \<open>Decimal text of a number, as the format macro prints it\<close>

definition digit_char :: "nat \<Rightarrow> char" where
  "digit_char d = char_of (48 + d)"

fun show_nat :: "nat \<Rightarrow> string" where
  "show_nat n = (if n < 10 then [digit_char n] else show_nat (n div 10) @ [digit_char (n mod 10)])"

declare show_nat.simps [simp del]

section \<open>Byte encodings of numbers\<close>

text \<open>\<open>to_le_bytes\<close> and \<open>from_le_bytes\<close> of the integer types, over their value: \<open>k\<close> bytes, least
  significant first.  The big-endian versions reverse the list.\<close>

fun le_of_nat :: "nat \<Rightarrow> nat \<Rightarrow> bytes" where
  "le_of_nat 0 n = []"
| "le_of_nat (Suc k) n = of_nat n # le_of_nat k (n div 256)"

fun nat_of_le :: "bytes \<Rightarrow> nat" where
  "nat_of_le [] = 0"
| "nat_of_le (b # bs) = unat b + 256 * nat_of_le bs"

definition be_of_nat :: "nat \<Rightarrow> nat \<Rightarrow> bytes" where
  "be_of_nat k n = rev (le_of_nat k n)"

definition nat_of_be :: "bytes \<Rightarrow> nat" where
  "nat_of_be bs = nat_of_le (rev bs)"

lemma length_le_of_nat [simp]: "length (le_of_nat k n) = k"
  by (induction k arbitrary: n) auto

lemma length_be_of_nat [simp]: "length (be_of_nat k n) = k"
  by (simp add: be_of_nat_def)

lemma unat_less_2p: "unat (w :: 'a::len word) < 2 ^ LENGTH('a)"
  by (rule unsigned_less)

lemma unat_of_nat_u8: "unat (of_nat n :: u8) = n mod 256"
  by (simp add: unat_of_nat)

lemma nat_of_le_of_nat_mod [codec_simps]: "nat_of_le (le_of_nat k n) = n mod 256 ^ k"
proof (induction k arbitrary: n)
  case 0
  then show ?case by simp
next
  case (Suc k)
  have "n mod (256 * 256 ^ k) = n mod 256 + 256 * (n div 256 mod 256 ^ k)"
    by (simp add: mod_mult2_eq)
  with Suc show ?case by (simp add: unat_of_nat_u8)
qed

lemma nat_of_be_of_nat_mod [codec_simps]: "nat_of_be (be_of_nat k n) = n mod 256 ^ k"
  by (simp add: nat_of_be_def be_of_nat_def nat_of_le_of_nat_mod)

lemma nat_of_le_bound: "nat_of_le bs < 256 ^ length bs"
proof (induction bs)
  case Nil
  then show ?case by simp
next
  case (Cons b bs)
  have "unat b < 256" using unat_less_2p [of b] by simp
  with Cons show ?case by simp
qed

lemma le_of_nat_of_le [codec_simps]: "le_of_nat (length bs) (nat_of_le bs) = bs"
proof (induction bs)
  case Nil
  then show ?case by simp
next
  case (Cons b bs)
  have b: "unat b < 256" using unat_less_2p [of b] by simp
  then have "(unat b + 256 * nat_of_le bs) div 256 = nat_of_le bs" by simp
  moreover have "(of_nat (unat b + 256 * nat_of_le bs) :: u8) = b"
  proof -
    have "unat (of_nat (unat b + 256 * nat_of_le bs) :: u8) = unat b"
      using b by (simp only: unat_of_nat_u8) simp
    then show ?thesis by (simp only: word_unat_eq_iff)
  qed
  ultimately show ?case using Cons by simp
qed

lemma be_of_nat_of_be [codec_simps]: "be_of_nat (length bs) (nat_of_be bs) = bs"
  using le_of_nat_of_le [of "rev bs"] by (simp add: be_of_nat_def nat_of_be_def)

definition u32_to_le :: "u32 \<Rightarrow> bytes" where
  "u32_to_le w = le_of_nat 4 (unat w)"

definition u32_from_le :: "bytes \<Rightarrow> u32" where
  "u32_from_le bs = of_nat (nat_of_le bs)"

definition u64_to_le :: "u64 \<Rightarrow> bytes" where
  "u64_to_le w = le_of_nat 8 (unat w)"

definition u64_from_le :: "bytes \<Rightarrow> u64" where
  "u64_from_le bs = of_nat (nat_of_le bs)"

definition u16_to_be :: "u16 \<Rightarrow> bytes" where
  "u16_to_be w = be_of_nat 2 (unat w)"

definition u16_from_be :: "bytes \<Rightarrow> u16" where
  "u16_from_be bs = of_nat (nat_of_be bs)"

definition u32_to_be :: "u32 \<Rightarrow> bytes" where
  "u32_to_be w = be_of_nat 4 (unat w)"

definition u32_from_be :: "bytes \<Rightarrow> u32" where
  "u32_from_be bs = of_nat (nat_of_be bs)"

lemma length_u_bytes [simp]:
  "length (u32_to_le a) = 4" "length (u64_to_le b) = 8"
  "length (u16_to_be c) = 2" "length (u32_to_be d) = 4"
  by (simp_all add: u32_to_le_def u64_to_le_def u16_to_be_def u32_to_be_def)

lemma u32_le_roundtrip [simp, codec_simps]: "u32_from_le (u32_to_le w) = w"
  using unat_less_2p [of w] by (simp add: u32_from_le_def u32_to_le_def nat_of_le_of_nat_mod)

lemma u64_le_roundtrip [simp, codec_simps]: "u64_from_le (u64_to_le w) = w"
  using unat_less_2p [of w] by (simp add: u64_from_le_def u64_to_le_def nat_of_le_of_nat_mod)

lemma u16_be_roundtrip [simp, codec_simps]: "u16_from_be (u16_to_be w) = w"
  using unat_less_2p [of w] by (simp add: u16_from_be_def u16_to_be_def nat_of_be_of_nat_mod)

lemma u32_be_roundtrip [simp, codec_simps]: "u32_from_be (u32_to_be w) = w"
  using unat_less_2p [of w] by (simp add: u32_from_be_def u32_to_be_def nat_of_be_of_nat_mod)

section \<open>Reading from a stream\<close>

text \<open>\<open>read_exact\<close> on what the peer has written up to the end of the stream: the next \<open>n\<close> bytes and
  the rest, or the end-of-file error.\<close>

definition read_exact :: "nat \<Rightarrow> bytes \<Rightarrow> (bytes \<times> bytes) res" where
  "read_exact n s = (if n \<le> length s then Inr (take n s, drop n s) else Inl (Io ''early eof''))"

lemma read_exact_append [simp, codec_simps]: "length a = n \<Longrightarrow> read_exact n (a @ s) = Inr (a, s)"
  by (auto simp: read_exact_def)

lemma read_exact_Inr: "read_exact n s = Inr (a, r) \<Longrightarrow> s = a @ r \<and> length a = n"
  by (auto simp: read_exact_def split: if_splits)

lemma read_exact_short: "length s < n \<Longrightarrow> read_exact n s = Inl (Io ''early eof'')"
  by (simp add: read_exact_def)

section \<open>Byte codecs as an interface\<close>

text \<open>
  A wire format that is written to a stream and read back one item at a time.  \<open>valid\<close> says which
  items the writer may be given; the law is that the reader takes exactly the bytes the writer
  produced and leaves the rest of the stream.  \<open>read_all\<close> is the loop of a stream reader.
\<close>

fun read_items :: "nat \<Rightarrow> (bytes \<Rightarrow> 'e + ('a \<times> bytes)) \<Rightarrow> bytes \<Rightarrow> 'e + ('a list \<times> bytes)" where
  "read_items 0 rd s = Inr ([], s)"
| "read_items (Suc n) rd s =
     (case rd s of
        Inl e \<Rightarrow> Inl e
      | Inr (x, r) \<Rightarrow>
          (case read_items n rd r of Inl e \<Rightarrow> Inl e | Inr (xs, r') \<Rightarrow> Inr (x # xs, r')))"

locale stream_codec =
  fixes wr :: "'a \<Rightarrow> bytes"
    and rd :: "bytes \<Rightarrow> 'e + ('a \<times> bytes)"
    and valid :: "'a \<Rightarrow> bool"
  assumes rd_wr: "valid x \<Longrightarrow> rd (wr x @ s) = Inr (x, s)"
begin

lemma read_items_concat:
  "(\<And>x. x \<in> set xs \<Longrightarrow> valid x) \<Longrightarrow>
    read_items (length xs) rd (concat (map wr xs) @ s) = Inr (xs, s)"
  by (induction xs) (auto simp: rd_wr)

lemma wr_inject:
  assumes "valid x" and "valid y" and "wr x @ s = wr y @ t"
  shows "x = y \<and> s = t"
proof -
  have "Inr (x, s) = rd (wr x @ s)" using assms(1) by (simp add: rd_wr)
  also have "\<dots> = rd (wr y @ t)" using assms(3) by simp
  also have "\<dots> = Inr (y, t)" using assms(2) by (simp add: rd_wr)
  finally show ?thesis by simp
qed

lemma wr_prefix_free:
  assumes "valid x" and "valid y" and "wr x = wr y @ t"
  shows "x = y \<and> t = []"
  using wr_inject [of x y "[]" t] assms by simp

end

section \<open>Machines with an invariant, as an interface\<close>

text \<open>A component that changes its state by steps, and a predicate every step keeps.\<close>

locale machine =
  fixes start :: "'s \<Rightarrow> bool"
    and step :: "'s \<Rightarrow> 's \<Rightarrow> bool"
    and inv :: "'s \<Rightarrow> bool"
  assumes start_inv: "start s \<Longrightarrow> inv s"
    and step_inv: "inv s \<Longrightarrow> step s t \<Longrightarrow> inv t"
begin

lemma steps_inv: "step\<^sup>*\<^sup>* s t \<Longrightarrow> inv s \<Longrightarrow> inv t"
  by (induction rule: rtranclp_induct) (auto intro: step_inv)

lemma reachable_inv: "start s \<Longrightarrow> step\<^sup>*\<^sup>* s t \<Longrightarrow> inv t"
  using steps_inv start_inv by blast

end

text \<open>A machine whose internal steps use up a measure, and which can always make an internal step until
  it has ended: every state it can be in reaches an end.\<close>

locale terminating_machine =
  fixes good :: "'s \<Rightarrow> bool"
    and istep :: "'s \<Rightarrow> 's \<Rightarrow> bool"
    and ended :: "'s \<Rightarrow> bool"
    and weight :: "'s \<Rightarrow> nat"
  assumes good_step: "good s \<Longrightarrow> istep s t \<Longrightarrow> good t"
    and decreases: "istep s t \<Longrightarrow> weight t < weight s"
    and progress: "good s \<Longrightarrow> \<not> ended s \<Longrightarrow> \<exists>t. istep s t"
begin

lemma reaches_end: "good s \<Longrightarrow> \<exists>t. istep\<^sup>*\<^sup>* s t \<and> ended t \<and> good t"
proof (induction "weight s" arbitrary: s rule: less_induct)
  case less
  show ?case
  proof (cases "ended s")
    case True
    with less.prems show ?thesis by blast
  next
    case False
    with less.prems progress obtain t where t: "istep s t" by blast
    with less.hyps [OF decreases [OF t] good_step [OF less.prems t]]
    show ?thesis by (meson converse_rtranclp_into_rtranclp)
  qed
qed

lemma runs_bounded: "(istep ^^ n) s t \<Longrightarrow> n \<le> weight s"
proof (induction n arbitrary: s)
  case 0
  then show ?case by simp
next
  case (Suc n)
  then obtain u where u: "istep s u" "(istep ^^ n) u t" by (meson relpowp_Suc_E2)
  from Suc.IH [OF u(2)] decreases [OF u(1)] show ?case by simp
qed

end

section \<open>Integers, lists and maps\<close>

text \<open>\<open>u64::saturating_sub\<close>.\<close>

definition saturating_sub :: "u64 \<Rightarrow> u64 \<Rightarrow> u64" where
  "saturating_sub a b = (if b \<le> a then a - b else 0)"

lemma unat_saturating_sub: "unat (saturating_sub a b) = unat a - unat b"
  by (auto simp: saturating_sub_def unat_sub word_le_nat_alt not_le)

lemma distinct_map_of_nat_u64:
  "n \<le> 2 ^ 64 \<Longrightarrow> distinct (map (of_nat :: nat \<Rightarrow> u64) [0..<n])"
proof (simp add: distinct_map inj_on_def, intro allI impI ballI)
  fix x y :: nat
  assume n: "n \<le> 18446744073709551616"
  assume x: "x \<in> {0..<n}" and y: "y \<in> {0..<n}" and eq: "(of_nat x :: u64) = of_nat y"
  from eq have "unat (of_nat x :: u64) = unat (of_nat y :: u64)" by simp
  moreover from n x y have "x < 2 ^ 64" "y < 2 ^ 64" by auto
  ultimately show "x = y" by (simp add: unat_of_nat)
qed

end
