(* ===== verification/Identity.thy ===== *)
theory Identity
  imports Prelude
begin

text \<open>
  core/src/identity.rs: the device identity, its stored form and the sealed box of the BLE mesh.  The
  primitives come from other crates (\<open>sha2\<close>, \<open>ed25519_dalek\<close>, \<open>x25519_dalek\<close>, \<open>chacha20poly1305\<close>,
  \<open>hex\<close>) and are the fields of the record \<open>crypto\<close>, a parameter of the model.  Keys are their bytes;
  a value drawn from \<open>OsRng\<close> is an argument.
\<close>

section \<open>Primitives\<close>

record crypto =
  sha256 :: "bytes \<Rightarrow> bytes"
  sha512 :: "bytes \<Rightarrow> bytes"
  hex_encode :: "bytes \<Rightarrow> string"
  ed_public :: "bytes \<Rightarrow> bytes"
  ed_sign :: "bytes \<Rightarrow> bytes \<Rightarrow> bytes"
  x_public :: "bytes \<Rightarrow> bytes"
  x_dh :: "bytes \<Rightarrow> bytes \<Rightarrow> bytes"
  aead_encrypt :: "bytes \<Rightarrow> bytes \<Rightarrow> bytes \<Rightarrow> string + bytes"
  aead_decrypt :: "bytes \<Rightarrow> bytes \<Rightarrow> bytes \<Rightarrow> string + bytes"

text \<open>The documented laws the sealed box relies on: both ends of a Diffie-Hellman exchange get the same
  secret, public keys have 32 bytes, a ciphertext decrypts to its plaintext under its key and nonce.\<close>

definition dh_agrees :: "crypto \<Rightarrow> bool" where
  "dh_agrees c \<longleftrightarrow> (\<forall>a b. x_dh c a (x_public c b) = x_dh c b (x_public c a))"

definition x_keys_32 :: "crypto \<Rightarrow> bool" where
  "x_keys_32 c \<longleftrightarrow> (\<forall>s. length (x_public c s) = 32)"

definition aead_correct :: "crypto \<Rightarrow> bool" where
  "aead_correct c \<longleftrightarrow> (\<forall>k n p ct. aead_encrypt c k n p = Inr ct \<longrightarrow> aead_decrypt c k n ct = Inr p)"

text \<open>Digests have 32 bytes; a 32-byte key other than the one a ciphertext was made with does not
  open it.\<close>

definition digest_32 :: "crypto \<Rightarrow> bool" where
  "digest_32 c \<longleftrightarrow> (\<forall>b. length (sha256 c b) = 32)"

definition aead_key_bound :: "crypto \<Rightarrow> bool" where
  "aead_key_bound c \<longleftrightarrow>
     (\<forall>k k' n p ct. aead_encrypt c k n p = Inr ct \<longrightarrow> length k = 32 \<longrightarrow> length k' = 32 \<longrightarrow> k \<noteq> k' \<longrightarrow>
        (\<exists>e. aead_decrypt c k' n ct = Inl e))"

text \<open>Two byte strings with the same printed digest are the same string.\<close>

definition no_collision :: "crypto \<Rightarrow> bytes \<Rightarrow> bytes \<Rightarrow> bool" where
  "no_collision c a b \<longleftrightarrow> (hex_encode c (sha256 c a) = hex_encode c (sha256 c b) \<longrightarrow> a = b)"

text \<open>\<open>hex::encode\<close>: two hexadecimal digits for each byte.\<close>

definition hex_alphabet :: string where
  "hex_alphabet = ''0123456789abcdef''"

definition hex_law :: "crypto \<Rightarrow> bool" where
  "hex_law c \<longleftrightarrow> (\<forall>b. length (hex_encode c b) = 2 * length b \<and> set (hex_encode c b) \<subseteq> set hex_alphabet)"

section \<open>Identities\<close>

record device_identity =
  di_device_id :: string
  di_signing_key :: bytes
  di_noise_static :: bytes

record stored_identity =
  si_device_id :: string
  si_signing_key_bytes :: bytes
  si_noise_static_bytes :: bytes

definition ascii_bytes :: "string \<Rightarrow> bytes" where
  "ascii_bytes s = map (\<lambda>ch. of_nat (of_char ch)) s"

definition derive_noise_static :: "crypto \<Rightarrow> bytes \<Rightarrow> bytes" where
  "derive_noise_static c signing_key =
     take 32 (sha512 c (signing_key @ ascii_bytes ''zao-p2p-noise-static-v1''))"

definition derive_device_id :: "crypto \<Rightarrow> bytes \<Rightarrow> string" where
  "derive_device_id c vk = hex_encode c (sha256 c vk)"

definition device_id_from_public_key :: "crypto \<Rightarrow> bytes \<Rightarrow> string" where
  "device_id_from_public_key c public_key_bytes = hex_encode c (sha256 c public_key_bytes)"

definition verifying_key :: "crypto \<Rightarrow> device_identity \<Rightarrow> bytes" where
  "verifying_key c i = ed_public c (di_signing_key i)"

definition noise_public :: "crypto \<Rightarrow> device_identity \<Rightarrow> bytes" where
  "noise_public c i = x_public c (di_noise_static i)"

text \<open>\<open>seed\<close> is the 32 bytes \<open>SigningKey::generate\<close> draws.\<close>

definition generate :: "crypto \<Rightarrow> bytes \<Rightarrow> device_identity" where
  "generate c seed =
     \<lparr>di_device_id = derive_device_id c (ed_public c seed), di_signing_key = seed,
      di_noise_static = derive_noise_static c seed\<rparr>"

definition sign :: "crypto \<Rightarrow> device_identity \<Rightarrow> bytes \<Rightarrow> bytes" where
  "sign c i message = ed_sign c (di_signing_key i) message"

definition to_stored :: "device_identity \<Rightarrow> stored_identity" where
  "to_stored i =
     \<lparr>si_device_id = di_device_id i, si_signing_key_bytes = di_signing_key i,
      si_noise_static_bytes = di_noise_static i\<rparr>"

definition from_stored :: "crypto \<Rightarrow> stored_identity \<Rightarrow> device_identity res" where
  "from_stored c st =
     (let expected_id = derive_device_id c (ed_public c (si_signing_key_bytes st)) in
      if expected_id \<noteq> si_device_id st
      then Inl (InvalidState ''stored device_id does not match derived key'')
      else Inr \<lparr>di_device_id = si_device_id st, di_signing_key = si_signing_key_bytes st,
                di_noise_static = si_noise_static_bytes st\<rparr>)"

text \<open>The invariant of an identity in memory: its id is the digest of its signing key.\<close>

definition identity_wf :: "crypto \<Rightarrow> device_identity \<Rightarrow> bool" where
  "identity_wf c i \<longleftrightarrow> di_device_id i = derive_device_id c (verifying_key c i)"

lemma generate_wf [simp]: "identity_wf c (generate c seed)"
  by (simp add: identity_wf_def generate_def verifying_key_def)

lemma from_stored_to_stored: "identity_wf c i \<Longrightarrow> from_stored c (to_stored i) = Inr i"
  by (simp add: identity_wf_def from_stored_def to_stored_def verifying_key_def Let_def)

lemma to_stored_from_stored:
  "from_stored c st = Inr i \<Longrightarrow> to_stored i = st \<and> identity_wf c i"
  by (cases st)
    (auto simp: from_stored_def to_stored_def identity_wf_def verifying_key_def Let_def split: if_splits)

lemma from_stored_Inr_iff: "from_stored c st = Inr i \<longleftrightarrow> st = to_stored i \<and> identity_wf c i"
  using from_stored_to_stored to_stored_from_stored by blast

section \<open>The sealed box\<close>

definition derive_symmetric_key :: "crypto \<Rightarrow> bytes \<Rightarrow> bytes" where
  "derive_symmetric_key c shared = sha256 c (shared @ ascii_bytes ''zao-p2p-sealed-box-v1'')"

text \<open>\<open>eph\<close> and \<open>nonce\<close> are the ephemeral secret and the nonce drawn for this message.\<close>

definition seal :: "crypto \<Rightarrow> bytes \<Rightarrow> bytes \<Rightarrow> bytes \<Rightarrow> bytes \<Rightarrow> bytes res" where
  "seal c eph nonce recipient_public plaintext =
     (let key = derive_symmetric_key c (x_dh c eph recipient_public) in
      andThen (map_err (\<lambda>e. Crypto (''sealed_box encrypt failed: '' @ e)) (aead_encrypt c key nonce plaintext))
        (\<lambda>ciphertext. Inr (x_public c eph @ nonce @ ciphertext)))"

definition open_sealed :: "crypto \<Rightarrow> bytes \<Rightarrow> bytes \<Rightarrow> bytes res" where
  "open_sealed c recipient_secret sealed =
     (if length sealed < 32 + 12 then Inl (Crypto ''sealed_box message too short'')
      else
        let ephemeral_public = take 32 sealed;
            nonce = take 12 (drop 32 sealed);
            ciphertext = drop 44 sealed;
            key = derive_symmetric_key c (x_dh c recipient_secret ephemeral_public)
        in map_err (\<lambda>e. Crypto (''sealed_box decrypt failed: '' @ e)) (aead_decrypt c key nonce ciphertext))"

lemma seal_Inr_iff:
  "seal c eph nonce pk p = Inr sealed \<longleftrightarrow>
    (\<exists>ct. aead_encrypt c (derive_symmetric_key c (x_dh c eph pk)) nonce p = Inr ct \<and>
       sealed = x_public c eph @ nonce @ ct)"
  by (auto simp: seal_def Let_def andThen_Inr_iff map_err_def split: sum.splits)

lemma length_derive_symmetric_key: "digest_32 c \<Longrightarrow> length (derive_symmetric_key c k) = 32"
  by (simp add: digest_32_def derive_symmetric_key_def)

lemma aead_key_boundD:
  "aead_key_bound c \<Longrightarrow> aead_encrypt c k n p = Inr ct \<Longrightarrow> length k = 32 \<Longrightarrow> length k' = 32 \<Longrightarrow> k \<noteq> k' \<Longrightarrow>
    \<exists>e. aead_decrypt c k' n ct = Inl e"
  by (simp add: aead_key_bound_def)

lemma open_sealed_parts:
  assumes "x_keys_32 c" and "length nonce = 12"
  shows "open_sealed c secret (x_public c eph @ nonce @ ct) =
    map_err (\<lambda>e. Crypto (''sealed_box decrypt failed: '' @ e))
      (aead_decrypt c (derive_symmetric_key c (x_dh c secret (x_public c eph))) nonce ct)"
proof -
  have "length (x_public c eph) = 32" using assms(1) by (simp add: x_keys_32_def)
  then show ?thesis using assms(2) by (simp add: open_sealed_def Let_def)
qed

section \<open>An instance of the primitives\<close>

text \<open>Not secure, only there to evaluate the witnesses: the additive group as key exchange, and a cipher
  that appends the key.\<close>

definition pad :: "nat \<Rightarrow> bytes \<Rightarrow> bytes" where
  "pad n b = take n (b @ replicate n 0)"

lemma length_pad [simp]: "length (pad n b) = n"
  by (simp add: pad_def)

definition toy_crypto :: crypto where
  "toy_crypto =
     \<lparr>sha256 = (\<lambda>b. pad 32 b), sha512 = (\<lambda>b. pad 64 b), hex_encode = map (\<lambda>b. char_of (unat b)),
      ed_public = (\<lambda>s. pad 32 (1 # s)), ed_sign = (\<lambda>s m. pad 64 (s @ m)),
      x_public = (\<lambda>s. pad 32 s), x_dh = (\<lambda>s p. map2 (+) (pad 32 s) p),
      aead_encrypt = (\<lambda>k n p. Inr (p @ pad 32 k)),
      aead_decrypt = (\<lambda>k n ct. if drop (length ct - 32) ct = pad 32 k
        then Inr (take (length ct - 32) ct) else Inl ''aead::Error'')\<rparr>"

lemma toy_dh_agrees [simp]: "dh_agrees toy_crypto"
proof -
  have "map2 (+) x y = map2 (+) y x" for x y :: bytes
    by (rule nth_equalityI) (simp_all add: add.commute)
  then show ?thesis by (simp add: dh_agrees_def toy_crypto_def)
qed

lemma toy_x_keys_32 [simp]: "x_keys_32 toy_crypto"
  by (simp add: x_keys_32_def toy_crypto_def)

lemma toy_aead_correct [simp]: "aead_correct toy_crypto"
  by (simp add: aead_correct_def toy_crypto_def)

lemma toy_digest_32 [simp]: "digest_32 toy_crypto"
  by (simp add: digest_32_def toy_crypto_def)

lemma pad_same [simp]: "length b = n \<Longrightarrow> pad n b = b"
  by (simp add: pad_def)

lemma toy_aead_key_bound [simp]: "aead_key_bound toy_crypto"
  by (auto simp: aead_key_bound_def toy_crypto_def)

definition hex_of :: "bytes \<Rightarrow> string" where
  "hex_of b = concat (map (\<lambda>w. [hex_alphabet ! (unat w div 16), hex_alphabet ! (unat w mod 16)]) b)"

lemma hex_of_law [simp]: "hex_law (toy_crypto\<lparr>hex_encode := hex_of\<rparr>)"
proof -
  have "unat w div 16 < length hex_alphabet" "unat w mod 16 < length hex_alphabet" for w :: u8
    using unat_less_2p [of w] by (simp_all add: hex_alphabet_def)
  then have "set (hex_of b) \<subseteq> set hex_alphabet" "length (hex_of b) = 2 * length b" for b
    by (induction b) (auto simp: hex_of_def)
  then show ?thesis by (simp add: hex_law_def)
qed

lemma inj_char_of_u8: "inj (\<lambda>b :: u8. (char_of (unat b) :: char))"
proof (rule injI)
  fix x y :: u8
  assume "(char_of (unat x) :: char) = char_of (unat y)"
  then have "of_char (char_of (unat x) :: char) = (of_char (char_of (unat y) :: char) :: nat)" by simp
  then show "x = y" using unat_less_2p [of x] unat_less_2p [of y] by (simp add: word_unat_eq_iff)
qed

lemma toy_no_collision [simp]: "length a = 32 \<Longrightarrow> length b = 32 \<Longrightarrow> no_collision toy_crypto a b"
  by (simp add: no_collision_def toy_crypto_def inj_map_eq_map inj_char_of_u8)

lemma toy_key_lengths [simp]: "length (ed_public toy_crypto s) = 32" "length (x_public toy_crypto s) = 32"
  by (simp_all add: toy_crypto_def)

lemma toy_ed_public: "ed_public toy_crypto [a] = 1 # a # replicate 30 0"
  by (simp add: toy_crypto_def pad_def)

section \<open>What is guaranteed\<close>

text \<open>Exactly the stored rows whose id is the digest of the public half of their signing key load, they
  load to the identity that is stored as that row, and every generated identity survives the round
  trip.\<close>

lemma stored_identity_roundtrip:
  "from_stored c (to_stored (generate c seed)) = Inr (generate c seed) \<and>
   (from_stored c st = Inr i \<longleftrightarrow>
      st = to_stored i \<and> di_device_id i = hex_encode c (sha256 c (ed_public c (di_signing_key i)))) \<and>
   (is_ok (from_stored c st) \<longleftrightarrow>
      si_device_id st = hex_encode c (sha256 c (ed_public c (si_signing_key_bytes st))))"
proof (intro conjI)
  show "from_stored c (to_stored (generate c seed)) = Inr (generate c seed)"
    by (simp add: from_stored_to_stored)
  show "from_stored c st = Inr i \<longleftrightarrow>
      st = to_stored i \<and> di_device_id i = hex_encode c (sha256 c (ed_public c (di_signing_key i)))"
    by (simp add: from_stored_Inr_iff identity_wf_def derive_device_id_def verifying_key_def)
  show "is_ok (from_stored c st) \<longleftrightarrow>
      si_device_id st = hex_encode c (sha256 c (ed_public c (si_signing_key_bytes st)))"
    by (auto simp: from_stored_def derive_device_id_def Let_def)
qed

text \<open>A stored row in which the signing key was replaced by one with another public half is refused,
  whatever its noise key; a row in which only the noise key was replaced loads, with the replaced key:
  nothing ties the stored noise key to the identity.\<close>

lemma tampered_row:
  assumes "ed_public c k' \<noteq> ed_public c k" and "no_collision c (ed_public c k') (ed_public c k)"
  shows "from_stored c ((to_stored (generate c k))\<lparr>si_signing_key_bytes := k', si_noise_static_bytes := x\<rparr>) =
      Inl (InvalidState ''stored device_id does not match derived key'') \<and>
    from_stored c ((to_stored (generate c k))\<lparr>si_noise_static_bytes := x\<rparr>) =
      Inr ((generate c k)\<lparr>di_noise_static := x\<rparr>)"
  using assms
  by (simp add: from_stored_def to_stored_def generate_def derive_device_id_def no_collision_def Let_def)

theorem tampered_row_witness:
  "from_stored toy_crypto
     ((to_stored (generate toy_crypto [5]))\<lparr>si_signing_key_bytes := [6], si_noise_static_bytes := [9]\<rparr>) =
     Inl (InvalidState ''stored device_id does not match derived key'') \<and>
   from_stored toy_crypto ((to_stored (generate toy_crypto [5]))\<lparr>si_noise_static_bytes := [9]\<rparr>) =
     Inr ((generate toy_crypto [5])\<lparr>di_noise_static := [9]\<rparr>)"
  by (rule tampered_row) (simp_all add: toy_ed_public)

text \<open>The id computed from the static key a peer reveals in the handshake is the id of that peer only if
  the X25519 public key and the Ed25519 public key are the same bytes.  The code compares the two as
  if they were equal for every identity.\<close>

lemma handshake_id_is_device_id_iff:
  assumes "no_collision c (noise_public c (generate c seed)) (ed_public c seed)"
  shows "device_id_from_public_key c (noise_public c (generate c seed)) = di_device_id (generate c seed) \<longleftrightarrow>
    x_public c (derive_noise_static c seed) = ed_public c seed"
  using assms
  by (auto simp: device_id_from_public_key_def generate_def derive_device_id_def noise_public_def
      no_collision_def)

theorem handshake_id_is_device_id_iff_witness:
  "device_id_from_public_key toy_crypto (noise_public toy_crypto (generate toy_crypto [5])) =
     di_device_id (generate toy_crypto [5]) \<longleftrightarrow>
   x_public toy_crypto (derive_noise_static toy_crypto [5]) = ed_public toy_crypto [5]"
  by (rule handshake_id_is_device_id_iff) (simp add: noise_public_def)

text \<open>The recipient opens what was sealed to its public key, a recipient whose key derives another
  symmetric key does not, and the sealed message is 44 bytes longer than the ciphertext.\<close>

lemma sealed_box_roundtrip:
  assumes "dh_agrees c" and "x_keys_32 c" and "aead_correct c" and "digest_32 c"
    and "aead_key_bound c" and "length nonce = 12"
    and "seal c eph nonce (x_public c secret) p = Inr sealed"
  shows "open_sealed c secret sealed = Inr p \<and>
    (derive_symmetric_key c (x_dh c other (x_public c eph)) \<noteq>
       derive_symmetric_key c (x_dh c secret (x_public c eph)) \<longrightarrow>
     (\<exists>e. open_sealed c other sealed = Inl (Crypto e)))"
proof -
  let ?k = "derive_symmetric_key c (x_dh c eph (x_public c secret))"
  obtain ct where ct: "aead_encrypt c ?k nonce p = Inr ct" and s: "sealed = x_public c eph @ nonce @ ct"
    using assms(7) by (auto simp: seal_Inr_iff)
  have k: "x_dh c secret (x_public c eph) = x_dh c eph (x_public c secret)"
    using assms(1) by (simp add: dh_agrees_def)
  have "aead_decrypt c ?k nonce ct = Inr p" using assms(3) ct by (simp add: aead_correct_def)
  then have 1: "open_sealed c secret sealed = Inr p"
    by (simp add: s open_sealed_parts assms k)
  have "\<exists>e. open_sealed c other sealed = Inl (Crypto e)"
    if ne: "derive_symmetric_key c (x_dh c other (x_public c eph)) \<noteq> ?k"
  proof -
    obtain e where "aead_decrypt c (derive_symmetric_key c (x_dh c other (x_public c eph))) nonce ct = Inl e"
      using aead_key_boundD [OF assms(5) ct length_derive_symmetric_key [OF assms(4)]
        length_derive_symmetric_key [OF assms(4)] ne [symmetric]] by blast
    then show ?thesis by (simp add: s open_sealed_parts assms)
  qed
  with 1 show ?thesis by (simp add: k)
qed

theorem sealed_box_roundtrip_witness:
  "\<exists>sealed. seal toy_crypto [3] (replicate 12 8) (x_public toy_crypto [4]) [1, 2] = Inr sealed \<and>
    open_sealed toy_crypto [4] sealed = Inr [1, 2] \<and>
    (\<exists>e. open_sealed toy_crypto [5] sealed = Inl (Crypto e))"
proof -
  obtain sealed where s: "seal toy_crypto [3] (replicate 12 8) (x_public toy_crypto [4]) [1, 2] = Inr sealed"
    by (simp add: seal_def toy_crypto_def)
  have "hd (derive_symmetric_key toy_crypto (x_dh toy_crypto [a] (x_public toy_crypto [3]))) = a + 3" for a
    by (simp add: derive_symmetric_key_def toy_crypto_def pad_def)
  from this [of 5] this [of 4]
  have "derive_symmetric_key toy_crypto (x_dh toy_crypto [5] (x_public toy_crypto [3])) \<noteq>
      derive_symmetric_key toy_crypto (x_dh toy_crypto [4] (x_public toy_crypto [3]))"
    by auto
  with sealed_box_roundtrip [OF toy_dh_agrees toy_x_keys_32 toy_aead_correct toy_digest_32
      toy_aead_key_bound _ s] s
  show ?thesis by auto
qed

end
