(* ===== verification/Protocol.thy ===== *)
theory Protocol
  imports Prelude
begin

text \<open>
  The application messages of core/src/protocol.rs, field for field.  JSON text is produced by
  \<open>serde_json\<close>, which is not part of the repository: the encoder and the decoder are the
  components of the record \<open>wire\<close>, a parameter of every definition that encodes or decodes.
\<close>

section \<open>Payload structures\<close>

record text_message =
  tm_message_id :: string
  tm_conversation_id :: string
  tm_body :: string
  tm_sent_at_unix :: u64

record folder_file_entry =
  fe_relative_path :: string
  fe_file_size :: u64
  fe_mime_type :: string

record folder_offer =
  fd_folder_batch_id :: string
  fd_conversation_id :: string
  fd_folder_name :: string
  fd_total_files :: u64
  fd_total_size :: u64
  fd_files :: "folder_file_entry list"

record file_offer =
  fo_transfer_id :: string
  fo_message_id :: string
  fo_conversation_id :: string
  fo_file_name :: string
  fo_file_size :: u64
  fo_mime_type :: string
  fo_total_chunks :: u64
  fo_chunk_size :: u64
  fo_relative_path :: string
  fo_folder_batch_id :: "string option"

record file_chunk_message =
  fc_transfer_id :: string
  fc_chunk_index :: u64
  fc_payload :: bytes
  fc_checksum_sha256 :: bytes

section \<open>The message type\<close>

datatype protocol_message =
    Text text_message
  | FileOffer file_offer
  | FileAccept string
  | FileReject string string
  | FolderOffer folder_offer
  | FolderAccept string
  | FolderReject string string
  | FileChunk file_chunk_message
  | FileChunkAck string u64
  | FileTransferComplete string
  | FileTransferCancelled string string
  | TypingIndicator string bool
  | ReadReceipt string u64
  | DeliveryAck string u64
  | Presence bool u64
  | Ping
  | Pong

section \<open>The JSON codec as a parameter\<close>

text \<open>\<open>to_vec\<close> and \<open>from_slice\<close> of \<open>serde_json\<close> at this type: an error text or the result.\<close>

record wire =
  to_vec :: "protocol_message \<Rightarrow> string + bytes"
  from_slice :: "bytes \<Rightarrow> string + protocol_message"

definition encode_plaintext :: "wire \<Rightarrow> protocol_message \<Rightarrow> string + bytes" where
  "encode_plaintext w m = to_vec w m"

definition decode_plaintext :: "wire \<Rightarrow> bytes \<Rightarrow> string + protocol_message" where
  "decode_plaintext w b = from_slice w b"

text \<open>What the program relies on: a value that was encoded decodes to itself.  This is the contract
  of the derived \<open>Serialize\<close> and \<open>Deserialize\<close> implementations.\<close>

definition wire_roundtrips :: "wire \<Rightarrow> bool" where
  "wire_roundtrips w \<longleftrightarrow> (\<forall>m b. to_vec w m = Inr b \<longrightarrow> from_slice w b = Inr m)"

text \<open>A property of the JSON text of a chunk: \<open>serde\<close> writes a \<open>Vec<u8>\<close> as an array of decimal
  numbers, so each payload byte takes at least one digit and one separator or bracket.\<close>

definition wire_chunk_array :: "wire \<Rightarrow> bool" where
  "wire_chunk_array w \<longleftrightarrow>
     (\<forall>c b. to_vec w (FileChunk c) = Inr b \<longrightarrow> 2 * length (fc_payload c) \<le> length b)"

lemma decode_encode:
  "wire_roundtrips w \<Longrightarrow> encode_plaintext w m = Inr b \<Longrightarrow> decode_plaintext w b = Inr m"
  by (simp add: wire_roundtrips_def encode_plaintext_def decode_plaintext_def)

end
