(* ===== verification/Framing.thy ===== *)
theory Framing
  imports Protocol
begin

text \<open>
  The two byte formats that go over a stream: the length-prefixed frame of
  core/src/connection_manager.rs (\<open>write_framed\<close>, \<open>read_framed\<close>) and the chunk frame of
  core/src/transfer.rs (\<open>ChunkFrame\<close>).  A stream is the list of bytes the peer has written.
\<close>

section \<open>Sizes\<close>

definition CHUNK_SIZE :: nat where
  "CHUNK_SIZE = 8 * 1024 * 1024"

definition MAX_FRAME :: nat where
  "MAX_FRAME = CHUNK_SIZE + 4096"

lemma CHUNK_SIZE_eq: "CHUNK_SIZE = 8388608"
  by (simp add: CHUNK_SIZE_def)

lemma CHUNK_SIZE_pos [simp]: "0 < CHUNK_SIZE"
  by (simp add: CHUNK_SIZE_eq)

lemma MAX_FRAME_eq: "MAX_FRAME = 8392704"
  by (simp add: MAX_FRAME_def CHUNK_SIZE_eq)

section \<open>Length-prefixed frames\<close>

definition write_framed :: "bytes \<Rightarrow> bytes" where
  "write_framed data = u32_to_le (of_nat (length data)) @ data"

definition frame_too_big :: "nat \<Rightarrow> core_error" where
  "frame_too_big len = InvalidState
     (''frame length '' @ show_nat len @ '' exceeds max '' @ show_nat MAX_FRAME)"

definition read_framed :: "bytes \<Rightarrow> (bytes \<times> bytes) res" where
  "read_framed s =
     andThen (read_exact 4 s) (\<lambda>(len_buf, r).
       let len = unat (u32_from_le len_buf) in
       if len > MAX_FRAME then Inl (frame_too_big len)
       else read_exact len r)"

lemma u32_len: "n < 2 ^ 32 \<Longrightarrow> unat (of_nat n :: u32) = n"
  by (simp add: unat_of_nat)

lemma read_framed_prefix:
  "length h = 4 \<Longrightarrow> read_framed (h @ s) =
     (let len = unat (u32_from_le h) in
      if len > MAX_FRAME then Inl (frame_too_big len) else read_exact len s)"
  by (simp add: read_framed_def)

lemma read_write_framed:
  "length data \<le> MAX_FRAME \<Longrightarrow> read_framed (write_framed data @ s) = Inr (data, s)"
  by (simp add: write_framed_def read_framed_prefix Let_def u32_len MAX_FRAME_eq)

lemma read_framed_oversize:
  "MAX_FRAME < length data \<Longrightarrow> length data < 2 ^ 32 \<Longrightarrow>
     read_framed (write_framed data @ s) = Inl (frame_too_big (length data))"
  by (simp add: write_framed_def read_framed_prefix Let_def u32_len)

lemma read_framed_Inr:
  assumes "read_framed s = Inr (m, r)"
  shows "length m \<le> MAX_FRAME" and "length s = 4 + length m + length r"
    and "s = write_framed m @ r"
proof -
  from assms obtain h t where h: "read_exact 4 s = Inr (h, t)"
    and m: "unat (u32_from_le h) \<le> MAX_FRAME" and d: "read_exact (unat (u32_from_le h)) t = Inr (m, r)"
    by (auto simp: read_framed_def andThen_Inr_iff Let_def split: if_splits)
  from read_exact_Inr [OF h] have s: "s = h @ t" and lh: "length h = 4" by auto
  from read_exact_Inr [OF d] have t: "t = m @ r" and lm: "length m = unat (u32_from_le h)" by auto
  from lm m show "length m \<le> MAX_FRAME" by simp
  from s t lh show "length s = 4 + length m + length r" by simp
  have "nat_of_le h < 2 ^ 32" using nat_of_le_bound [of h] lh by simp
  then have "length m = nat_of_le h" using lm by (simp add: u32_from_le_def unat_of_nat)
  moreover then have "u32_to_le (of_nat (length m)) = h"
    using le_of_nat_of_le [of h] lh \<open>nat_of_le h < 2 ^ 32\<close>
    by (simp add: u32_to_le_def unat_of_nat)
  ultimately show "s = write_framed m @ r" using s t by (simp add: write_framed_def)
qed

interpretation framed: stream_codec write_framed read_framed "\<lambda>d. length d \<le> MAX_FRAME"
  by unfold_locales (rule read_write_framed)

text \<open>The reader task of a stream: frames up to the first error, and that error.  Every frame takes
  at least its four length bytes, so the loop ends on every finite stream.\<close>

function frames_until_error :: "bytes \<Rightarrow> bytes list \<times> core_error" where
  "frames_until_error s =
     (case read_framed s of
        Inl e \<Rightarrow> ([], e)
      | Inr (m, r) \<Rightarrow> (let (ms, e) = frames_until_error r in (m # ms, e)))"
  by pat_completeness auto
termination
  by (relation "measure length") (auto dest: read_framed_Inr(2))

declare frames_until_error.simps [simp del]

lemma frames_until_error_step:
  "read_framed s = Inr (m, r) \<Longrightarrow>
    frames_until_error s = (m # fst (frames_until_error r), snd (frames_until_error r))"
  by (subst frames_until_error.simps) (simp add: case_prod_beta)

lemma frames_until_error_stop: "read_framed s = Inl e \<Longrightarrow> frames_until_error s = ([], e)"
  by (subst frames_until_error.simps) simp

lemma frames_until_error_frames:
  "(\<And>m. m \<in> set ms \<Longrightarrow> length m \<le> MAX_FRAME) \<Longrightarrow>
    frames_until_error (concat (map write_framed ms) @ s) =
      (ms @ fst (frames_until_error s), snd (frames_until_error s))"
  by (induction ms) (auto simp: frames_until_error_step [OF read_write_framed])

text \<open>The frames a peer writes, each within the limit, arrive exactly and in order, and the
  reader ends with the end-of-file error when the stream ends.\<close>

lemma framed_stream_delivered:
  assumes "\<forall>m \<in> set ms. length m \<le> MAX_FRAME"
  shows "frames_until_error (concat (map write_framed ms)) = (ms, Io ''early eof'')"
  using frames_until_error_frames [of ms "[]"] assms
  by (simp add: frames_until_error_stop read_framed_def read_exact_short)

theorem framed_stream_delivered_witness:
  "frames_until_error (concat (map write_framed [[1, 2], [], [3]])) =
     ([[1, 2], [], [3]], Io ''early eof'')"
  using framed_stream_delivered [of "[[1, 2], [], [3]]"] by (simp add: MAX_FRAME_eq)

text \<open>A frame that announces more than \<open>MAX_FRAME\<close> bytes stops the reader: the frames before it
  are delivered, nothing after it is, and the reader never asks for more than \<open>MAX_FRAME\<close> bytes.\<close>

lemma framed_stream_oversize:
  assumes "\<forall>m \<in> set ms. length m \<le> MAX_FRAME"
    and "MAX_FRAME < length big" and "length big < 2 ^ 32"
  shows "frames_until_error (concat (map write_framed ms) @ write_framed big @ s) =
           (ms, frame_too_big (length big))"
  using frames_until_error_frames [of ms "write_framed big @ s"] assms
  by (simp add: frames_until_error_stop read_framed_oversize)

theorem framed_stream_oversize_witness:
  "frames_until_error (concat (map write_framed [[7]]) @ write_framed (replicate 8392705 0) @ [1]) =
     ([[7]], frame_too_big 8392705)"
proof -
  have "\<forall>m \<in> set [[7 :: u8]]. length m \<le> MAX_FRAME"
    and "MAX_FRAME < length (replicate 8392705 (0 :: u8))"
    and "length (replicate 8392705 (0 :: u8)) < 2 ^ 32"
    by (simp_all add: MAX_FRAME_eq)
  from framed_stream_oversize [OF this, of "[1]"] show ?thesis by simp
qed

section \<open>Chunk frames\<close>

record chunk_frame =
  cf_chunk_index :: u64
  cf_payload :: bytes
  cf_checksum :: bytes

text \<open>The hash \<open>sha256\<close> comes from a library and is a parameter.\<close>

definition chunk_frame_new :: "(bytes \<Rightarrow> bytes) \<Rightarrow> u64 \<Rightarrow> bytes \<Rightarrow> chunk_frame" where
  "chunk_frame_new sha i payload =
     \<lparr>cf_chunk_index = i, cf_payload = payload, cf_checksum = sha payload\<rparr>"

definition chunk_frame_verify :: "(bytes \<Rightarrow> bytes) \<Rightarrow> chunk_frame \<Rightarrow> bool" where
  "chunk_frame_verify sha f \<longleftrightarrow> sha (cf_payload f) = cf_checksum f"

definition chunk_frame_encode :: "chunk_frame \<Rightarrow> bytes" where
  "chunk_frame_encode f =
     u64_to_le (cf_chunk_index f) @ u32_to_le (of_nat (length (cf_payload f))) @
     cf_checksum f @ cf_payload f"

definition chunk_frame_read :: "bytes \<Rightarrow> (chunk_frame \<times> bytes) res" where
  "chunk_frame_read s =
     andThen (read_exact (8 + 4 + 32) s) (\<lambda>(header, r).
       let chunk_index = u64_from_le (take 8 header);
           payload_len = unat (u32_from_le (take 4 (drop 8 header)));
           checksum = drop 12 header
       in andThen (read_exact payload_len r) (\<lambda>(payload, r').
            Inr (\<lparr>cf_chunk_index = chunk_index, cf_payload = payload, cf_checksum = checksum\<rparr>, r')))"

definition chunk_frame_wf :: "chunk_frame \<Rightarrow> bool" where
  "chunk_frame_wf f \<longleftrightarrow> length (cf_checksum f) = 32 \<and> length (cf_payload f) < 2 ^ 32"

lemma chunk_frame_read_encode:
  assumes "chunk_frame_wf f"
  shows "chunk_frame_read (chunk_frame_encode f @ s) = Inr (f, s)"
proof -
  let ?h = "u64_to_le (cf_chunk_index f) @ u32_to_le (of_nat (length (cf_payload f))) @ cf_checksum f"
  have lh: "length ?h = 8 + 4 + 32" using assms by (simp add: chunk_frame_wf_def)
  have "chunk_frame_encode f @ s = ?h @ cf_payload f @ s" by (simp add: chunk_frame_encode_def)
  then have "read_exact (8 + 4 + 32) (chunk_frame_encode f @ s) = Inr (?h, cf_payload f @ s)"
    using read_exact_append [OF lh] by simp
  moreover have "unat (of_nat (length (cf_payload f)) :: u32) = length (cf_payload f)"
    using assms by (simp add: chunk_frame_wf_def u32_len)
  ultimately show ?thesis by (simp add: chunk_frame_read_def)
qed

interpretation chunks: stream_codec chunk_frame_encode chunk_frame_read chunk_frame_wf
  by unfold_locales (rule chunk_frame_read_encode)

lemma chunk_frame_new_verifies [simp]: "chunk_frame_verify sha (chunk_frame_new sha i p)"
  by (simp add: chunk_frame_verify_def chunk_frame_new_def)

text \<open>A sequence of chunk frames written to a stream is read back frame by frame, whatever
  follows them, and every frame that arrives passes the integrity check.\<close>

lemma chunk_frame_stream_roundtrip:
  assumes "\<forall>(i, p) \<in> set ips. length p < 2 ^ 32" and "\<forall>p. length (sha p) = 32"
  shows "\<exists>fs. read_items (length ips) chunk_frame_read
           (concat (map (\<lambda>(i, p). chunk_frame_encode (chunk_frame_new sha i p)) ips) @ s) = Inr (fs, s) \<and>
         map (\<lambda>f. (cf_chunk_index f, cf_payload f)) fs = ips \<and>
         (\<forall>f \<in> set fs. chunk_frame_verify sha f)"
proof -
  let ?fs = "map (\<lambda>(i, p). chunk_frame_new sha i p) ips"
  have wf: "chunk_frame_wf f" if "f \<in> set ?fs" for f
    using that assms by (auto simp: chunk_frame_wf_def chunk_frame_new_def)
  have enc: "map chunk_frame_encode ?fs = map (\<lambda>(i, p). chunk_frame_encode (chunk_frame_new sha i p)) ips"
    by (simp add: case_prod_unfold)
  have "map (\<lambda>f. (cf_chunk_index f, cf_payload f)) ?fs = ips"
    by (induction ips) (auto simp: chunk_frame_new_def)
  moreover have "\<forall>f \<in> set ?fs. chunk_frame_verify sha f" by auto
  ultimately show ?thesis
    using chunks.read_items_concat [of ?fs s, OF wf] unfolding enc by auto
qed

theorem chunk_frame_stream_roundtrip_witness:
  "\<exists>fs. read_items (length [(0 :: u64, [1, 2 :: u8]), (1, [3])]) chunk_frame_read
     (concat (map (\<lambda>(i, p). chunk_frame_encode (chunk_frame_new (\<lambda>_. replicate 32 0) i p))
        [(0, [1, 2]), (1, [3])]) @ [9]) = Inr (fs, [9]) \<and>
     map (\<lambda>f. (cf_chunk_index f, cf_payload f)) fs = [(0, [1, 2]), (1, [3])] \<and>
     (\<forall>f \<in> set fs. chunk_frame_verify (\<lambda>_. replicate 32 0) f)"
  by (rule chunk_frame_stream_roundtrip) simp_all

end
