(* ===== verification/Noise.thy ===== *)
theory Noise
  imports Identity Framing Protocol
begin

text \<open>
  core/src/noise_session.rs: a Noise_XX session over the states of the \<open>snow\<close> crate, which are the type
  parameters \<open>'h\<close> (handshake) and \<open>'t\<close> (transport), with the crate's operations as the fields of the
  record \<open>snow\<close>.  An operation that takes \<open>&mut self\<close> returns its result and the session it leaves.
\<close>

section \<open>The crate's operations\<close>

text \<open>The last argument of a read or write is the size of the buffer it is given.\<close>

record ('h, 't) snow =
  parse_params :: "string \<Rightarrow> string + unit"
  build_initiator :: "bytes \<Rightarrow> string + 'h"
  build_responder :: "bytes \<Rightarrow> string + 'h"
  hs_write :: "'h \<Rightarrow> bytes \<Rightarrow> nat \<Rightarrow> (string + bytes) \<times> 'h"
  hs_read :: "'h \<Rightarrow> bytes \<Rightarrow> nat \<Rightarrow> (string + bytes) \<times> 'h"
  hs_finished :: "'h \<Rightarrow> bool"
  hs_remote_static :: "'h \<Rightarrow> bytes option"
  hs_into_transport :: "'h \<Rightarrow> string + 't"
  ts_write :: "'t \<Rightarrow> bytes \<Rightarrow> nat \<Rightarrow> (string + bytes) \<times> 't"
  ts_read :: "'t \<Rightarrow> bytes \<Rightarrow> nat \<Rightarrow> (string + bytes) \<times> 't"
  ts_remote_static :: "'t \<Rightarrow> bytes option"

section \<open>The session\<close>

definition NOISE_PARAMS :: string where
  "NOISE_PARAMS = ''Noise_XX_25519_ChaChaPoly_SHA256''"

datatype ('h, 't) noise_session = Handshaking 'h | Transport 't

datatype role = Initiator | Responder

definition noise_new :: "('h, 't) snow \<Rightarrow> device_identity \<Rightarrow> role \<Rightarrow> ('h, 't) noise_session res" where
  "noise_new sn identity r =
     andThen (map_err (\<lambda>e. Crypto (''bad noise params: '' @ e)) (parse_params sn NOISE_PARAMS))
       (\<lambda>_. andThen
         (map_err Crypto
           (case r of
              Initiator \<Rightarrow> build_initiator sn (di_noise_static identity)
            | Responder \<Rightarrow> build_responder sn (di_noise_static identity)))
         (\<lambda>hs. Inr (Handshaking hs)))"

fun write_handshake_message ::
    "('h, 't) snow \<Rightarrow> ('h, 't) noise_session \<Rightarrow> bytes \<Rightarrow> bytes res \<times> ('h, 't) noise_session" where
  "write_handshake_message sn (Handshaking hs) payload =
     (let (r, hs') = hs_write sn hs payload 4096 in (map_err Crypto r, Handshaking hs'))"
| "write_handshake_message sn (Transport ts) payload =
     (Inl (InvalidState ''handshake already complete''), Transport ts)"

fun read_handshake_message ::
    "('h, 't) snow \<Rightarrow> ('h, 't) noise_session \<Rightarrow> bytes \<Rightarrow> bytes res \<times> ('h, 't) noise_session" where
  "read_handshake_message sn (Handshaking hs) msg =
     (let (r, hs') = hs_read sn hs msg 4096 in (map_err Crypto r, Handshaking hs'))"
| "read_handshake_message sn (Transport ts) msg =
     (Inl (InvalidState ''handshake already complete''), Transport ts)"

fun into_transport_mode :: "('h, 't) snow \<Rightarrow> ('h, 't) noise_session \<Rightarrow> ('h, 't) noise_session res" where
  "into_transport_mode sn (Handshaking hs) =
     andThen (map_err Crypto (hs_into_transport sn hs)) (\<lambda>ts. Inr (Transport ts))"
| "into_transport_mode sn (Transport ts) = Inr (Transport ts)"

fun is_handshake_finished :: "('h, 't) snow \<Rightarrow> ('h, 't) noise_session \<Rightarrow> bool" where
  "is_handshake_finished sn (Handshaking hs) = hs_finished sn hs"
| "is_handshake_finished sn (Transport ts) = True"

fun peer_static_key :: "('h, 't) snow \<Rightarrow> ('h, 't) noise_session \<Rightarrow> bytes option" where
  "peer_static_key sn (Handshaking hs) = hs_remote_static sn hs"
| "peer_static_key sn (Transport ts) = ts_remote_static sn ts"

fun encrypt :: "('h, 't) snow \<Rightarrow> ('h, 't) noise_session \<Rightarrow> bytes \<Rightarrow> bytes res \<times> ('h, 't) noise_session" where
  "encrypt sn (Transport ts) plaintext =
     (let (r, ts') = ts_write sn ts plaintext (length plaintext + 16) in (map_err Crypto r, Transport ts'))"
| "encrypt sn (Handshaking hs) plaintext = (Inl (InvalidState ''not in transport mode''), Handshaking hs)"

fun decrypt :: "('h, 't) snow \<Rightarrow> ('h, 't) noise_session \<Rightarrow> bytes \<Rightarrow> bytes res \<times> ('h, 't) noise_session" where
  "decrypt sn (Transport ts) ciphertext =
     (let (r, ts') = ts_read sn ts ciphertext (length ciphertext) in (map_err Crypto r, Transport ts'))"
| "decrypt sn (Handshaking hs) ciphertext = (Inl (InvalidState ''not in transport mode''), Handshaking hs)"

section \<open>What Noise promises of a transport state\<close>

text \<open>A transport state seen from the Noise specification: a key and a counter for each direction.\<close>

record noise_view =
  key_out :: bytes
  key_in :: bytes
  n_out :: nat
  n_in :: nat

definition NOISE_MAX :: nat where
  "NOISE_MAX = 65535"

text \<open>
  The laws, for a ciphertext function \<open>box\<close> of key, counter and plaintext: a message that fits is
  encrypted with the next counter; one that does not fit is refused; a ciphertext made with the
  expected key and counter is decrypted and the counter advances; one made with another counter is
  refused and leaves the state as it was.  Counters stay below the reserved value.
\<close>

definition box_law :: "(bytes \<Rightarrow> nat \<Rightarrow> bytes \<Rightarrow> bytes) \<Rightarrow> bool" where
  "box_law box \<longleftrightarrow> (\<forall>k n p. length (box k n p) = length p + 16)"

definition write_law :: "('h, 't) snow \<Rightarrow> ('t \<Rightarrow> noise_view) \<Rightarrow> (bytes \<Rightarrow> nat \<Rightarrow> bytes \<Rightarrow> bytes) \<Rightarrow> bool" where
  "write_law sn view box \<longleftrightarrow>
     (\<forall>t p size. length p + 16 \<le> size \<longrightarrow> n_out (view t) < 2 ^ 64 - 1 \<longrightarrow>
        (if length p + 16 \<le> NOISE_MAX
         then \<exists>t'. ts_write sn t p size = (Inr (box (key_out (view t)) (n_out (view t)) p), t') \<and>
            view t' = (view t)\<lparr>n_out := Suc (n_out (view t))\<rparr>
         else \<exists>e. ts_write sn t p size = (Inl e, t)))"

definition read_law :: "('h, 't) snow \<Rightarrow> ('t \<Rightarrow> noise_view) \<Rightarrow> (bytes \<Rightarrow> nat \<Rightarrow> bytes \<Rightarrow> bytes) \<Rightarrow> bool" where
  "read_law sn view box \<longleftrightarrow>
     (\<forall>t n p size. length p + 16 \<le> NOISE_MAX \<longrightarrow> length p + 16 \<le> size \<longrightarrow> n < 2 ^ 64 - 1 \<longrightarrow>
        n_in (view t) < 2 ^ 64 - 1 \<longrightarrow>
        (if n = n_in (view t)
         then \<exists>t'. ts_read sn t (box (key_in (view t)) n p) size = (Inr p, t') \<and>
            view t' = (view t)\<lparr>n_in := Suc (n_in (view t))\<rparr>
         else \<exists>e. ts_read sn t (box (key_in (view t)) n p) size = (Inl e, t)))"

text \<open>The two directions are separate: writing does not touch the receiving side, whether it succeeds or not.\<close>

definition write_separate :: "('h, 't) snow \<Rightarrow> ('t \<Rightarrow> noise_view) \<Rightarrow> bool" where
  "write_separate sn view \<longleftrightarrow>
     (\<forall>t p size. key_in (view (snd (ts_write sn t p size))) = key_in (view t) \<and>
        n_in (view (snd (ts_write sn t p size))) = n_in (view t))"

definition snow_laws :: "('h, 't) snow \<Rightarrow> ('t \<Rightarrow> noise_view) \<Rightarrow> (bytes \<Rightarrow> nat \<Rightarrow> bytes \<Rightarrow> bytes) \<Rightarrow> bool" where
  "snow_laws sn view box \<longleftrightarrow>
     box_law box \<and> write_law sn view box \<and> read_law sn view box \<and> write_separate sn view"

text \<open>One end's sending direction matches the other end's receiving direction.\<close>

definition in_step :: "('t \<Rightarrow> noise_view) \<Rightarrow> 't \<Rightarrow> 't \<Rightarrow> bool" where
  "in_step view a b \<longleftrightarrow> key_out (view a) = key_in (view b) \<and> n_out (view a) = n_in (view b)"

section \<open>Messages one after another\<close>

fun encrypt_all ::
    "('h, 't) snow \<Rightarrow> ('h, 't) noise_session \<Rightarrow> bytes list \<Rightarrow> bytes res list \<times> ('h, 't) noise_session" where
  "encrypt_all sn s [] = ([], s)"
| "encrypt_all sn s (p # ps) =
     (let (r, s') = encrypt sn s p; (rs, s'') = encrypt_all sn s' ps in (r # rs, s''))"

fun decrypt_all ::
    "('h, 't) snow \<Rightarrow> ('h, 't) noise_session \<Rightarrow> bytes list \<Rightarrow> bytes res list \<times> ('h, 't) noise_session" where
  "decrypt_all sn s [] = ([], s)"
| "decrypt_all sn s (c # cs) =
     (let (r, s') = decrypt sn s c; (rs, s'') = decrypt_all sn s' cs in (r # rs, s''))"

text \<open>The ciphertexts of a list of plaintexts, from counter \<open>n\<close> on.\<close>

fun boxes :: "(bytes \<Rightarrow> nat \<Rightarrow> bytes \<Rightarrow> bytes) \<Rightarrow> bytes \<Rightarrow> nat \<Rightarrow> bytes list \<Rightarrow> bytes list" where
  "boxes box k n [] = []"
| "boxes box k n (p # ps) = box k n p # boxes box k (Suc n) ps"

definition fits :: "bytes \<Rightarrow> bool" where
  "fits p \<longleftrightarrow> length p + 16 \<le> NOISE_MAX"

lemma write_lawD:
  "snow_laws sn view box \<Longrightarrow> n_out (view t) < 2 ^ 64 - 1 \<Longrightarrow>
    (if fits p
     then \<exists>t'. ts_write sn t p (length p + 16) = (Inr (box (key_out (view t)) (n_out (view t)) p), t') \<and>
        view t' = (view t)\<lparr>n_out := Suc (n_out (view t))\<rparr>
     else \<exists>e. ts_write sn t p (length p + 16) = (Inl e, t))"
  unfolding snow_laws_def write_law_def fits_def by (elim conjE allE [of _ t] allE [of _ p]) simp

lemma read_lawD:
  assumes "snow_laws sn view box" and "fits p" and "n < 2 ^ 64 - 1" and "n_in (view t) < 2 ^ 64 - 1"
  shows "if n = n_in (view t)
     then \<exists>t'. ts_read sn t (box (key_in (view t)) n p) (length (box (key_in (view t)) n p)) = (Inr p, t') \<and>
        view t' = (view t)\<lparr>n_in := Suc (n_in (view t))\<rparr>
     else \<exists>e. ts_read sn t (box (key_in (view t)) n p) (length (box (key_in (view t)) n p)) = (Inl e, t)"
proof -
  have "read_law sn view box" and "length (box (key_in (view t)) n p) = length p + 16"
    using assms(1) by (simp_all add: snow_laws_def box_law_def)
  then show ?thesis
    using assms(2-4) unfolding read_law_def fits_def by (metis order_refl)
qed

lemma encrypt_fits:
  assumes "snow_laws sn view box" and "fits p" and "n_out (view t) < 2 ^ 64 - 1"
  shows "\<exists>t'. encrypt sn (Transport t) p = (Inr (box (key_out (view t)) (n_out (view t)) p), Transport t') \<and>
    view t' = (view t)\<lparr>n_out := Suc (n_out (view t))\<rparr>"
  using write_lawD [OF assms(1,3), of p] assms(2) by auto

lemma encrypt_too_long:
  assumes "snow_laws sn view box" and "\<not> fits p" and "n_out (view t) < 2 ^ 64 - 1"
  shows "\<exists>e. encrypt sn (Transport t) p = (Inl (Crypto e), Transport t)"
  using write_lawD [OF assms(1,3), of p] assms(2) by auto

lemma decrypt_expected:
  assumes "snow_laws sn view box" and "fits p" and "n_in (view t) < 2 ^ 64 - 1"
  shows "\<exists>t'. decrypt sn (Transport t) (box (key_in (view t)) (n_in (view t)) p) = (Inr p, Transport t') \<and>
    view t' = (view t)\<lparr>n_in := Suc (n_in (view t))\<rparr>"
  using read_lawD [OF assms(1,2,3,3)] by auto

lemma decrypt_unexpected:
  assumes "snow_laws sn view box" and "fits p" and "n_in (view t) < 2 ^ 64 - 1" and "n < 2 ^ 64 - 1"
    and "n \<noteq> n_in (view t)"
  shows "\<exists>e. decrypt sn (Transport t) (box (key_in (view t)) n p) = (Inl (Crypto e), Transport t)"
  using read_lawD [OF assms(1,2,4,3)] assms(5) by auto

lemma encrypt_all_boxes:
  assumes "snow_laws sn view box" and "\<And>p. p \<in> set ps \<Longrightarrow> fits p" and "n_out (view t) + length ps < 2 ^ 64"
  shows "\<exists>t'. encrypt_all sn (Transport t) ps =
      (map Inr (boxes box (key_out (view t)) (n_out (view t)) ps), Transport t') \<and>
    view t' = (view t)\<lparr>n_out := n_out (view t) + length ps\<rparr>"
  using assms(2,3)
proof (induction ps arbitrary: t)
  case Nil
  then show ?case by simp
next
  case (Cons p ps)
  from Cons.prems encrypt_fits [OF assms(1), of p t] obtain t1 where
    t1: "encrypt sn (Transport t) p = (Inr (box (key_out (view t)) (n_out (view t)) p), Transport t1)"
      "view t1 = (view t)\<lparr>n_out := Suc (n_out (view t))\<rparr>" by auto
  with Cons.IH [of t1] Cons.prems show ?case by (auto simp del: encrypt.simps)
qed

lemma decrypt_all_boxes:
  assumes "snow_laws sn view box" and "\<And>p. p \<in> set ps \<Longrightarrow> fits p" and "n_in (view t) + length ps < 2 ^ 64"
  shows "\<exists>t'. decrypt_all sn (Transport t) (boxes box (key_in (view t)) (n_in (view t)) ps) =
      (map Inr ps, Transport t') \<and> view t' = (view t)\<lparr>n_in := n_in (view t) + length ps\<rparr>"
  using assms(2,3)
proof (induction ps arbitrary: t)
  case Nil
  then show ?case by simp
next
  case (Cons p ps)
  from Cons.prems decrypt_expected [OF assms(1), of p t] obtain t1 where
    t1: "decrypt sn (Transport t) (box (key_in (view t)) (n_in (view t)) p) = (Inr p, Transport t1)"
      "view t1 = (view t)\<lparr>n_in := Suc (n_in (view t))\<rparr>" by auto
  with Cons.IH [of t1] Cons.prems show ?case by (auto simp del: decrypt.simps)
qed

section \<open>An instance of the laws\<close>

text \<open>A transport state that is its own view, with the counter and half the key as the tag.\<close>

definition toy_tag :: "bytes \<Rightarrow> nat \<Rightarrow> bytes" where
  "toy_tag k n = le_of_nat 8 n @ pad 8 k"

definition toy_box :: "bytes \<Rightarrow> nat \<Rightarrow> bytes \<Rightarrow> bytes" where
  "toy_box k n p = p @ toy_tag k n"

definition toy_snow :: "(bytes, noise_view) snow" where
  "toy_snow =
     \<lparr>parse_params = (\<lambda>_. Inr ()), build_initiator = Inr, build_responder = Inr,
      hs_write = (\<lambda>h p _. (Inr (h @ p), h)), hs_read = (\<lambda>h m _. (Inr [], h)), hs_finished = (\<lambda>_. True),
      hs_remote_static = (\<lambda>h. Some h),
      hs_into_transport = (\<lambda>h. Inr \<lparr>key_out = h, key_in = h, n_out = 0, n_in = 0\<rparr>),
      ts_write = (\<lambda>t p size. if length p + 16 \<le> NOISE_MAX \<and> length p + 16 \<le> size
        then (Inr (toy_box (key_out t) (n_out t) p), t\<lparr>n_out := Suc (n_out t)\<rparr>) else (Inl ''input error'', t)),
      ts_read = (\<lambda>t c size. let n = length c - 16 in
        if drop n c = toy_tag (key_in t) (n_in t) then (Inr (take n c), t\<lparr>n_in := Suc (n_in t)\<rparr>)
        else (Inl ''decrypt error'', t)),
      ts_remote_static = (\<lambda>t. Some (key_in t))\<rparr>"

lemma length_toy_tag [simp]: "length (toy_tag k n) = 16"
  by (simp add: toy_tag_def)

lemma toy_tag_inject:
  "n < 2 ^ 64 - 1 \<Longrightarrow> m < 2 ^ 64 - 1 \<Longrightarrow> toy_tag k n = toy_tag k m \<longleftrightarrow> n = m"
proof -
  assume "n < 2 ^ 64 - 1" and "m < 2 ^ 64 - 1"
  then have "nat_of_le (le_of_nat 8 n) = n" "nat_of_le (le_of_nat 8 m) = m"
    by (simp_all add: nat_of_le_of_nat_mod)
  then have "le_of_nat 8 n = le_of_nat 8 m \<longleftrightarrow> n = m" by metis
  then show ?thesis by (simp add: toy_tag_def)
qed

lemma toy_snow_laws [simp]: "snow_laws toy_snow (\<lambda>t. t) toy_box"
proof -
  have "box_law toy_box" by (simp add: box_law_def toy_box_def)
  moreover have "write_law toy_snow (\<lambda>t. t) toy_box" by (simp add: write_law_def toy_snow_def)
  moreover have "read_law toy_snow (\<lambda>t. t) toy_box"
    using toy_tag_inject by (simp add: read_law_def toy_snow_def toy_box_def Let_def)
  moreover have "write_separate toy_snow (\<lambda>t. t)" by (simp add: write_separate_def toy_snow_def)
  ultimately show ?thesis by (simp add: snow_laws_def)
qed

section \<open>What is guaranteed\<close>

text \<open>While two ends are in step, any number of messages that fit are encrypted by one and, received in
  the order they were encrypted, decrypted by the other to the same messages, and the ends are in step
  again.\<close>

lemma messages_in_order:
  assumes "snow_laws sn view box" and "in_step view a b" and "\<forall>p \<in> set ps. fits p"
    and "n_out (view a) + length ps < 2 ^ 64"
  shows "\<exists>cts a' b'. encrypt_all sn (Transport a) ps = (map Inr cts, Transport a') \<and>
    decrypt_all sn (Transport b) cts = (map Inr ps, Transport b') \<and> in_step view a' b'"
proof -
  obtain a' where a: "encrypt_all sn (Transport a) ps =
      (map Inr (boxes box (key_out (view a)) (n_out (view a)) ps), Transport a')"
      "view a' = (view a)\<lparr>n_out := n_out (view a) + length ps\<rparr>"
    using encrypt_all_boxes [OF assms(1) _ assms(4)] assms(3) by blast
  have n: "n_in (view b) + length ps < 2 ^ 64" using assms(2,4) by (simp add: in_step_def)
  obtain b' where b: "decrypt_all sn (Transport b) (boxes box (key_in (view b)) (n_in (view b)) ps) =
      (map Inr ps, Transport b')" "view b' = (view b)\<lparr>n_in := n_in (view b) + length ps\<rparr>"
    using decrypt_all_boxes [OF assms(1) _ n] assms(3) by blast
  from a b assms(2) show ?thesis
    by (intro exI [of _ "boxes box (key_out (view a)) (n_out (view a)) ps"] exI [of _ a'] exI [of _ b'])
      (simp add: in_step_def)
qed

definition toy_view :: noise_view where
  "toy_view = \<lparr>key_out = [1], key_in = [1], n_out = 7, n_in = 7\<rparr>"

theorem messages_in_order_witness:
  "\<exists>cts a' b'. encrypt_all toy_snow (Transport toy_view) [[1, 2], [], [3]] = (map Inr cts, Transport a') \<and>
    decrypt_all toy_snow (Transport toy_view) cts = (map Inr [[1, 2], [], [3]], Transport b') \<and>
    in_step (\<lambda>t. t) a' b'"
  by (rule messages_in_order [OF toy_snow_laws])
    (simp_all add: in_step_def toy_view_def fits_def NOISE_MAX_def)

text \<open>Two messages whose ciphertexts arrive in the other order: the one that overtook is refused with
  an error and is lost, the session is left as it was, and only the first message is decrypted.  The
  streams of one connection share the session, and nothing orders arrivals across streams.\<close>

lemma overtaking_message_lost:
  assumes "snow_laws sn view box" and "in_step view a b" and "fits p" and "fits q"
    and "n_out (view a) + 2 < 2 ^ 64"
  shows "\<exists>c d e a' b'. encrypt_all sn (Transport a) [p, q] = ([Inr c, Inr d], Transport a') \<and>
    decrypt_all sn (Transport b) [d, c] = ([Inl (Crypto e), Inr p], Transport b') \<and>
    n_in (view b') = Suc (n_in (view b))"
proof -
  let ?k = "key_out (view a)" let ?n = "n_out (view a)"
  obtain a' where a: "encrypt_all sn (Transport a) [p, q] = (map Inr (boxes box ?k ?n [p, q]), Transport a')"
    using encrypt_all_boxes [OF assms(1), of "[p, q]" a] assms(3-5) by auto
  have s: "key_in (view b) = ?k" "n_in (view b) = ?n" using assms(2) by (simp_all add: in_step_def)
  obtain e where d: "decrypt sn (Transport b) (box ?k (Suc ?n) q) = (Inl (Crypto e), Transport b)"
    using decrypt_unexpected [OF assms(1) assms(4), of b "Suc ?n"] assms(5) s by auto
  obtain b' where c: "decrypt sn (Transport b) (box ?k ?n p) = (Inr p, Transport b')"
      "view b' = (view b)\<lparr>n_in := Suc (n_in (view b))\<rparr>"
    using decrypt_expected [OF assms(1,3), of b] assms(5) s by auto
  from a c d show ?thesis
    by (intro exI [of _ "box ?k ?n p"] exI [of _ "box ?k (Suc ?n) q"] exI [of _ e] exI [of _ a'] exI [of _ b'])
      (simp del: decrypt.simps)
qed

theorem overtaking_message_lost_witness:
  "\<exists>c d e a' b'. encrypt_all toy_snow (Transport toy_view) [[1], [2]] = ([Inr c, Inr d], Transport a') \<and>
    decrypt_all toy_snow (Transport toy_view) [d, c] = ([Inl (Crypto e), Inr [1]], Transport b') \<and>
    n_in b' = Suc (n_in toy_view)"
  by (rule overtaking_message_lost [OF toy_snow_laws])
    (simp_all add: in_step_def toy_view_def fits_def NOISE_MAX_def)

text \<open>A file chunk whose payload is longer than 32,759 bytes cannot be encrypted: the JSON text of its
  message takes at least two bytes for each payload byte and one Noise message carries at most 65,519.
  In particular no full chunk of \<open>CHUNK_SIZE\<close> bytes is ever sent over a session; the session itself
  is not harmed.\<close>

lemma full_chunk_not_encryptable:
  assumes "snow_laws sn view box" and "wire_chunk_array w" and "n_out (view t) < 2 ^ 64 - 1"
    and "encode_plaintext w (FileChunk m) = Inr b" and "32759 < length (fc_payload m)"
  shows "\<exists>e. encrypt sn (Transport t) b = (Inl (Crypto e), Transport t)"
proof -
  have "2 * length (fc_payload m) \<le> length b"
    using assms(2,4) by (simp add: wire_chunk_array_def encode_plaintext_def)
  then have "\<not> fits b" using assms(5) by (simp add: fits_def NOISE_MAX_def)
  from encrypt_too_long [OF assms(1) this assms(3)] show ?thesis .
qed

text \<open>An encoder for witnesses: the payload twice.\<close>

definition toy_wire :: wire where
  "toy_wire = \<lparr>to_vec = (\<lambda>m. case m of FileChunk c \<Rightarrow> Inr (fc_payload c @ fc_payload c) | _ \<Rightarrow> Inr []),
     from_slice = (\<lambda>b. Inl ''eof'')\<rparr>"

lemma toy_wire_array [simp]: "wire_chunk_array toy_wire"
  by (simp add: toy_wire_def wire_chunk_array_def split: protocol_message.splits)

text \<open>An operation of the wrong phase is an error and changes nothing, and a session in transport mode
  stays in it: only \<open>into_transport_mode\<close> leaves the handshake phase, only when \<open>snow\<close> says so.\<close>

lemma phases_are_separate:
  "encrypt sn (Handshaking hs) p = (Inl (InvalidState ''not in transport mode''), Handshaking hs) \<and>
   decrypt sn (Handshaking hs) p = (Inl (InvalidState ''not in transport mode''), Handshaking hs) \<and>
   write_handshake_message sn (Transport ts) p =
     (Inl (InvalidState ''handshake already complete''), Transport ts) \<and>
   read_handshake_message sn (Transport ts) p =
     (Inl (InvalidState ''handshake already complete''), Transport ts) \<and>
   (\<exists>ts'. snd (encrypt sn (Transport ts) p) = Transport ts') \<and>
   (\<exists>ts'. snd (decrypt sn (Transport ts) p) = Transport ts') \<and>
   (\<exists>hs'. snd (write_handshake_message sn (Handshaking hs) p) = Handshaking hs') \<and>
   (\<exists>hs'. snd (read_handshake_message sn (Handshaking hs) p) = Handshaking hs') \<and>
   into_transport_mode sn (Transport ts) = Inr (Transport ts) \<and>
   (into_transport_mode sn (Handshaking hs) = Inr s \<longleftrightarrow>
      (\<exists>ts'. hs_into_transport sn hs = Inr ts' \<and> s = Transport ts'))"
  by (auto simp: andThen_Inr_iff map_err_def split: prod.splits sum.splits)

end
