(* ===== verification/Chunk_File.thy ===== *)
theory Chunk_File
  imports Framing
begin

text \<open>
  Chunk reads and writes on disk, from core/src/transfer.rs: \<open>FileSource\<close>,
  \<open>read_chunk_from_source\<close>, \<open>write_chunk_to_file\<close>, \<open>preallocate_file\<close>.  The file system is a
  map from paths to contents; what the operating system refuses for reasons the code does not
  look at (permissions, a full disk) is not modelled, except that a file may not be creatable.
\<close>

section \<open>Files\<close>

record filesystem =
  files :: "string \<Rightarrow> bytes option"
  creatable :: "string \<Rightarrow> bool"

datatype file_source = Path string | Fd int

definition show_int :: "int \<Rightarrow> string" where
  "show_int i = (if i < 0 then CHR ''-'' # show_nat (nat (- i)) else show_nat (nat i))"

fun source_path :: "file_source \<Rightarrow> string" where
  "source_path (Path p) = p"
| "source_path (Fd fd) = ''/proc/self/fd/'' @ show_int fd"

definition os_not_found :: string where
  "os_not_found = ''No such file or directory (os error 2)''"

definition os_invalid_input :: string where
  "os_invalid_input = ''Invalid argument (os error 22)''"

fun open_error :: "file_source \<Rightarrow> core_error" where
  "open_error (Path p) = Io os_not_found"
| "open_error (Fd fd) = Io (''failed to reopen fd '' @ show_int fd @ '' via '' @ source_path (Fd fd) @
     '' (this path only works on Linux/Android, and only while the original ParcelFileDescriptor '' @
     ''stays open on the Kotlin side for the duration of the transfer): '' @ os_not_found)"

text \<open>The offset is computed in \<open>u64\<close>, where the product wraps; a seek whose offset does not fit
  \<open>i64\<close> is refused.\<close>

definition chunk_offset :: "u64 \<Rightarrow> u64" where
  "chunk_offset i = i * of_nat CHUNK_SIZE"

definition seek_ok :: "u64 \<Rightarrow> bool" where
  "seek_ok off \<longleftrightarrow> unat off < 2 ^ 63"

definition read_chunk_from_source :: "filesystem \<Rightarrow> file_source \<Rightarrow> u64 \<Rightarrow> bytes res" where
  "read_chunk_from_source fs src i =
     (let offset = chunk_offset i in
      case files fs (source_path src) of
        None \<Rightarrow> Inl (open_error src)
      | Some content \<Rightarrow>
          if \<not> seek_ok offset then Inl (Io os_invalid_input)
          else
            let remaining = length content - unat offset;
                read_len = min remaining CHUNK_SIZE
            in Inr (take read_len (drop (unat offset) content)))"

definition read_chunk_from_file :: "filesystem \<Rightarrow> string \<Rightarrow> u64 \<Rightarrow> bytes res" where
  "read_chunk_from_file fs path i = read_chunk_from_source fs (Path path) i"

text \<open>A write at an offset past the end leaves a hole that reads as zeros; an empty write changes
  nothing.\<close>

definition write_at :: "bytes \<Rightarrow> nat \<Rightarrow> bytes \<Rightarrow> bytes" where
  "write_at content off p =
     (if p = [] then content
      else take off content @ replicate (off - length content) 0 @ p @ drop (off + length p) content)"

definition write_chunk_to_file :: "filesystem \<Rightarrow> string \<Rightarrow> u64 \<Rightarrow> bytes \<Rightarrow> filesystem res" where
  "write_chunk_to_file fs path i payload =
     (let offset = chunk_offset i in
      case files fs path of
        None \<Rightarrow> Inl (Io os_not_found)
      | Some content \<Rightarrow>
          if \<not> seek_ok offset then Inl (Io os_invalid_input)
          else Inr (fs\<lparr>files := (files fs)(path \<mapsto> write_at content (unat offset) payload)\<rparr>))"

text \<open>\<open>File::create\<close> truncates an existing file; \<open>set_len\<close> then extends it with zeros and refuses a
  length above the range of \<open>i64\<close>, when the file is left empty.\<close>

definition preallocate_file :: "filesystem \<Rightarrow> string \<Rightarrow> u64 \<Rightarrow> filesystem \<times> unit res" where
  "preallocate_file fs path total_size =
     (if \<not> creatable fs path then (fs, Inl (Io os_not_found))
      else if 2 ^ 63 \<le> unat total_size
        then (fs\<lparr>files := (files fs)(path \<mapsto> [])\<rparr>, Inl (Io os_invalid_input))
      else (fs\<lparr>files := (files fs)(path \<mapsto> replicate (unat total_size) 0)\<rparr>, Inr ()))"

section \<open>Chunks of a content\<close>

text \<open>The number of chunks of a file and the length of each, over natural numbers.\<close>

definition num_chunks :: "nat \<Rightarrow> nat" where
  "num_chunks tot = (tot + CHUNK_SIZE - 1) div CHUNK_SIZE"

definition chunk_len :: "nat \<Rightarrow> nat \<Rightarrow> nat" where
  "chunk_len tot i = min CHUNK_SIZE (tot - i * CHUNK_SIZE)"

definition chunk_of :: "bytes \<Rightarrow> nat \<Rightarrow> bytes" where
  "chunk_of content i = take CHUNK_SIZE (drop (i * CHUNK_SIZE) content)"

lemma length_chunk_of [simp]: "length (chunk_of content i) = chunk_len (length content) i"
  by (simp add: chunk_of_def chunk_len_def min.commute)

lemma lt_num_chunks: "i < num_chunks tot \<longleftrightarrow> i * CHUNK_SIZE < tot"
proof -
  have C: "0 < CHUNK_SIZE" by simp
  have "i < (tot + CHUNK_SIZE - 1) div CHUNK_SIZE \<longleftrightarrow> Suc i * CHUNK_SIZE \<le> tot + CHUNK_SIZE - 1"
    using less_eq_div_iff_mult_less_eq [OF C, of "Suc i"] by (simp add: Suc_le_eq)
  also have "\<dots> \<longleftrightarrow> i * CHUNK_SIZE < tot" using C by (simp add: CHUNK_SIZE_eq) arith
  finally show ?thesis by (simp add: num_chunks_def)
qed

lemma num_chunks_0 [simp]: "num_chunks 0 = 0"
  by (simp add: num_chunks_def)

lemma num_chunks_cover: "tot \<le> num_chunks tot * CHUNK_SIZE"
  using lt_num_chunks [of "num_chunks tot" tot] by simp

lemma num_chunks_le: "num_chunks tot \<le> tot"
proof (rule ccontr)
  assume "\<not> num_chunks tot \<le> tot"
  then have "tot * CHUNK_SIZE < tot" using lt_num_chunks [of tot tot] by simp
  then show False by (simp add: CHUNK_SIZE_eq)
qed

lemma chunk_len_pos: "i < num_chunks tot \<Longrightarrow> 0 < chunk_len tot i"
  by (simp add: lt_num_chunks chunk_len_def)

lemma sum_chunk_len_prefix: "(\<Sum>i<k. chunk_len tot i) = min tot (k * CHUNK_SIZE)"
  by (induction k) (auto simp: chunk_len_def)

lemma sum_chunk_len: "(\<Sum>i<num_chunks tot. chunk_len tot i) = tot"
  using num_chunks_cover [of tot] by (simp add: sum_chunk_len_prefix)

lemma concat_chunks_prefix:
  "concat (map (chunk_of content) [0..<k]) = take (k * CHUNK_SIZE) content"
proof (induction k)
  case 0
  then show ?case by simp
next
  case (Suc k)
  have "take (k * CHUNK_SIZE + CHUNK_SIZE) content =
      take (k * CHUNK_SIZE) content @ take CHUNK_SIZE (drop (k * CHUNK_SIZE) content)"
    by (rule take_add)
  with Suc show ?case by (simp add: chunk_of_def add.commute)
qed

lemma concat_chunks: "concat (map (chunk_of content) [0..<num_chunks (length content)]) = content"
  using num_chunks_cover by (simp add: concat_chunks_prefix)

lemma take_min_length: "take (min (length xs) n) xs = take n xs"
  by (simp add: min_def)

section \<open>Offsets without wrap-around\<close>

text \<open>For a file whose length an offset can name, no chunk index in range wraps.\<close>

lemma unat_chunk_offset:
  "unat i * CHUNK_SIZE < 2 ^ 64 \<Longrightarrow> unat (chunk_offset i) = unat i * CHUNK_SIZE"
proof -
  assume a: "unat i * CHUNK_SIZE < 2 ^ 64"
  have "unat (of_nat CHUNK_SIZE :: u64) = CHUNK_SIZE" by (simp add: unat_of_nat CHUNK_SIZE_eq)
  with a show ?thesis by (simp add: chunk_offset_def unat_word_ariths)
qed

lemma chunk_offset_in_file:
  assumes "unat i < num_chunks tot" and "tot < 2 ^ 63"
  shows "unat (chunk_offset i) = unat i * CHUNK_SIZE" and "seek_ok (chunk_offset i)"
proof -
  from assms have l: "unat i * CHUNK_SIZE < 2 ^ 63" by (auto simp: lt_num_chunks)
  then show o: "unat (chunk_offset i) = unat i * CHUNK_SIZE" by (intro unat_chunk_offset) simp
  with l show "seek_ok (chunk_offset i)" by (simp add: seek_ok_def)
qed

lemma read_chunk_in_file:
  assumes "files fs (source_path src) = Some content"
    and "unat i < num_chunks (length content)" and "length content < 2 ^ 63"
  shows "read_chunk_from_source fs src i = Inr (chunk_of content (unat i))"
  using chunk_offset_in_file [OF assms(2,3)] assms(1)
    take_min_length [of "drop (unat i * CHUNK_SIZE) content" CHUNK_SIZE]
  by (simp add: read_chunk_from_source_def chunk_of_def)

section \<open>Writes in any order\<close>

text \<open>\<open>agrees S cur content\<close>: the destination has its final length and the chunks in \<open>S\<close> are in place.\<close>

definition agrees :: "nat set \<Rightarrow> bytes \<Rightarrow> bytes \<Rightarrow> bool" where
  "agrees S cur content \<longleftrightarrow>
     length cur = length content \<and>
     (\<forall>k < length content. k div CHUNK_SIZE \<in> S \<longrightarrow> cur ! k = content ! k)"

lemma agrees_empty: "length cur = length content \<Longrightarrow> agrees {} cur content"
  by (simp add: agrees_def)

lemma agrees_all:
  assumes "agrees S cur content" and "\<And>i. i < num_chunks (length content) \<Longrightarrow> i \<in> S"
  shows "cur = content"
proof (rule nth_equalityI)
  show "length cur = length content" using assms(1) by (simp add: agrees_def)
  fix k assume "k < length cur"
  then have k: "k < length content" using assms(1) by (simp add: agrees_def)
  have "k div CHUNK_SIZE * CHUNK_SIZE \<le> k" by (rule div_times_less_eq_dividend)
  from this k have "k div CHUNK_SIZE * CHUNK_SIZE < length content" by (rule le_less_trans)
  then have "k div CHUNK_SIZE < num_chunks (length content)" by (simp only: lt_num_chunks)
  with assms k show "cur ! k = content ! k" by (auto simp: agrees_def)
qed

lemma write_at_inside:
  assumes "off + length p \<le> length cur"
  shows "length (write_at cur off p) = length cur"
    and "k < length cur \<Longrightarrow>
      write_at cur off p ! k = (if off \<le> k \<and> k < off + length p then p ! (k - off) else cur ! k)"
  using assms by (auto simp: write_at_def nth_append)

lemma nth_chunk_of:
  assumes "i * CHUNK_SIZE \<le> k" and "k < i * CHUNK_SIZE + chunk_len (length content) i"
  shows "chunk_of content i ! (k - i * CHUNK_SIZE) = content ! k"
  using assms by (simp add: chunk_of_def chunk_len_def)

lemma write_at_chunk_agrees:
  assumes "agrees S cur content" and "i < num_chunks (length content)"
  shows "agrees (insert i S) (write_at cur (i * CHUNK_SIZE) (chunk_of content i)) content"
proof -
  have L: "length cur = length content" using assms(1) by (simp add: agrees_def)
  have i: "i * CHUNK_SIZE < length content" using assms(2) by (simp add: lt_num_chunks)
  then have fits: "i * CHUNK_SIZE + length (chunk_of content i) \<le> length cur"
    by (simp add: L chunk_len_def)
  show ?thesis
    unfolding agrees_def
  proof (intro conjI allI impI)
    show "length (write_at cur (i * CHUNK_SIZE) (chunk_of content i)) = length content"
      using write_at_inside(1) [OF fits] L by simp
    fix k assume k: "k < length content" and kS: "k div CHUNK_SIZE \<in> insert i S"
    show "write_at cur (i * CHUNK_SIZE) (chunk_of content i) ! k = content ! k"
    proof (cases "i * CHUNK_SIZE \<le> k \<and> k < i * CHUNK_SIZE + length (chunk_of content i)")
      case True
      then show ?thesis using write_at_inside(2) [OF fits] k L nth_chunk_of by simp
    next
      case False
      have "k div CHUNK_SIZE \<noteq> i"
      proof
        assume d: "k div CHUNK_SIZE = i"
        have lo: "i * CHUNK_SIZE \<le> k" using d div_times_less_eq_dividend by blast
        have "k < i * CHUNK_SIZE + CHUNK_SIZE"
          using dividend_less_div_times [OF CHUNK_SIZE_pos, of k] d by simp
        with k lo have "k < i * CHUNK_SIZE + chunk_len (length content) i"
          by (simp add: chunk_len_def)
        with False lo show False by simp
      qed
      with kS assms(1) k have "cur ! k = content ! k" by (auto simp: agrees_def)
      moreover have "write_at cur (i * CHUNK_SIZE) (chunk_of content i) ! k = cur ! k"
        using write_at_inside(2) [OF fits] k L False by auto
      ultimately show ?thesis by simp
    qed
  qed
qed

text \<open>The destination file after a list of chunk writes.\<close>

fun write_chunks :: "filesystem \<Rightarrow> string \<Rightarrow> (u64 \<times> bytes) list \<Rightarrow> filesystem res" where
  "write_chunks fs path [] = Inr fs"
| "write_chunks fs path ((i, p) # ws) =
     andThen (write_chunk_to_file fs path i p) (\<lambda>fs'. write_chunks fs' path ws)"

lemma write_chunk_agrees:
  assumes "files fs path = Some cur" and "agrees S cur content"
    and "unat i < num_chunks (length content)" and "length content < 2 ^ 63"
  shows "\<exists>fs' cur'. write_chunk_to_file fs path i (chunk_of content (unat i)) = Inr fs' \<and>
           fs' = fs\<lparr>files := (files fs)(path \<mapsto> cur')\<rparr> \<and> agrees (insert (unat i) S) cur' content"
  using chunk_offset_in_file [OF assms(3,4)] assms write_at_chunk_agrees [OF assms(2,3)]
  by (auto simp: write_chunk_to_file_def)

lemma write_chunks_agrees:
  assumes "files fs path = Some cur" and "agrees S cur content" and "length content < 2 ^ 63"
    and "\<And>i p. (i, p) \<in> set ws \<Longrightarrow> unat i < num_chunks (length content) \<and> p = chunk_of content (unat i)"
  shows "\<exists>fs' cur'. write_chunks fs path ws = Inr fs' \<and> files fs' path = Some cur' \<and>
           agrees ((unat \<circ> fst) ` set ws \<union> S) cur' content"
  using assms
proof (induction ws arbitrary: fs cur S)
  case Nil
  then show ?case by auto
next
  case (Cons w ws)
  obtain i p where w: "w = (i, p)" by force
  with Cons.prems(4) have i: "unat i < num_chunks (length content)" and p: "p = chunk_of content (unat i)"
    by auto
  from write_chunk_agrees [OF Cons.prems(1,2) i Cons.prems(3)] obtain fs1 cur1 where
    s: "write_chunk_to_file fs path i p = Inr fs1" and f: "files fs1 path = Some cur1"
    and a: "agrees (insert (unat i) S) cur1 content"
    by (auto simp: p)
  from Cons.IH [OF f a Cons.prems(3)] Cons.prems(4) s w show ?case by auto
qed

text \<open>Chunks that a sender reads from a file and a receiver writes into the preallocated
  destination rebuild the file exactly, in whatever order they arrive and however often a chunk
  is repeated, as long as every chunk arrives.\<close>

lemma chunks_rebuild_file:
  assumes "files sfs (source_path src) = Some content" and "length content < 2 ^ 63"
    and "preallocate_file rfs path (of_nat (length content)) = (rfs1, Inr ())"
    and "set is = {i. unat i < num_chunks (length content)}"
  shows "\<exists>ps rfs2. map (read_chunk_from_source sfs src) is = map Inr ps \<and>
           write_chunks rfs1 path (zip is ps) = Inr rfs2 \<and> files rfs2 path = Some content"
proof -
  let ?ps = "map (chunk_of content \<circ> unat) is"
  have rd: "map (read_chunk_from_source sfs src) is = map Inr ?ps"
    using assms(4) read_chunk_in_file [OF assms(1) _ assms(2)] by auto
  have "unat (of_nat (length content) :: u64) = length content"
    using assms(2) by (simp add: unat_of_nat)
  with assms(3) have f: "files rfs1 path = Some (replicate (length content) 0)"
    by (auto simp: preallocate_file_def split: if_splits)
  have z: "unat i < num_chunks (length content) \<and> p = chunk_of content (unat i)"
    if "(i, p) \<in> set (zip is ?ps)" for i p
  proof -
    have "zip is ?ps = map (\<lambda>i. (i, chunk_of content (unat i))) is"
      by (simp add: zip_map2 zip_same_conv_map)
    with that have "i \<in> set is" and "p = chunk_of content (unat i)" by auto
    with assms(4) show ?thesis by simp
  qed
  have e: "agrees {} (replicate (length content) 0) content" by (simp add: agrees_empty)
  from write_chunks_agrees [where ws = "zip is ?ps", OF f e assms(2) z]
  obtain fs' cur' where w: "write_chunks rfs1 path (zip is ?ps) = Inr fs'" "files fs' path = Some cur'"
    and a: "agrees ((unat \<circ> fst) ` set (zip is ?ps)) cur' content"
    by (metis Un_empty_right)
  have "map fst (zip is ?ps) = is" by simp
  then have "fst ` set (zip is ?ps) = set is" by (simp only: flip: set_map)
  then have "(unat \<circ> fst) ` set (zip is ?ps) = unat ` set is"
    by (simp only: image_comp [symmetric])
  moreover have "i \<in> unat ` set is" if "i < num_chunks (length content)" for i
  proof -
    have "i < 2 ^ 64" using that num_chunks_le [of "length content"] assms(2) by simp
    then have u: "unat (of_nat i :: u64) = i" by (simp add: unat_of_nat)
    then have "(of_nat i :: u64) \<in> set is" using assms(4) that by simp
    with u show ?thesis by force
  qed
  ultimately have "cur' = content" using agrees_all [OF a] by simp
  with rd w show ?thesis by blast
qed

lemma num_chunks_3: "num_chunks (Suc (Suc (Suc 0))) = 1"
  by (simp add: num_chunks_def CHUNK_SIZE_eq)

theorem chunks_rebuild_file_witness:
  "\<exists>ps rfs2.
     map (read_chunk_from_source \<lparr>files = [''a'' \<mapsto> [1, 2, 3]], creatable = (\<lambda>_. True)\<rparr> (Path ''a'')) [0, 0] =
       map Inr ps \<and>
     write_chunks \<lparr>files = [''b'' \<mapsto> [0, 0, 0]], creatable = (\<lambda>_. True)\<rparr> ''b'' (zip [0, 0] ps) = Inr rfs2 \<and>
     files rfs2 ''b'' = Some [1, 2, 3]"
proof (rule chunks_rebuild_file)
  show "files \<lparr>files = [''a'' \<mapsto> [1, 2, 3]], creatable = (\<lambda>_. True)\<rparr> (source_path (Path ''a'')) =
      Some [1, 2, 3]"
    by simp
  show "preallocate_file \<lparr>files = Map.empty, creatable = (\<lambda>_. True)\<rparr> ''b'' (of_nat (length [1, 2, 3 :: u8])) =
      (\<lparr>files = [''b'' \<mapsto> [0, 0, 0]], creatable = (\<lambda>_. True)\<rparr>, Inr ())"
  proof -
    have u: "unat (of_nat (length [1, 2, 3 :: u8]) :: u64) = 3" by simp
    have r: "replicate 3 (0 :: u8) = [0, 0, 0]" by (simp add: numeral_3_eq_3)
    show ?thesis unfolding preallocate_file_def u r by simp
  qed
  show "set [0, 0] = {i :: u64. unat i < num_chunks (length [1, 2, 3 :: u8])}"
    by (auto simp: num_chunks_3 word_unat_eq_iff)
qed simp

end
