(* ===== verification/Transfer_Handle.thy ===== *)
theory Transfer_Handle
  imports Complex_Main Chunk_File
begin

text \<open>
  \<open>TransferState\<close>, \<open>TransferProgress\<close> and \<open>TransferHandle\<close> of core/src/transfer.rs: the acked set,
  the byte counter, the pause and cancel flags, the rolling speed window and the progress
  snapshot.  An \<open>Instant\<close> is a number of nanoseconds.  Floating-point values (\<open>percent\<close>, the speed
  and the ETA) are exact rationals: the rounding of \<open>f64\<close> and \<open>f32\<close> is not modelled.
\<close>

section \<open>Transfer states\<close>

datatype transfer_state = Queued | Active | Paused | Completed | Failed | Cancelled

fun as_str :: "transfer_state \<Rightarrow> string" where
  "as_str Queued = ''queued''"
| "as_str Active = ''active''"
| "as_str Paused = ''paused''"
| "as_str Completed = ''completed''"
| "as_str Failed = ''failed''"
| "as_str Cancelled = ''cancelled''"

instantiation transfer_state :: enum
begin

definition enum_transfer_state :: "transfer_state list" where
  "enum_transfer_state = [Queued, Active, Paused, Completed, Failed, Cancelled]"

definition enum_all_transfer_state :: "(transfer_state \<Rightarrow> bool) \<Rightarrow> bool" where
  "enum_all_transfer_state P \<longleftrightarrow> list_all P [Queued, Active, Paused, Completed, Failed, Cancelled]"

definition enum_ex_transfer_state :: "(transfer_state \<Rightarrow> bool) \<Rightarrow> bool" where
  "enum_ex_transfer_state P \<longleftrightarrow> list_ex P [Queued, Active, Paused, Completed, Failed, Cancelled]"

instance
proof
  have all: "s \<in> {Queued, Active, Paused, Completed, Failed, Cancelled}" for s :: transfer_state
    by (cases s) auto
  then show univ: "UNIV = set (enum_class.enum :: transfer_state list)"
    by (auto simp: enum_transfer_state_def)
  show "distinct (enum_class.enum :: transfer_state list)"
    by (simp add: enum_transfer_state_def)
  show "enum_class.enum_all P \<longleftrightarrow> Ball UNIV P" for P :: "transfer_state \<Rightarrow> bool"
    unfolding univ by (simp add: enum_all_transfer_state_def enum_transfer_state_def)
  show "enum_class.enum_ex P \<longleftrightarrow> Bex UNIV P" for P :: "transfer_state \<Rightarrow> bool"
    unfolding univ by (simp add: enum_ex_transfer_state_def enum_transfer_state_def)
qed

end

lemma as_str_inject [simp]: "as_str a = as_str b \<longleftrightarrow> a = b"
  by (cases a; cases b) simp_all

section \<open>The handle\<close>

record transfer_handle =
  th_transfer_id :: string
  th_file_name :: string
  th_total_bytes :: u64
  th_total_chunks :: u64
  th_bytes_transferred :: u64
  th_paused :: bool
  th_cancelled :: bool
  th_started_at :: nat
  th_speed_samples :: "(nat \<times> u64) list"
  th_acked_chunks :: "u64 set"

text \<open>\<open>u64::div_ceil\<close>.\<close>

definition div_ceil :: "u64 \<Rightarrow> u64 \<Rightarrow> u64" where
  "div_ceil a b = (if a mod b > 0 then a div b + 1 else a div b)"

definition handle_new :: "nat \<Rightarrow> string \<Rightarrow> string \<Rightarrow> u64 \<Rightarrow> transfer_handle" where
  "handle_new now tid name total_bytes =
     \<lparr>th_transfer_id = tid, th_file_name = name, th_total_bytes = total_bytes,
      th_total_chunks = div_ceil total_bytes (of_nat CHUNK_SIZE),
      th_bytes_transferred = 0, th_paused = False, th_cancelled = False,
      th_started_at = now, th_speed_samples = [], th_acked_chunks = {}\<rparr>"

definition resume_from_manifest ::
    "nat \<Rightarrow> string \<Rightarrow> string \<Rightarrow> u64 \<Rightarrow> u64 set \<Rightarrow> transfer_handle" where
  "resume_from_manifest now tid name total_bytes already_acked =
     (let bytes_done = of_nat (card already_acked) * of_nat CHUNK_SIZE in
      (handle_new now tid name total_bytes)
        \<lparr>th_bytes_transferred := min bytes_done total_bytes, th_acked_chunks := already_acked\<rparr>)"

definition pause :: "transfer_handle \<Rightarrow> transfer_handle" where
  "pause h = h\<lparr>th_paused := True\<rparr>"

definition resume :: "transfer_handle \<Rightarrow> transfer_handle" where
  "resume h = h\<lparr>th_paused := False\<rparr>"

definition cancel :: "transfer_handle \<Rightarrow> transfer_handle" where
  "cancel h = h\<lparr>th_cancelled := True\<rparr>"

definition pending_chunk_indices :: "transfer_handle \<Rightarrow> u64 list" where
  "pending_chunk_indices h =
     filter (\<lambda>i. i \<notin> th_acked_chunks h) (map of_nat [0..<unat (th_total_chunks h)])"

text \<open>Samples younger than five seconds stay; \<open>duration_since\<close> is zero for a later sample.\<close>

definition record_speed_sample :: "nat \<Rightarrow> u64 \<Rightarrow> transfer_handle \<Rightarrow> transfer_handle" where
  "record_speed_sample now cumulative h =
     h\<lparr>th_speed_samples :=
         filter (\<lambda>(t, _). now - t < 5 * 10 ^ 9) (th_speed_samples h @ [(now, cumulative)])\<rparr>"

definition mark_chunk_acked :: "nat \<Rightarrow> u64 \<Rightarrow> u64 \<Rightarrow> transfer_handle \<Rightarrow> transfer_handle" where
  "mark_chunk_acked now i len h =
     (if i \<in> th_acked_chunks h then h
      else
        let new_total = th_bytes_transferred h + len in
        record_speed_sample now new_total
          (h\<lparr>th_acked_chunks := insert i (th_acked_chunks h), th_bytes_transferred := new_total\<rparr>))"

definition acked_chunk_set :: "transfer_handle \<Rightarrow> u64 set" where
  "acked_chunk_set h = th_acked_chunks h"

definition secs :: "nat \<Rightarrow> rat" where
  "secs ns = of_nat ns / 10 ^ 9"

definition current_speed :: "transfer_handle \<Rightarrow> rat" where
  "current_speed h =
     (let samples = th_speed_samples h in
      if length samples < 2 then 0
      else
        let (t_first, b_first) = hd samples; (t_last, b_last) = last samples;
            elapsed = secs (t_last - t_first)
        in if elapsed \<le> 0 then 0
           else (of_nat (unat b_last) - of_nat (unat b_first)) / elapsed)"

record transfer_progress =
  tp_transfer_id :: string
  tp_file_name :: string
  tp_total_bytes :: u64
  tp_bytes_transferred :: u64
  tp_percent :: rat
  tp_speed :: rat
  tp_eta :: "rat option"
  tp_state :: string

definition percent_of :: "u64 \<Rightarrow> u64 \<Rightarrow> rat" where
  "percent_of transferred tot =
     (if tot = 0 then 100 else of_nat (unat transferred) / of_nat (unat tot) * 100)"

definition progress :: "transfer_handle \<Rightarrow> transfer_state \<Rightarrow> transfer_progress" where
  "progress h st =
     (let transferred = th_bytes_transferred h;
          speed = current_speed h;
          remaining = saturating_sub (th_total_bytes h) transferred
      in \<lparr>tp_transfer_id = th_transfer_id h, tp_file_name = th_file_name h,
          tp_total_bytes = th_total_bytes h, tp_bytes_transferred = transferred,
          tp_percent = percent_of transferred (th_total_bytes h),
          tp_speed = speed,
          tp_eta = (if speed > 0 then Some (of_nat (unat remaining) / speed) else None),
          tp_state = as_str st\<rparr>)"

section \<open>Chunk counts in u64\<close>

lemma unat_CHUNK_SIZE [simp]: "unat (of_nat CHUNK_SIZE :: u64) = CHUNK_SIZE"
  by (simp add: unat_of_nat CHUNK_SIZE_eq)

lemma unat_div_ceil_chunks: "unat (div_ceil t (of_nat CHUNK_SIZE)) = num_chunks (unat t)"
proof -
  let ?q = "unat t div CHUNK_SIZE" and ?r = "unat t mod CHUNK_SIZE"
  have q: "unat (t div of_nat CHUNK_SIZE) = ?q" by (simp only: unat_div_distrib unat_CHUNK_SIZE)
  have "unat (t mod of_nat CHUNK_SIZE) = ?r" by (simp only: unat_mod_distrib unat_CHUNK_SIZE)
  then have r: "t mod of_nat CHUNK_SIZE > 0 \<longleftrightarrow> ?r > 0"
    by (simp add: word_less_nat_alt)
  have "?q \<le> unat t" by simp
  have "unat t < 2 ^ 64" using unat_less_2p [of t] by simp
  then have "?q < 2 ^ 41" by (simp add: CHUNK_SIZE_eq less_mult_imp_div_less)
  then have q1: "unat (t div of_nat CHUNK_SIZE + 1) = ?q + 1"
    using q by (simp add: unat_word_ariths)
  have n: "num_chunks (unat t) = (if ?r > 0 then ?q + 1 else ?q)"
  proof -
    have e: "unat t = ?q * CHUNK_SIZE + ?r" by simp
    have l: "?r < CHUNK_SIZE" by simp
    show ?thesis
    proof (cases "?r > 0")
      case True
      then have "?q * CHUNK_SIZE < unat t" using e by linarith
      then have "?q < num_chunks (unat t)" by (simp only: lt_num_chunks)
      moreover have "\<not> (?q + 1) * CHUNK_SIZE < unat t" using e l by (simp only: add_mult_distrib)
      then have "\<not> ?q + 1 < num_chunks (unat t)" by (simp only: lt_num_chunks not_False_eq_True)
      ultimately show ?thesis using True by simp
    next
      case False
      then have u: "unat t = ?q * CHUNK_SIZE" using e by linarith
      then have "\<not> ?q < num_chunks (unat t)" by (simp only: lt_num_chunks less_irrefl not_False_eq_True)
      moreover have "?q - 1 < num_chunks (unat t)" if "?q > 0"
      proof -
        have "(?q - 1) * CHUNK_SIZE < ?q * CHUNK_SIZE" using that by simp
        then show ?thesis using u by (simp only: lt_num_chunks)
      qed
      ultimately have "num_chunks (unat t) = ?q" by (cases "?q = 0") linarith+
      with False show ?thesis by simp
    qed
  qed
  show ?thesis using q q1 r n by (simp add: div_ceil_def)
qed

lemma total_chunks_new [simp]:
  "unat (th_total_chunks (handle_new now tid name t)) = num_chunks (unat t)"
  by (simp add: handle_new_def unat_div_ceil_chunks)

lemma total_chunks_resume [simp]:
  "unat (th_total_chunks (resume_from_manifest now tid name t A)) = num_chunks (unat t)"
  by (simp add: resume_from_manifest_def handle_new_def unat_div_ceil_chunks)

lemma set_pending:
  "set (pending_chunk_indices h) = {i. unat i < unat (th_total_chunks h)} - th_acked_chunks h"
proof -
  have "(of_nat :: nat \<Rightarrow> u64) ` {0..<unat (th_total_chunks h)} = {i. unat i < unat (th_total_chunks h)}"
  proof (intro set_eqI iffI)
    fix i :: u64
    assume "i \<in> of_nat ` {0..<unat (th_total_chunks h)}"
    then obtain k where k: "k < unat (th_total_chunks h)" "i = of_nat k" by auto
    then have "k < 2 ^ 64" using unat_less_2p [of "th_total_chunks h"] by simp
    with k show "i \<in> {i. unat i < unat (th_total_chunks h)}" by (simp add: unat_of_nat)
  next
    fix i :: u64
    assume "i \<in> {i. unat i < unat (th_total_chunks h)}"
    then show "i \<in> of_nat ` {0..<unat (th_total_chunks h)}"
      by (intro image_eqI [of _ _ "unat i"]) auto
  qed
  then show ?thesis by (auto simp: pending_chunk_indices_def)
qed

lemma distinct_pending [simp]: "distinct (pending_chunk_indices h)"
  using distinct_map_of_nat_u64 [of "unat (th_total_chunks h)"] unat_less_2p [of "th_total_chunks h"]
  by (simp add: pending_chunk_indices_def)

section \<open>Accounting of acked bytes\<close>

definition acked_bytes :: "nat \<Rightarrow> u64 set \<Rightarrow> nat" where
  "acked_bytes tot A = (\<Sum>i\<in>A. chunk_len tot (unat i))"

definition in_range :: "u64 \<Rightarrow> u64 set" where
  "in_range t = {i. unat i < num_chunks (unat t)}"

text \<open>The acks of a run: each chunk of the list is acked with the length that chunk has.\<close>

definition ack_chunk :: "nat \<Rightarrow> transfer_handle \<Rightarrow> u64 \<Rightarrow> transfer_handle" where
  "ack_chunk now h i =
     mark_chunk_acked now i (of_nat (chunk_len (unat (th_total_bytes h)) (unat i))) h"

definition ack_chunks :: "nat \<Rightarrow> u64 list \<Rightarrow> transfer_handle \<Rightarrow> transfer_handle" where
  "ack_chunks now is h = foldl (ack_chunk now) h is"

lemma in_range_image: "in_range t = of_nat ` {..<num_chunks (unat t)}"
proof (intro set_eqI iffI)
  fix i assume "i \<in> in_range t"
  then show "i \<in> of_nat ` {..<num_chunks (unat t)}"
    by (intro image_eqI [of _ _ "unat i"]) (auto simp: in_range_def)
next
  fix i :: u64 assume "i \<in> of_nat ` {..<num_chunks (unat t)}"
  then obtain k where k: "k < num_chunks (unat t)" "i = of_nat k" by auto
  have "num_chunks (unat t) < 2 ^ 64"
    using num_chunks_le [of "unat t"] unat_less_2p [of t] by simp
  with k show "i \<in> in_range t" by (simp add: in_range_def unat_of_nat)
qed

lemma inj_of_nat_range: "inj_on (of_nat :: nat \<Rightarrow> u64) {..<num_chunks (unat (t :: u64))}"
proof (rule inj_on_inverseI)
  fix k assume "k \<in> {..<num_chunks (unat t)}"
  then have "k < 2 ^ 64" using num_chunks_le [of "unat t"] unat_less_2p [of t] by simp
  then show "unat (of_nat k :: u64) = k" by (simp add: unat_of_nat)
qed

lemma finite_in_range [simp]: "finite (in_range t)"
  by (simp add: in_range_image)

lemma card_in_range [simp]: "card (in_range t) = num_chunks (unat t)"
  by (simp add: in_range_image card_image [OF inj_of_nat_range])

lemma acked_bytes_all: "acked_bytes (unat t) (in_range t) = unat t"
proof -
  have "acked_bytes (unat t) (in_range t) =
      (\<Sum>k<num_chunks (unat t). chunk_len (unat t) (unat (of_nat k :: u64)))"
    unfolding acked_bytes_def in_range_image by (rule sum.reindex_cong [OF inj_of_nat_range]) auto
  also have "\<dots> = (\<Sum>k<num_chunks (unat t). chunk_len (unat t) k)"
  proof (rule sum.cong)
    fix k assume "k \<in> {..<num_chunks (unat t)}"
    then have "k < 2 ^ 64" using num_chunks_le [of "unat t"] unat_less_2p [of t] by simp
    then show "chunk_len (unat t) (unat (of_nat k :: u64)) = chunk_len (unat t) k"
      by (simp add: unat_of_nat)
  qed simp
  finally show ?thesis by (simp add: sum_chunk_len)
qed

lemma acked_bytes_mono: "A \<subseteq> B \<Longrightarrow> B \<subseteq> in_range t \<Longrightarrow> acked_bytes n A \<le> acked_bytes n B"
  unfolding acked_bytes_def
  by (rule sum_mono2) (auto intro: finite_subset [OF _ finite_in_range])

lemma acked_bytes_le: "A \<subseteq> in_range t \<Longrightarrow> acked_bytes (unat t) A \<le> unat t"
  using acked_bytes_mono [of A "in_range t" t "unat t"] acked_bytes_all by simp

lemma acked_bytes_full_iff:
  assumes "A \<subseteq> in_range t"
  shows "acked_bytes (unat t) A = unat t \<longleftrightarrow> A = in_range t"
proof
  assume eq: "acked_bytes (unat t) A = unat t"
  show "A = in_range t"
  proof (rule ccontr)
    assume "A \<noteq> in_range t"
    with assms obtain i where i: "i \<in> in_range t" "i \<notin> A" by auto
    have fin: "finite A" using assms finite_subset finite_in_range by blast
    have "acked_bytes (unat t) (insert i A) \<le> unat t"
      using acked_bytes_le [of "insert i A" t] assms i by simp
    moreover have "0 < chunk_len (unat t) (unat i)" using i(1) by (simp add: in_range_def chunk_len_pos)
    moreover have "acked_bytes (unat t) (insert i A) = chunk_len (unat t) (unat i) + acked_bytes (unat t) A"
      using i(2) fin by (simp add: acked_bytes_def)
    ultimately show False using eq by simp
  qed
qed (simp add: acked_bytes_all)

lemma mark_fields [simp]:
  "th_total_bytes (mark_chunk_acked now i l h) = th_total_bytes h"
  "th_total_chunks (mark_chunk_acked now i l h) = th_total_chunks h"
  "th_acked_chunks (mark_chunk_acked now i l h) = insert i (th_acked_chunks h)"
  "th_cancelled (mark_chunk_acked now i l h) = th_cancelled h"
  "th_paused (mark_chunk_acked now i l h) = th_paused h"
  "th_transfer_id (mark_chunk_acked now i l h) = th_transfer_id h"
  by (auto simp: mark_chunk_acked_def record_speed_sample_def Let_def)

lemma mark_bytes:
  "th_bytes_transferred (mark_chunk_acked now i l h) =
     (if i \<in> th_acked_chunks h then th_bytes_transferred h else th_bytes_transferred h + l)"
  by (simp add: mark_chunk_acked_def record_speed_sample_def Let_def)

lemma mark_again [simp]:
  "i \<in> th_acked_chunks h \<Longrightarrow> mark_chunk_acked now i l h = h"
  by (simp add: mark_chunk_acked_def)

lemma ack_chunks_simps [simp]:
  "ack_chunks now [] h = h"
  "ack_chunks now (i # is) h = ack_chunks now is (ack_chunk now h i)"
  by (simp_all add: ack_chunks_def)

lemma ack_chunks_fields [simp]:
  "th_total_bytes (ack_chunks now is h) = th_total_bytes h"
  "th_total_chunks (ack_chunks now is h) = th_total_chunks h"
  "th_acked_chunks (ack_chunks now is h) = set is \<union> th_acked_chunks h"
  by (induction "is" arbitrary: h) (auto simp: ack_chunk_def)

lemma chunk_len_le: "chunk_len n k \<le> n"
  by (simp add: chunk_len_def)

text \<open>The counter after the acks is what it was plus the lengths of the newly acked chunks, as long
  as that sum stays below the range of \<open>u64\<close>.\<close>

lemma ack_chunks_bytes:
  assumes "finite (th_acked_chunks h)"
    and "unat (th_bytes_transferred h) +
           acked_bytes (unat (th_total_bytes h)) (set is - th_acked_chunks h) < 2 ^ 64"
  shows "unat (th_bytes_transferred (ack_chunks now is h)) =
           unat (th_bytes_transferred h) +
           acked_bytes (unat (th_total_bytes h)) (set is - th_acked_chunks h)"
  using assms
proof (induction "is" arbitrary: h)
  case Nil
  then show ?case by (simp add: acked_bytes_def)
next
  case (Cons i js)
  let ?A = "th_acked_chunks h" and ?n = "unat (th_total_bytes h)"
  show ?case
  proof (cases "i \<in> ?A")
    case True
    then have "ack_chunk now h i = h" and "set (i # js) - ?A = set js - ?A"
      by (auto simp: ack_chunk_def)
    with Cons show ?thesis by simp
  next
    case False
    have S: "set (i # js) - ?A = insert i (set js - insert i ?A)" using False by auto
    have add: "acked_bytes ?n (set (i # js) - ?A) =
        chunk_len ?n (unat i) + acked_bytes ?n (set js - insert i ?A)"
      unfolding S by (simp add: acked_bytes_def)
    have l: "unat (of_nat (chunk_len ?n (unat i)) :: u64) = chunk_len ?n (unat i)"
    proof -
      have "chunk_len ?n (unat i) < 2 ^ 64"
        using chunk_len_le [of ?n "unat i"] unat_less_2p [of "th_total_bytes h"] by simp
      then show ?thesis by (simp add: unat_of_nat)
    qed
    have lt: "unat (th_bytes_transferred h) + chunk_len ?n (unat i) < 2 ^ 64"
      using Cons.prems(2) unfolding add by simp
    have b: "unat (th_bytes_transferred (ack_chunk now h i)) =
        unat (th_bytes_transferred h) + chunk_len ?n (unat i)"
      using False lt l by (simp add: ack_chunk_def mark_bytes unat_word_ariths)
    have t: "th_total_bytes (ack_chunk now h i) = th_total_bytes h"
      and a: "th_acked_chunks (ack_chunk now h i) = insert i ?A"
      by (simp_all add: ack_chunk_def)
    have fin: "finite (th_acked_chunks (ack_chunk now h i))" using Cons.prems(1) by (simp add: a)
    have "unat (th_bytes_transferred (ack_chunk now h i)) +
        acked_bytes (unat (th_total_bytes (ack_chunk now h i)))
          (set js - th_acked_chunks (ack_chunk now h i)) < 2 ^ 64"
      using Cons.prems(2) unfolding add b t a by simp
    from Cons.IH [OF fin this] show ?thesis
      unfolding ack_chunks_simps add b t a by simp
  qed
qed

lemma pending_Nil_iff:
  assumes "unat (th_total_chunks h) = num_chunks (unat t)" and "th_acked_chunks h \<subseteq> in_range t"
  shows "pending_chunk_indices h = [] \<longleftrightarrow> th_acked_chunks h = in_range t"
  using set_pending [of h] assms by (auto simp: in_range_def simp flip: set_empty)

section \<open>The acks of a fresh transfer\<close>

lemma handle_new_fields [simp]:
  "th_total_bytes (handle_new now tid name t) = t"
  "th_acked_chunks (handle_new now tid name t) = {}"
  "th_bytes_transferred (handle_new now tid name t) = 0"
  by (simp_all add: handle_new_def)

lemma percent_nat:
  "0 < n \<Longrightarrow> (of_nat m / of_nat n * 100 :: rat) \<le> 100 \<longleftrightarrow> m \<le> n"
  "0 \<le> (of_nat m / of_nat n * 100 :: rat)"
  by (simp_all add: divide_le_eq)

lemma percent_of_nonneg: "0 \<le> percent_of b t"
  unfolding percent_of_def using percent_nat(2) [of "unat b" "unat t"] by (cases "t = 0") simp_all

lemma percent_of_le_100_iff: "percent_of b t \<le> 100 \<longleftrightarrow> t = 0 \<or> unat b \<le> unat t"
proof (cases "t = 0")
  case False
  then have "0 < unat t" by (simp add: unat_gt_0)
  from percent_nat(1) [OF this, of "unat b"] False show ?thesis
    by (simp only: percent_of_def if_False simp_thms)
qed (simp add: percent_of_def)

lemma fresh_acks_bytes:
  assumes "set is \<subseteq> in_range t"
  shows "unat (th_bytes_transferred (ack_chunks now is (handle_new now0 tid name t))) =
           acked_bytes (unat t) (set is)"
proof -
  let ?h = "handle_new now0 tid name t"
  have "acked_bytes (unat t) (set is) \<le> unat t" using assms by (rule acked_bytes_le)
  then have "unat (th_bytes_transferred ?h) +
      acked_bytes (unat (th_total_bytes ?h)) (set is - th_acked_chunks ?h) < 2 ^ 64"
    using unat_less_2p [of t] by simp
  from ack_chunks_bytes [OF _ this, of now] show ?thesis by simp
qed

text \<open>From a fresh handle, whatever chunks in range are acked, in whatever order and however
  often, the byte counter is exactly the number of distinct bytes acked, the percentage stays
  within 0 and 100, and no chunk is pending exactly when the counter has reached the file size.\<close>

lemma fresh_transfer_accounting:
  assumes "\<forall>i \<in> set is. unat i < num_chunks (unat t)"
  shows "let h = ack_chunks now is (handle_new now0 tid name t) in
           unat (th_bytes_transferred h) = (\<Sum>i \<in> set is. chunk_len (unat t) (unat i)) \<and>
           0 \<le> tp_percent (progress h st) \<and> tp_percent (progress h st) \<le> 100 \<and>
           set (pending_chunk_indices h) = in_range t - set is \<and>
           (pending_chunk_indices h = [] \<longleftrightarrow> th_bytes_transferred h = t)"
proof -
  let ?h = "ack_chunks now is (handle_new now0 tid name t)"
  have r: "set is \<subseteq> in_range t" using assms by (auto simp: in_range_def)
  have b: "unat (th_bytes_transferred ?h) = acked_bytes (unat t) (set is)"
    by (rule fresh_acks_bytes [OF r])
  have le: "acked_bytes (unat t) (set is) \<le> unat t" by (rule acked_bytes_le [OF r])
  have "tp_percent (progress ?h st) = percent_of (th_bytes_transferred ?h) t"
    by (simp add: progress_def Let_def)
  then have p: "0 \<le> tp_percent (progress ?h st) \<and> tp_percent (progress ?h st) \<le> 100"
    using b le percent_of_le_100_iff [of "th_bytes_transferred ?h" t]
      percent_of_nonneg [of "th_bytes_transferred ?h" t]
    by simp
  have s: "set (pending_chunk_indices ?h) = in_range t - set is"
    by (simp add: set_pending in_range_def)
  have "pending_chunk_indices ?h = [] \<longleftrightarrow> set is = in_range t"
    using pending_Nil_iff [of ?h t] r by simp
  also have "\<dots> \<longleftrightarrow> th_bytes_transferred ?h = t"
    using acked_bytes_full_iff [OF r] b by (simp only: word_unat_eq_iff)
  finally show ?thesis using b p s by (simp add: Let_def acked_bytes_def)
qed

theorem fresh_transfer_accounting_witness:
  "let h = ack_chunks 7 [0, 0] (handle_new 5 ''t'' ''f'' 100) in
     unat (th_bytes_transferred h) = (\<Sum>i \<in> set [0, 0 :: u64]. chunk_len (unat (100 :: u64)) (unat i)) \<and>
     0 \<le> tp_percent (progress h Active) \<and> tp_percent (progress h Active) \<le> 100 \<and>
     set (pending_chunk_indices h) = in_range 100 - set [0, 0] \<and>
     (pending_chunk_indices h = [] \<longleftrightarrow> th_bytes_transferred h = 100)"
  by (rule fresh_transfer_accounting) (simp add: num_chunks_def CHUNK_SIZE_eq)

section \<open>The acks of a resumed transfer\<close>

text \<open>The last chunk of a file is short unless the size is a multiple of the chunk size.\<close>

definition last_chunk :: "u64 \<Rightarrow> u64" where
  "last_chunk t = of_nat (num_chunks (unat t) - 1)"

lemma chunk_len_not_last: "Suc i < num_chunks n \<Longrightarrow> chunk_len n i = CHUNK_SIZE"
  by (simp add: lt_num_chunks chunk_len_def)

lemma unat_last_chunk: "unat (last_chunk t) = num_chunks (unat t) - 1"
proof -
  have "num_chunks (unat t) - 1 < 2 ^ 64"
    using num_chunks_le [of "unat t"] unat_less_2p [of t] by simp
  then show ?thesis by (simp add: last_chunk_def unat_of_nat)
qed

lemma acked_bytes_card:
  assumes "A \<subseteq> in_range t"
  shows "acked_bytes (unat t) A +
      (if last_chunk t \<in> A then CHUNK_SIZE - chunk_len (unat t) (unat (last_chunk t)) else 0) =
    card A * CHUNK_SIZE"
proof -
  let ?l = "last_chunk t" and ?n = "unat t"
  have fin: "finite A" using assms finite_subset finite_in_range by blast
  have full: "chunk_len ?n (unat i) = CHUNK_SIZE" if "i \<in> A - {?l}" for i
  proof -
    have "unat i < num_chunks ?n" using that assms by (auto simp: in_range_def)
    moreover have "unat i \<noteq> num_chunks ?n - 1"
      using that unat_last_chunk [of t] by (auto simp: word_unat_eq_iff)
    ultimately show ?thesis by (intro chunk_len_not_last) linarith
  qed
  have rest: "acked_bytes ?n (A - {?l}) = card (A - {?l}) * CHUNK_SIZE"
    unfolding acked_bytes_def using full by simp
  show ?thesis
  proof (cases "?l \<in> A")
    case True
    have a: "acked_bytes ?n A = chunk_len ?n (unat ?l) + acked_bytes ?n (A - {?l})"
      unfolding acked_bytes_def by (rule sum.remove [OF fin True])
    have c: "card A = Suc (card (A - {?l}))" by (rule card.remove [OF fin True])
    have l: "chunk_len ?n (unat ?l) \<le> CHUNK_SIZE" by (simp add: chunk_len_def)
    have "card A * CHUNK_SIZE = CHUNK_SIZE + card (A - {?l}) * CHUNK_SIZE"
      unfolding c by (rule mult_Suc)
    with a l rest show ?thesis by (simp only: True if_True)
  next
    case False
    with rest show ?thesis by simp
  qed
qed

lemma resume_fields [simp]:
  "th_total_bytes (resume_from_manifest now tid name t A) = t"
  "th_acked_chunks (resume_from_manifest now tid name t A) = A"
  by (simp_all add: resume_from_manifest_def Let_def)

lemma card_chunks_bound:
  assumes "A \<subseteq> in_range t" and "unat t < 2 ^ 63"
  shows "card A * CHUNK_SIZE < 2 ^ 64"
proof -
  have "card A \<le> num_chunks (unat t)" using card_mono [OF finite_in_range assms(1)] by simp
  then have "card A * CHUNK_SIZE \<le> num_chunks (unat t) * CHUNK_SIZE" by simp
  also have "\<dots> \<le> unat t + CHUNK_SIZE - 1"
    unfolding num_chunks_def by (rule div_times_less_eq_dividend)
  also have "\<dots> < 2 ^ 64" using assms(2) by (simp add: CHUNK_SIZE_eq)
  finally show ?thesis .
qed

lemma unat_min: "unat (min a b :: 'a::len word) = min (unat a) (unat b)"
  by (simp add: min_def word_le_nat_alt)

lemma resume_bytes:
  assumes "A \<subseteq> in_range t" and "unat t < 2 ^ 63"
  shows "unat (th_bytes_transferred (resume_from_manifest now tid name t A)) =
           min (card A * CHUNK_SIZE) (unat t)"
proof -
  have "card A * CHUNK_SIZE < 2 ^ 64" by (rule card_chunks_bound [OF assms])
  then have "unat (of_nat (card A) * of_nat CHUNK_SIZE :: u64) = card A * CHUNK_SIZE"
    by (simp add: unat_of_nat flip: of_nat_mult)
  then show ?thesis by (simp add: resume_from_manifest_def Let_def unat_min)
qed

text \<open>How much a resumed counter is ahead of the bytes really acked.\<close>

definition resume_excess :: "u64 \<Rightarrow> u64 set \<Rightarrow> nat" where
  "resume_excess t A =
     (if last_chunk t \<in> A \<and> A \<noteq> in_range t
      then CHUNK_SIZE - chunk_len (unat t) (unat (last_chunk t)) else 0)"

lemma resume_bytes_excess:
  assumes "A \<subseteq> in_range t" and "unat t < 2 ^ 63"
  shows "unat (th_bytes_transferred (resume_from_manifest now tid name t A)) =
           acked_bytes (unat t) A + resume_excess t A"
proof (cases "A = in_range t")
  case True
  then show ?thesis
    using resume_bytes [OF assms, of now tid name] num_chunks_cover [of "unat t"]
    by (simp add: acked_bytes_all resume_excess_def)
next
  case False
  then have sub: "A \<subset> in_range t" using assms(1) by auto
  have "card A < num_chunks (unat t)" using psubset_card_mono [OF finite_in_range sub] by simp
  then have "card A * CHUNK_SIZE < unat t" by (simp add: lt_num_chunks)
  with False show ?thesis
    using resume_bytes [OF assms, of now tid name] acked_bytes_card [OF assms(1)]
    by (auto simp: resume_excess_def)
qed

text \<open>C31: after a resume, when the remaining chunks have been acked, the counter stands at the file
  size plus the part of the last chunk that lies past the end of the file, if that chunk was already
  in the manifest and another was not; otherwise it stands at the file size.  In the first case the
  reported percentage exceeds 100.\<close>

theorem resumed_transfer_accounting:
  assumes "\<forall>i \<in> A. unat i < num_chunks (unat t)" and "unat t < 2 ^ 63"
  shows "let h = resume_from_manifest now0 tid name t A;
             h' = ack_chunks now (pending_chunk_indices h) h
         in pending_chunk_indices h' = [] \<and>
            unat (th_bytes_transferred h') = unat t + resume_excess t A \<and>
            (tp_percent (progress h' st) \<le> 100 \<longleftrightarrow> resume_excess t A = 0)"
proof -
  let ?h = "resume_from_manifest now0 tid name t A"
  let ?h' = "ack_chunks now (pending_chunk_indices ?h) ?h"
  have r: "A \<subseteq> in_range t" using assms(1) by (auto simp: in_range_def)
  have fin: "finite A" using r finite_subset finite_in_range by blast
  have P: "set (pending_chunk_indices ?h) = in_range t - A" by (simp add: set_pending in_range_def)
  have acked: "th_acked_chunks ?h' = in_range t" using P r by auto
  have "unat (th_total_chunks ?h') = num_chunks (unat t)" by simp
  from pending_Nil_iff [OF this] acked have none: "pending_chunk_indices ?h' = []" by (simp only: subset_refl)
  have split: "acked_bytes (unat t) A + acked_bytes (unat t) (in_range t - A) = unat t"
    using sum.subset_diff [OF r finite_in_range, of "\<lambda>i. chunk_len (unat t) (unat i)"] acked_bytes_all [of t]
    by (simp add: acked_bytes_def)
  have ex: "resume_excess t A \<le> CHUNK_SIZE" by (simp add: resume_excess_def)
  have D: "set (pending_chunk_indices ?h) - th_acked_chunks ?h = in_range t - A" using P by auto
  have b0: "unat (th_bytes_transferred ?h) = acked_bytes (unat t) A + resume_excess t A"
    by (rule resume_bytes_excess [OF r assms(2)])
  have sum: "unat (th_bytes_transferred ?h) +
      acked_bytes (unat (th_total_bytes ?h)) (set (pending_chunk_indices ?h) - th_acked_chunks ?h) =
      unat t + resume_excess t A"
    unfolding D b0 using split by simp
  have "unat t + resume_excess t A < 2 ^ 64" using ex assms(2) by (simp add: CHUNK_SIZE_eq)
  then have b: "unat (th_bytes_transferred ?h') = unat t + resume_excess t A"
    using ack_chunks_bytes [of ?h "pending_chunk_indices ?h" now] fin sum by simp
  have "tp_percent (progress ?h' st) = percent_of (th_bytes_transferred ?h') t"
    by (simp add: progress_def Let_def)
  moreover have "resume_excess t A = 0" if "t = 0"
    using that r by (auto simp: resume_excess_def in_range_def)
  ultimately have "tp_percent (progress ?h' st) \<le> 100 \<longleftrightarrow> resume_excess t A = 0"
    using b percent_of_le_100_iff [of "th_bytes_transferred ?h'" t] by auto
  with none b show ?thesis by (simp add: Let_def)
qed

theorem resumed_transfer_accounting_witness:
  "let h = resume_from_manifest 0 ''t'' ''f'' 8388708 {1};
       h' = ack_chunks 1 (pending_chunk_indices h) h
   in pending_chunk_indices h' = [] \<and>
      unat (th_bytes_transferred h') = unat (8388708 :: u64) + resume_excess 8388708 {1} \<and>
      (tp_percent (progress h' Active) \<le> 100 \<longleftrightarrow> resume_excess 8388708 {1} = 0)"
  by (rule resumed_transfer_accounting) (simp_all add: num_chunks_def CHUNK_SIZE_eq)

text \<open>The excess is not always zero: a file of one full chunk and 100 bytes, resumed with only its
  last chunk acked.\<close>

lemma resume_excess_example: "resume_excess 8388708 {1} = CHUNK_SIZE - 100"
proof -
  have n: "num_chunks 8388708 = 2" by (simp add: num_chunks_def CHUNK_SIZE_eq)
  have l: "last_chunk 8388708 = 1" by (simp add: last_chunk_def n)
  have "(0 :: u64) \<in> in_range 8388708" by (simp add: in_range_def n)
  moreover have "(0 :: u64) \<notin> {1}" by simp
  ultimately have "{1} \<noteq> in_range 8388708" by blast
  then show ?thesis by (simp add: resume_excess_def l chunk_len_def CHUNK_SIZE_eq)
qed

end
