(* ===== verification/Workers.thy ===== *)
theory Workers
  imports Transfer_Handle
begin

text \<open>
  The sending loop with its chunk workers: \<open>run_sender_workers\<close> of core/src/transfer.rs and the
  first part of \<open>run_outgoing_transfer\<close> of core/src/connection_manager.rs (up to the join of the
  workers), which differ only in what they do when the transfer is cancelled.  Workers run
  concurrently with the loop and with the pause, resume and cancel calls of the user interface, so
  the component is a step relation.  A worker's read, send and ack are one step.
\<close>

section \<open>State\<close>

definition DEFAULT_PARALLELISM :: nat where
  "DEFAULT_PARALLELISM = 6"

datatype sender = SenderWorkers | OutgoingTransfer

text \<open>Where the loop is: at the head of the \<open>for\<close>, asleep in the pause loop with the chunk it
  has taken, waiting for a permit, joining task \<open>k\<close>, or returned.\<close>

datatype loop_pc =
    Head
  | Sleeping u64
  | Acquiring u64
  | Joining nat
  | Returned "unit res"

text \<open>A spawned task: its chunk and its result once it has one.  A task without a result holds one
  permit of the semaphore.\<close>

type_synonym task = "u64 \<times> unit res option"

record pool =
  todo :: "u64 list"
  pc :: loop_pc
  tasks :: "task list"
  sent :: "u64 list"
  handle :: transfer_handle

definition pool_init :: "transfer_handle \<Rightarrow> pool" where
  "pool_init h = \<lparr>todo = pending_chunk_indices h, pc = Head, tasks = [], sent = [], handle = h\<rparr>"

definition running :: "pool \<Rightarrow> nat" where
  "running s = length (filter (\<lambda>t. snd t = None) (tasks s))"

definition transfer_cancelled :: core_error where
  "transfer_cancelled = InvalidState ''transfer cancelled''"

section \<open>Steps of the loop and of its workers\<close>

text \<open>\<open>src\<close> reads a chunk (\<open>read_chunk_from_source\<close>); whether the send succeeds is the transport's
  choice.  In \<open>OutgoingTransfer\<close> the inner \<open>break\<close> on cancellation leaves only the pause loop, so
  the chunk already taken goes on to a worker.\<close>

inductive pool_istep :: "sender \<Rightarrow> nat \<Rightarrow> (u64 \<Rightarrow> bytes res) \<Rightarrow> pool \<Rightarrow> pool \<Rightarrow> bool"
  for v :: sender and parallelism :: nat and src :: "u64 \<Rightarrow> bytes res" where
  head_done: "pc s = Head \<Longrightarrow> todo s = [] \<Longrightarrow>
    pool_istep v parallelism src s (s\<lparr>pc := Joining 0\<rparr>)"
| head_cancelled_return: "v = SenderWorkers \<Longrightarrow> pc s = Head \<Longrightarrow> todo s = i # is \<Longrightarrow>
    th_cancelled (handle s) \<Longrightarrow>
    pool_istep v parallelism src s (s\<lparr>pc := Returned (Inl transfer_cancelled)\<rparr>)"
| head_cancelled_break: "v = OutgoingTransfer \<Longrightarrow> pc s = Head \<Longrightarrow> todo s = i # is \<Longrightarrow>
    th_cancelled (handle s) \<Longrightarrow>
    pool_istep v parallelism src s (s\<lparr>pc := Joining 0\<rparr>)"
| head_paused: "pc s = Head \<Longrightarrow> todo s = i # is \<Longrightarrow> \<not> th_cancelled (handle s) \<Longrightarrow>
    th_paused (handle s) \<Longrightarrow>
    pool_istep v parallelism src s (s\<lparr>pc := Sleeping i, todo := is\<rparr>)"
| head_go: "pc s = Head \<Longrightarrow> todo s = i # is \<Longrightarrow> \<not> th_cancelled (handle s) \<Longrightarrow>
    \<not> th_paused (handle s) \<Longrightarrow>
    pool_istep v parallelism src s (s\<lparr>pc := Acquiring i, todo := is\<rparr>)"
| wake_cancelled_return: "v = SenderWorkers \<Longrightarrow> pc s = Sleeping i \<Longrightarrow> th_cancelled (handle s) \<Longrightarrow>
    pool_istep v parallelism src s (s\<lparr>pc := Returned (Inl transfer_cancelled)\<rparr>)"
| wake_cancelled_break: "v = OutgoingTransfer \<Longrightarrow> pc s = Sleeping i \<Longrightarrow> th_cancelled (handle s) \<Longrightarrow>
    pool_istep v parallelism src s (s\<lparr>pc := Acquiring i\<rparr>)"
| wake_go: "pc s = Sleeping i \<Longrightarrow> \<not> th_cancelled (handle s) \<Longrightarrow> \<not> th_paused (handle s) \<Longrightarrow>
    pool_istep v parallelism src s (s\<lparr>pc := Acquiring i\<rparr>)"
| spawn: "pc s = Acquiring i \<Longrightarrow> running s < parallelism \<Longrightarrow>
    pool_istep v parallelism src s (s\<lparr>pc := Head, tasks := tasks s @ [(i, None)]\<rparr>)"
| stream_failed: "v = OutgoingTransfer \<Longrightarrow> pc s = Acquiring i \<Longrightarrow> running s < parallelism \<Longrightarrow>
    pool_istep v parallelism src s (s\<lparr>pc := Returned (Inl e)\<rparr>)"
| task_done: "k < length (tasks s) \<Longrightarrow> tasks s ! k = (i, None) \<Longrightarrow> src i = Inr payload \<Longrightarrow>
    pool_istep v parallelism src s
      (s\<lparr>tasks := (tasks s)[k := (i, Some (Inr ()))], sent := sent s @ [i],
         handle := mark_chunk_acked now i (of_nat (length payload)) (handle s)\<rparr>)"
| task_read_failed: "k < length (tasks s) \<Longrightarrow> tasks s ! k = (i, None) \<Longrightarrow> src i = Inl e \<Longrightarrow>
    pool_istep v parallelism src s (s\<lparr>tasks := (tasks s)[k := (i, Some (Inl e))]\<rparr>)"
| task_send_failed: "k < length (tasks s) \<Longrightarrow> tasks s ! k = (i, None) \<Longrightarrow> src i = Inr payload \<Longrightarrow>
    pool_istep v parallelism src s (s\<lparr>tasks := (tasks s)[k := (i, Some (Inl e))]\<rparr>)"
| join_next: "pc s = Joining k \<Longrightarrow> k < length (tasks s) \<Longrightarrow> snd (tasks s ! k) = Some (Inr ()) \<Longrightarrow>
    pool_istep v parallelism src s (s\<lparr>pc := Joining (Suc k)\<rparr>)"
| join_failed: "pc s = Joining k \<Longrightarrow> k < length (tasks s) \<Longrightarrow> snd (tasks s ! k) = Some (Inl e) \<Longrightarrow>
    pool_istep v parallelism src s (s\<lparr>pc := Returned (Inl e)\<rparr>)"
| join_done: "pc s = Joining k \<Longrightarrow> length (tasks s) \<le> k \<Longrightarrow>
    pool_istep v parallelism src s (s\<lparr>pc := Returned (Inr ())\<rparr>)"

text \<open>The user interface may pause, resume or cancel at any moment.\<close>

inductive pool_step :: "sender \<Rightarrow> nat \<Rightarrow> (u64 \<Rightarrow> bytes res) \<Rightarrow> pool \<Rightarrow> pool \<Rightarrow> bool"
  for v :: sender and parallelism :: nat and src :: "u64 \<Rightarrow> bytes res" where
  internal: "pool_istep v parallelism src s t \<Longrightarrow> pool_step v parallelism src s t"
| ui_pause: "pool_step v parallelism src s (s\<lparr>handle := pause (handle s)\<rparr>)"
| ui_resume: "pool_step v parallelism src s (s\<lparr>handle := resume (handle s)\<rparr>)"
| ui_cancel: "pool_step v parallelism src s (s\<lparr>handle := cancel (handle s)\<rparr>)"

inductive_cases pool_stepE: "pool_step v n src s t"

section \<open>The invariant\<close>

text \<open>The chunk the loop has taken from the list and not yet given to a task.\<close>

fun taken :: "loop_pc \<Rightarrow> u64 list" where
  "taken (Sleeping i) = [i]"
| "taken (Acquiring i) = [i]"
| "taken _ = []"

definition done_tasks :: "pool \<Rightarrow> u64 set" where
  "done_tasks s = {i. (i, Some (Inr ())) \<in> set (tasks s)}"

text \<open>The chunks of the tasks, the taken one and the ones to come make up the pending list in its
  order, so no chunk is ever given to two workers; a chunk is lost only when the loop returns an
  error.\<close>

definition chunks_inv :: "transfer_handle \<Rightarrow> pool \<Rightarrow> bool" where
  "chunks_inv h0 s \<longleftrightarrow>
     (\<exists>lost. map fst (tasks s) @ taken (pc s) @ lost @ todo s = pending_chunk_indices h0 \<and>
        (lost \<noteq> [] \<longrightarrow> (\<exists>e. pc s = Returned (Inl e))))"

text \<open>The loop gets to the join only when its list is used up or the transfer is cancelled, and
  returns success only when every task it has spawned succeeded.\<close>

definition join_inv :: "pool \<Rightarrow> bool" where
  "join_inv s \<longleftrightarrow>
     (\<forall>k. pc s = Joining k \<longrightarrow> (\<forall>j < k. j < length (tasks s) \<longrightarrow> snd (tasks s ! j) = Some (Inr ()))) \<and>
     (pc s = Returned (Inr ()) \<longrightarrow> (\<forall>t \<in> set (tasks s). snd t = Some (Inr ()))) \<and>
     ((\<exists>k. pc s = Joining k) \<or> pc s = Returned (Inr ()) \<longrightarrow> todo s = [] \<or> th_cancelled (handle s))"

text \<open>What was sent is what the finished workers were given, each chunk once, and the handle has
  acked exactly that on top of what it had.\<close>

definition acks_inv :: "transfer_handle \<Rightarrow> pool \<Rightarrow> bool" where
  "acks_inv h0 s \<longleftrightarrow>
     set (sent s) = done_tasks s \<and> distinct (sent s) \<and>
     th_acked_chunks (handle s) = th_acked_chunks h0 \<union> set (sent s) \<and>
     th_total_chunks (handle s) = th_total_chunks h0"

definition pool_inv :: "nat \<Rightarrow> transfer_handle \<Rightarrow> pool \<Rightarrow> bool" where
  "pool_inv parallelism h0 s \<longleftrightarrow>
     running s \<le> parallelism \<and> chunks_inv h0 s \<and> join_inv s \<and> acks_inv h0 s"

lemma ui_fields [simp]:
  "th_acked_chunks (pause h) = th_acked_chunks h" "th_total_chunks (pause h) = th_total_chunks h"
  "th_cancelled (pause h) = th_cancelled h"
  "th_acked_chunks (resume h) = th_acked_chunks h" "th_total_chunks (resume h) = th_total_chunks h"
  "th_cancelled (resume h) = th_cancelled h"
  "th_acked_chunks (cancel h) = th_acked_chunks h" "th_total_chunks (cancel h) = th_total_chunks h"
  "th_cancelled (cancel h)"
  "th_paused (pause h)" "\<not> th_paused (resume h)" "th_paused (cancel h) = th_paused h"
  by (simp_all add: pause_def resume_def cancel_def)

lemma running_update:
  "k < length ts \<Longrightarrow> ts ! k = (i, None) \<Longrightarrow>
    length (filter (\<lambda>t. snd t = None) (ts[k := (i, Some r)])) =
      length (filter (\<lambda>t. snd t = None) ts) - 1 \<and>
    0 < length (filter (\<lambda>t. snd t = None) ts)"
proof (induction ts arbitrary: k)
  case Nil
  then show ?case by simp
next
  case (Cons t ts)
  then show ?case by (cases k) auto
qed

lemma map_fst_update: "k < length ts \<Longrightarrow> ts ! k = (i, None) \<Longrightarrow> map fst (ts[k := (i, r)]) = map fst ts"
  by (rule nth_equalityI) (auto simp: nth_list_update)

lemma done_update:
  assumes "k < length ts" and "ts ! k = (i, None)" and "distinct (map fst ts)"
  shows "(j, Some (Inr ())) \<in> set (ts[k := (i, Some r)]) \<longleftrightarrow>
           (j = i \<and> r = Inr ()) \<or> (j, Some (Inr ())) \<in> set ts"
proof -
  have "set (ts[k := (i, Some r)]) = insert (i, Some r) (set ts - {(i, None)})"
  proof -
    from assms(3) have "distinct ts" by (simp add: distinct_map)
    from set_update_distinct [OF this assms(1)] assms(2) show ?thesis by simp
  qed
  then show ?thesis by auto
qed

lemma done_not_running:
  assumes "k < length ts" and "ts ! k = (i, None)" and "distinct (map fst ts)"
  shows "(i, Some r) \<notin> set ts"
proof
  assume "(i, Some r) \<in> set ts"
  then obtain j where j: "j < length ts" "ts ! j = (i, Some r)" by (auto simp: in_set_conv_nth)
  with assms have "j = k" by (metis distinct_conv_nth fst_conv length_map nth_map)
  with j assms show False by simp
qed

lemma chunks_inv_distinct:
  assumes "chunks_inv h0 s"
  shows "distinct (map fst (tasks s))"
proof -
  from assms obtain l where "map fst (tasks s) @ taken (pc s) @ l @ todo s = pending_chunk_indices h0"
    by (auto simp: chunks_inv_def)
  then show ?thesis using distinct_pending [of h0] by (metis distinct_append)
qed

text \<open>One lemma per part of the invariant.\<close>

lemma istep_running [preserves]:
  assumes "pool_istep v n src s t" and "running s \<le> n"
  shows "running t \<le> n"
  using assms by (cases rule: pool_istep.cases) (auto simp: running_def running_update)

lemma istep_chunks [preserves]:
  assumes "pool_istep v n src s t" and "chunks_inv h0 s"
  shows "chunks_inv h0 t"
  using assms(1)
proof (cases rule: pool_istep.cases)
  case (wake_cancelled_return i)
  with assms(2) show ?thesis by (auto simp: chunks_inv_def intro: exI [of _ "[i]"])
next
  case (stream_failed i e)
  with assms(2) show ?thesis by (auto simp: chunks_inv_def intro: exI [of _ "[i]"])
qed (use assms(2) in \<open>auto simp: chunks_inv_def map_fst_update intro: exI [of _ "[]"]\<close>)

lemma istep_acks [preserves]:
  assumes "pool_istep v n src s t" and "chunks_inv h0 s" and "acks_inv h0 s"
  shows "acks_inv h0 t"
  using assms(1)
proof (cases rule: pool_istep.cases)
  case (task_done k i payload now)
  from chunks_inv_distinct [OF assms(2)] have d: "distinct (map fst (tasks s))" .
  have "i \<notin> set (sent s)"
    using done_not_running [OF task_done(2,3) d] assms(3) by (auto simp: acks_inv_def done_tasks_def)
  with assms(3) show ?thesis
    unfolding task_done(1) by (auto simp: acks_inv_def done_tasks_def done_update [OF task_done(2,3) d])
next
  case (task_read_failed k i e)
  from chunks_inv_distinct [OF assms(2)] have d: "distinct (map fst (tasks s))" .
  from assms(3) show ?thesis
    unfolding task_read_failed(1)
    by (auto simp: acks_inv_def done_tasks_def done_update [OF task_read_failed(2,3) d])
next
  case (task_send_failed k i payload e)
  from chunks_inv_distinct [OF assms(2)] have d: "distinct (map fst (tasks s))" .
  from assms(3) show ?thesis
    unfolding task_send_failed(1)
    by (auto simp: acks_inv_def done_tasks_def done_update [OF task_send_failed(2,3) d])
qed (use assms(3) in \<open>auto simp: acks_inv_def done_tasks_def\<close>)

lemma istep_join [preserves]:
  assumes "pool_istep v n src s t" and "join_inv s"
  shows "join_inv t"
  using assms(1)
proof (cases rule: pool_istep.cases)
  case (join_next k)
  with assms(2) show ?thesis by (auto simp: join_inv_def less_Suc_eq)
next
  case (join_done k)
  have "snd (tasks s ! j) = Some (Inr ())" if "j < length (tasks s)" for j
    using that join_done assms(2) by (auto simp: join_inv_def)
  then have "\<forall>x \<in> set (tasks s). snd x = Some (Inr ())" by (metis in_set_conv_nth)
  with assms(2) join_done show ?thesis by (auto simp: join_inv_def)
next
  case (task_done k i payload now)
  then have "(i, None) \<in> set (tasks s)" by (metis nth_mem)
  then have "pc s \<noteq> Returned (Inr ())" using assms(2) by (auto simp: join_inv_def)
  with assms(2) task_done show ?thesis by (fastforce simp: join_inv_def nth_list_update)
next
  case (task_read_failed k i e)
  then have "(i, None) \<in> set (tasks s)" by (metis nth_mem)
  then have "pc s \<noteq> Returned (Inr ())" using assms(2) by (auto simp: join_inv_def)
  with assms(2) task_read_failed show ?thesis by (fastforce simp: join_inv_def nth_list_update)
next
  case (task_send_failed k i payload e)
  then have "(i, None) \<in> set (tasks s)" by (metis nth_mem)
  then have "pc s \<noteq> Returned (Inr ())" using assms(2) by (auto simp: join_inv_def)
  with assms(2) task_send_failed show ?thesis by (fastforce simp: join_inv_def nth_list_update)
qed (use assms(2) in \<open>auto simp: join_inv_def\<close>)

lemma pool_step_inv:
  assumes "pool_inv n h0 s" and "pool_step v n src s t"
  shows "pool_inv n h0 t"
  using assms(2)
proof (cases rule: pool_step.cases)
  case internal
  with assms(1) show ?thesis
    unfolding pool_inv_def by (auto intro: istep_running istep_chunks istep_join istep_acks)
qed (use assms(1) in \<open>auto simp: pool_inv_def running_def chunks_inv_def join_inv_def acks_inv_def done_tasks_def\<close>)

lemma pool_init_inv: "pool_inv n h (pool_init h)"
  by (auto simp: pool_inv_def pool_init_def running_def chunks_inv_def join_inv_def acks_inv_def done_tasks_def)

interpretation workers: machine "\<lambda>s. s = pool_init h" "pool_step v n src" "pool_inv n h"
  for h v n src
  by unfold_locales (auto intro: pool_init_inv pool_step_inv)

section \<open>What the sending loop guarantees\<close>

text \<open>In every state the loop and its workers can reach, whatever the user interface does, at most
  \<open>parallelism\<close> workers run, no chunk is given to two workers or sent twice, only pending chunks are
  sent, and the handle has acked exactly the chunks it started with and the ones sent.\<close>

lemma sender_workers_safe:
  assumes "(pool_step v parallelism src)\<^sup>*\<^sup>* (pool_init h) s"
  shows "running s \<le> parallelism \<and> distinct (map fst (tasks s)) \<and> distinct (sent s) \<and>
         set (sent s) \<subseteq> fst ` set (tasks s) \<and> fst ` set (tasks s) \<subseteq> set (pending_chunk_indices h) \<and>
         th_acked_chunks (handle s) = th_acked_chunks h \<union> set (sent s)"
proof -
  have inv: "pool_inv parallelism h s" using workers.reachable_inv [OF refl assms] .
  then have c: "chunks_inv h s" and a: "acks_inv h s" and r: "running s \<le> parallelism"
    by (simp_all add: pool_inv_def)
  from c obtain l where l: "map fst (tasks s) @ taken (pc s) @ l @ todo s = pending_chunk_indices h"
    by (auto simp: chunks_inv_def)
  then have "set (map fst (tasks s)) \<subseteq> set (pending_chunk_indices h)" by (metis Un_upper1 set_append)
  moreover have "set (sent s) \<subseteq> fst ` set (tasks s)"
    using a by (force simp: acks_inv_def done_tasks_def)
  ultimately show ?thesis using r a chunks_inv_distinct [OF c] by (auto simp: acks_inv_def)
qed

text \<open>The witness: one worker is started and finishes.\<close>

definition one_chunk :: transfer_handle where
  "one_chunk = handle_new 0 ''t'' ''f'' 3"

lemma one_chunk_pending: "pending_chunk_indices one_chunk = [0]"
proof -
  have "unat (th_total_chunks one_chunk) = 1"
    by (simp add: one_chunk_def num_chunks_def CHUNK_SIZE_eq)
  then show ?thesis by (simp add: pending_chunk_indices_def one_chunk_def)
qed

lemma one_chunk_run:
  "(pool_step v 6 (\<lambda>_. Inr [1, 2, 3]))\<^sup>*\<^sup>* (pool_init one_chunk)
     \<lparr>todo = [], pc = Returned (Inr ()), tasks = [(0, Some (Inr ()))], sent = [0],
      handle = mark_chunk_acked 9 0 3 one_chunk\<rparr>"
proof -
  let ?step = "pool_step v 6 (\<lambda>_. Inr [1, 2, 3])"
  have flags: "\<not> th_cancelled one_chunk" "\<not> th_paused one_chunk"
    by (simp_all add: one_chunk_def handle_new_def)
  let ?s = "\<lambda>p ts se h. \<lparr>todo = [], pc = p, tasks = ts, sent = se, handle = h\<rparr> :: pool"
  let ?h = "mark_chunk_acked 9 0 3 one_chunk"
  have "?step (pool_init one_chunk) (?s (Acquiring 0) [] [] one_chunk)"
    using pool_istep.head_go [of "pool_init one_chunk" 0 "[]" v 6 "\<lambda>_. Inr [1, 2, 3]"] flags
    by (intro internal) (simp add: pool_init_def one_chunk_pending)
  moreover have "?step (?s (Acquiring 0) [] [] one_chunk) (?s Head [(0, None)] [] one_chunk)"
    using pool_istep.spawn [of "?s (Acquiring 0) [] [] one_chunk" 0 6 v "\<lambda>_. Inr [1, 2, 3]"]
    by (intro internal) (simp add: running_def)
  moreover have "?step (?s Head [(0, None)] [] one_chunk) (?s Head [(0, Some (Inr ()))] [0] ?h)"
    using pool_istep.task_done [of 0 "?s Head [(0, None)] [] one_chunk" 0 "\<lambda>_. Inr [1, 2, 3]"
        "[1, 2, 3]" v 6 9]
    by (intro internal) simp
  moreover have "?step (?s Head [(0, Some (Inr ()))] [0] ?h) (?s (Joining 0) [(0, Some (Inr ()))] [0] ?h)"
    using pool_istep.head_done [of "?s Head [(0, Some (Inr ()))] [0] ?h" v 6 "\<lambda>_. Inr [1, 2, 3]"]
    by (intro internal) simp
  moreover have "?step (?s (Joining 0) [(0, Some (Inr ()))] [0] ?h)
      (?s (Joining 1) [(0, Some (Inr ()))] [0] ?h)"
    using pool_istep.join_next [of "?s (Joining 0) [(0, Some (Inr ()))] [0] ?h" 0 v 6 "\<lambda>_. Inr [1, 2, 3]"]
    by (intro internal) simp
  moreover have "?step (?s (Joining 1) [(0, Some (Inr ()))] [0] ?h)
      (?s (Returned (Inr ())) [(0, Some (Inr ()))] [0] ?h)"
    using pool_istep.join_done [of "?s (Joining 1) [(0, Some (Inr ()))] [0] ?h" 1 v 6 "\<lambda>_. Inr [1, 2, 3]"]
    by (intro internal) simp
  ultimately show ?thesis by (meson converse_rtranclp_into_rtranclp rtranclp.rtrancl_refl)
qed

theorem sender_workers_safe_witness:
  "\<exists>s :: pool. sent s = [0] \<and> running s \<le> 6 \<and> distinct (map fst (tasks s)) \<and> distinct (sent s) \<and>
     set (sent s) \<subseteq> fst ` set (tasks s) \<and> fst ` set (tasks s) \<subseteq> set (pending_chunk_indices one_chunk) \<and>
     th_acked_chunks (handle s) = th_acked_chunks one_chunk \<union> set (sent s)"
  using sender_workers_safe [OF one_chunk_run [of OutgoingTransfer]]
  by (intro exI [of _ "\<lparr>todo = [], pc = Returned (Inr ()), tasks = [(0, Some (Inr ()))], sent = [0],
      handle = mark_chunk_acked 9 0 3 one_chunk\<rparr>"]) simp

lemma pool_completed:
  assumes "pool_inv n h s" and "pc s = Returned (Inr ())" and "\<not> th_cancelled (handle s)"
  shows "set (sent s) = set (pending_chunk_indices h)" "pending_chunk_indices (handle s) = []"
proof -
  have c: "chunks_inv h s" and a: "acks_inv h s" and j: "join_inv s"
    using assms(1) by (simp_all add: pool_inv_def)
  from j assms(2,3) have td: "todo s = []" and ok: "\<forall>t \<in> set (tasks s). snd t = Some (Inr ())"
    by (auto simp: join_inv_def)
  from c assms(2) td have "map fst (tasks s) = pending_chunk_indices h" by (auto simp: chunks_inv_def)
  then have P: "set (pending_chunk_indices h) = fst ` set (tasks s)" by (metis set_map)
  have S: "set (sent s) = fst ` set (tasks s)"
    using a ok by (force simp: acks_inv_def done_tasks_def image_iff)
  have "set (pending_chunk_indices (handle s)) = {}"
    using a P S by (auto simp: set_pending acks_inv_def)
  with P S show "set (sent s) = set (pending_chunk_indices h)" "pending_chunk_indices (handle s) = []" by simp_all
qed

text \<open>When the loop returns success and the transfer was not cancelled, every chunk that was
  pending has been sent, and none is pending any more.\<close>

lemma sender_workers_complete:
  assumes "(pool_step v parallelism src)\<^sup>*\<^sup>* (pool_init h) s"
    and "pc s = Returned (Inr ())" and "\<not> th_cancelled (handle s)"
  shows "set (sent s) = set (pending_chunk_indices h) \<and> pending_chunk_indices (handle s) = []"
  using pool_completed [OF workers.reachable_inv [OF refl assms(1)] assms(2,3)] by blast

theorem sender_workers_complete_witness:
  "\<exists>s :: pool. set (sent s) = set (pending_chunk_indices one_chunk) \<and> pending_chunk_indices (handle s) = []"
proof (intro exI)
  let ?s = "\<lparr>todo = [], pc = Returned (Inr ()), tasks = [(0, Some (Inr ()))], sent = [0],
      handle = mark_chunk_acked 9 0 3 one_chunk\<rparr>"
  show "set (sent ?s) = set (pending_chunk_indices one_chunk) \<and> pending_chunk_indices (handle ?s) = []"
    by (rule sender_workers_complete [OF one_chunk_run [of OutgoingTransfer]])
      (simp_all add: one_chunk_def handle_new_def)
qed

section \<open>The loop comes to an end\<close>

fun pc_weight :: "loop_pc \<Rightarrow> nat" where
  "pc_weight Head = 1"
| "pc_weight (Sleeping _) = 6"
| "pc_weight (Acquiring _) = 5"
| "pc_weight (Joining _) = 1"
| "pc_weight (Returned _) = 0"

fun join_weight :: "loop_pc \<Rightarrow> nat \<Rightarrow> nat" where
  "join_weight (Joining k) n = n - k"
| "join_weight (Returned _) n = 0"
| "join_weight _ n = n + 1"

text \<open>A bound on the steps the loop and its workers can still make.\<close>

definition pool_weight :: "pool \<Rightarrow> nat" where
  "pool_weight s =
     8 * length (todo s) + pc_weight (pc s) + running s + join_weight (pc s) (length (tasks s))"

lemma running_task_update:
  "k < length (tasks s) \<Longrightarrow> tasks s ! k = (i, None) \<Longrightarrow>
    length (filter (\<lambda>t. snd t = None) ((tasks s)[k := (i, Some r)])) < running s"
  using running_update [of k "tasks s" i r] by (simp add: running_def)

lemma istep_weight: "pool_istep v n src s t \<Longrightarrow> pool_weight t < pool_weight s"
  by (cases rule: pool_istep.cases, assumption)
    (auto simp: pool_weight_def running_def [of "s\<lparr>tasks := _\<rparr>" for s] running_def
      dest: running_task_update)

lemma istep_paused: "pool_istep v n src s t \<Longrightarrow> th_paused (handle t) = th_paused (handle s)"
  by (cases rule: pool_istep.cases, assumption) auto

lemma task_can_step:
  assumes "k < length (tasks s)" and "snd (tasks s ! k) = None"
  shows "\<exists>t. pool_istep v n src s t"
proof -
  obtain i where i: "tasks s ! k = (i, None)" using assms(2) by (cases "tasks s ! k") auto
  show ?thesis
  proof (cases "src i")
    case (Inl e)
    with assms(1) i show ?thesis by (blast intro: task_read_failed)
  next
    case (Inr p)
    with assms(1) i show ?thesis by (blast intro: task_done)
  qed
qed

lemma istep_progress:
  assumes "0 < n" and "\<not> th_paused (handle s)" and "\<nexists>r. pc s = Returned r"
  shows "\<exists>t. pool_istep v n src s t"
proof (cases "pc s")
  case Head
  show ?thesis
  proof (cases "todo s")
    case Nil
    with Head show ?thesis by (blast intro: head_done)
  next
    case (Cons i js)
    with Head assms(2) show ?thesis
      by (cases "th_cancelled (handle s)"; cases v)
        (blast intro: head_cancelled_return head_cancelled_break head_go)+
  qed
next
  case (Sleeping i)
  with assms(2) show ?thesis
    by (cases "th_cancelled (handle s)"; cases v)
      (blast intro: wake_cancelled_return wake_cancelled_break wake_go)+
next
  case (Acquiring i)
  show ?thesis
  proof (cases "running s < n")
    case True
    with Acquiring show ?thesis by (blast intro: spawn)
  next
    case False
    with assms(1) have "filter (\<lambda>t. snd t = None) (tasks s) \<noteq> []" by (auto simp: running_def)
    then obtain x where x: "x \<in> set (tasks s)" "snd x = None" by (auto simp: filter_empty_conv)
    then obtain k where "k < length (tasks s)" "tasks s ! k = x" by (auto simp: in_set_conv_nth)
    with x(2) show ?thesis by (auto intro: task_can_step)
  qed
next
  case (Joining k)
  show ?thesis
  proof (cases "k < length (tasks s)")
    case True
    show ?thesis
    proof (cases "snd (tasks s ! k)")
      case None
      with True show ?thesis by (rule task_can_step)
    next
      case (Some r)
      with True Joining show ?thesis
        by (cases r) (auto intro: join_next join_failed)
    qed
  next
    case False
    then have "length (tasks s) \<le> k" by simp
    with Joining show ?thesis by (blast intro: join_done)
  qed
next
  case (Returned r)
  with assms(3) show ?thesis by simp
qed

interpretation workers_end: terminating_machine
    "\<lambda>s. 0 < n \<and> \<not> th_paused (handle s)" "pool_istep v n src" "\<lambda>s. \<exists>r. pc s = Returned r" pool_weight
  for v n src
  by unfold_locales (auto simp: istep_paused istep_weight dest: istep_progress)



section \<open>Cancellation\<close>

text \<open>How many more workers can start once the transfer is cancelled: one if the loop is past its check
  for the chunk it holds.  In \<open>OutgoingTransfer\<close> the pause loop is past it.\<close>

fun committed :: "sender \<Rightarrow> loop_pc \<Rightarrow> nat" where
  "committed v (Acquiring _) = 1"
| "committed v (Sleeping _) = (if v = OutgoingTransfer then 1 else 0)"
| "committed v _ = 0"

lemma istep_cancelled:
  assumes "pool_istep v n src s t" and "th_cancelled (handle s)"
  shows "th_cancelled (handle t) \<and>
    length (tasks t) + committed v (pc t) \<le> length (tasks s) + committed v (pc s)"
  using assms by (cases rule: pool_istep.cases) auto

lemma step_cancelled:
  assumes "pool_step v n src s t" and "th_cancelled (handle s)"
  shows "th_cancelled (handle t) \<and>
    length (tasks t) + committed v (pc t) \<le> length (tasks s) + committed v (pc s)"
  using assms by (cases rule: pool_step.cases) (auto dest: istep_cancelled)

text \<open>Once the transfer is cancelled, at most one more chunk worker is ever started; none at all
  unless the loop had already passed its check, which for \<open>run_outgoing_transfer\<close> includes the loop
  being asleep in a pause, when the chunk it holds is in fact still handed to a worker.\<close>

lemma cancel_bounds_spawns:
  assumes "th_cancelled (handle s)"
  shows "(\<forall>t. (pool_step v parallelism src)\<^sup>*\<^sup>* s t \<longrightarrow> length (tasks t) \<le> length (tasks s) + committed v (pc s)) \<and>
         (pc s = Sleeping i \<and> v = OutgoingTransfer \<and> running s < parallelism \<longrightarrow>
            (\<exists>t. (pool_step v parallelism src)\<^sup>*\<^sup>* s t \<and> tasks t = tasks s @ [(i, None)]))"
proof (intro conjI allI impI)
  fix t assume "(pool_step v parallelism src)\<^sup>*\<^sup>* s t"
  then have "th_cancelled (handle t) \<and>
      length (tasks t) + committed v (pc t) \<le> length (tasks s) + committed v (pc s)"
    using assms by (induction rule: rtranclp_induct) (auto dest: step_cancelled)
  then show "length (tasks t) \<le> length (tasks s) + committed v (pc s)" by simp
next
  assume a: "pc s = Sleeping i \<and> v = OutgoingTransfer \<and> running s < parallelism"
  let ?t = "s\<lparr>pc := Acquiring i\<rparr>"
  have "pool_step v parallelism src s ?t"
    using a assms by (intro internal wake_cancelled_break) auto
  moreover have "pool_step v parallelism src ?t (?t\<lparr>pc := Head, tasks := tasks ?t @ [(i, None)]\<rparr>)"
    using a by (intro internal spawn) (auto simp: running_def)
  ultimately show "\<exists>t. (pool_step v parallelism src)\<^sup>*\<^sup>* s t \<and> tasks t = tasks s @ [(i, None)]"
    by (intro exI [of _ "?t\<lparr>pc := Head, tasks := tasks ?t @ [(i, None)]\<rparr>"]) auto
qed

theorem cancel_bounds_spawns_witness:
  "\<exists>t. (pool_step OutgoingTransfer 6 (\<lambda>_. Inr [1]))\<^sup>*\<^sup>*
      \<lparr>todo = [], pc = Sleeping 0, tasks = [], sent = [], handle = cancel one_chunk\<rparr> t \<and> tasks t = [(0, None)]"
  using cancel_bounds_spawns [of "\<lparr>todo = [], pc = Sleeping 0, tasks = [], sent = [], handle = cancel one_chunk\<rparr>"
      OutgoingTransfer 6 "\<lambda>_. Inr [1]" 0]
  by (simp add: running_def)

end
