(* ===== verification/Storage.thy ===== *)
theory Storage
  imports Transfer_Handle Identity "HOL-Library.Multiset"
begin

text \<open>
  core/src/storage.rs: the database.  Each table is the list of its rows in insertion order, each
  statement is the function SQLite's rules make of it: a primary key admits a value once, a foreign
  key must be present in the table it refers to (\<open>open\<close> turns the check on), and a failed statement
  changes nothing.  An \<open>INTEGER\<close> is a signed 64-bit number, so \<open>as i64\<close> is the signed reading of a
  64-bit word.  The clock \<open>strftime('%s','now')\<close> is an argument.  Of the schema, the tables \<open>meta\<close>
  and \<open>typing_state\<close> are left out: no statement of the crate reads or writes them.
\<close>

section \<open>Rows\<close>

record device_row =
  dv_device_id :: string
  dv_display_name :: string
  dv_public_key :: bytes
  dv_last_seen_at :: int
  dv_trusted :: int

record conversation_row =
  cv_conversation_id :: string
  cv_peer_device_id :: string
  cv_created_at :: int

record message_row =
  ms_message_id :: string
  ms_conversation_id :: string
  ms_sender_device_id :: string
  ms_body :: bytes
  ms_type :: string
  ms_sent_at :: int
  ms_delivered_at :: "int option"
  ms_read_at :: "int option"
  ms_status :: string

record transfer_row =
  tr_transfer_id :: string
  tr_message_id :: string
  tr_file_name :: string
  tr_file_size :: int
  tr_mime_type :: string
  tr_total_chunks :: int
  tr_chunk_size :: int
  tr_direction :: string
  tr_state :: string
  tr_bytes_transferred :: int
  tr_local_path :: string
  tr_started_at :: int
  tr_updated_at :: int

record manifest_row =
  mf_transfer_id :: string
  mf_chunk_index :: int
  mf_acked :: int

record storage =
  self_identity :: "stored_identity option"
  devices :: "device_row list"
  conversations :: "conversation_row list"
  messages :: "message_row list"
  file_transfers :: "transfer_row list"
  chunk_manifest :: "manifest_row list"

definition empty_storage :: storage where
  "empty_storage = \<lparr>self_identity = None, devices = [], conversations = [], messages = [],
     file_transfers = [], chunk_manifest = []\<rparr>"

text \<open>The signed reading of a \<open>u64\<close> and back.\<close>

definition as_i64 :: "u64 \<Rightarrow> int" where
  "as_i64 w = sint w"

definition as_u64 :: "int \<Rightarrow> u64" where
  "as_u64 i = of_int i"

lemma as_u64_as_i64 [simp]: "as_u64 (as_i64 w) = w"
  by (simp add: as_u64_def as_i64_def)

lemma as_i64_inject [simp]: "as_i64 a = as_i64 b \<longleftrightarrow> a = b"
  by (metis as_u64_as_i64)

section \<open>Statements\<close>

definition unique_failed :: "string \<Rightarrow> core_error" where
  "unique_failed col = Db (''UNIQUE constraint failed: '' @ col)"

definition foreign_key_failed :: core_error where
  "foreign_key_failed = Db ''FOREIGN KEY constraint failed''"

text \<open>\<open>UPDATE ... SET ... WHERE key = k\<close> and the first row of \<open>SELECT ... WHERE key = k\<close>.\<close>

definition update_where :: "('r \<Rightarrow> 'k) \<Rightarrow> 'k \<Rightarrow> ('r \<Rightarrow> 'r) \<Rightarrow> 'r list \<Rightarrow> 'r list" where
  "update_where key k f rows = map (\<lambda>r. if key r = k then f r else r) rows"

definition row_where :: "('r \<Rightarrow> 'k) \<Rightarrow> 'k \<Rightarrow> 'r list \<Rightarrow> 'r option" where
  "row_where key k rows = find (\<lambda>r. key r = k) rows"

definition has_row :: "('r \<Rightarrow> 'k) \<Rightarrow> 'k \<Rightarrow> 'r list \<Rightarrow> bool" where
  "has_row key k rows \<longleftrightarrow> k \<in> set (map key rows)"

section \<open>The operations of Storage\<close>

subsection \<open>Identity\<close>

definition invalid_query :: core_error where
  "invalid_query = Db ''Query is not read-only''"

definition load_identity :: "crypto \<Rightarrow> storage \<Rightarrow> device_identity option res" where
  "load_identity c db =
     (case self_identity db of
        None \<Rightarrow> Inr None
      | Some row \<Rightarrow>
          if length (si_signing_key_bytes row) \<noteq> 32 then Inl invalid_query
          else if length (si_noise_static_bytes row) \<noteq> 32 then Inl invalid_query
          else andThen (from_stored c row) (\<lambda>i. Inr (Some i)))"

definition save_identity :: "device_identity \<Rightarrow> storage \<Rightarrow> unit res \<times> storage" where
  "save_identity i db = (Inr (), db\<lparr>self_identity := Some (to_stored i)\<rparr>)"

definition load_or_create_identity :: "crypto \<Rightarrow> bytes \<Rightarrow> storage \<Rightarrow> device_identity res \<times> storage" where
  "load_or_create_identity c seed db =
     (case load_identity c db of
        Inl e \<Rightarrow> (Inl e, db)
      | Inr (Some existing) \<Rightarrow> (Inr existing, db)
      | Inr None \<Rightarrow>
          let identity = generate c seed; (r, db') = save_identity identity db
          in (andThen r (\<lambda>_. Inr identity), db'))"

subsection \<open>Conversations and messages\<close>

definition get_or_create_conversation :: "int \<Rightarrow> string \<Rightarrow> storage \<Rightarrow> string res \<times> storage" where
  "get_or_create_conversation now peer db =
     (if has_row cv_conversation_id peer (conversations db) then (Inr peer, db)
      else if \<not> has_row dv_device_id peer (devices db) then (Inl foreign_key_failed, db)
      else (Inr peer, db\<lparr>conversations := conversations db @
        [\<lparr>cv_conversation_id = peer, cv_peer_device_id = peer, cv_created_at = now\<rparr>]\<rparr>))"

definition insert_message ::
    "string \<Rightarrow> string \<Rightarrow> string \<Rightarrow> string \<Rightarrow> string \<Rightarrow> u64 \<Rightarrow> string \<Rightarrow> storage \<Rightarrow> unit res \<times> storage" where
  "insert_message mid conv sender body ty sent_at status db =
     (if has_row ms_message_id mid (messages db) then (Inl (unique_failed ''messages.message_id''), db)
      else if \<not> has_row cv_conversation_id conv (conversations db) then (Inl foreign_key_failed, db)
      else (Inr (), db\<lparr>messages := messages db @
        [\<lparr>ms_message_id = mid, ms_conversation_id = conv, ms_sender_device_id = sender,
          ms_body = ascii_bytes body, ms_type = ty, ms_sent_at = as_i64 sent_at,
          ms_delivered_at = None, ms_read_at = None, ms_status = status\<rparr>]\<rparr>))"

definition mark_message_delivered :: "string \<Rightarrow> u64 \<Rightarrow> storage \<Rightarrow> unit res \<times> storage" where
  "mark_message_delivered mid at_unix db =
     (Inr (), db\<lparr>messages := update_where ms_message_id mid
        (\<lambda>r. r\<lparr>ms_delivered_at := Some (as_i64 at_unix), ms_status := ''delivered''\<rparr>) (messages db)\<rparr>)"

definition mark_message_read :: "string \<Rightarrow> u64 \<Rightarrow> storage \<Rightarrow> unit res \<times> storage" where
  "mark_message_read mid at_unix db =
     (Inr (), db\<lparr>messages := update_where ms_message_id mid
        (\<lambda>r. r\<lparr>ms_read_at := Some (as_i64 at_unix), ms_status := ''read''\<rparr>) (messages db)\<rparr>)"

record stored_message =
  sm_message_id :: string
  sm_conversation_id :: string
  sm_sender_device_id :: string
  sm_body :: string
  sm_msg_type :: string
  sm_sent_at :: int
  sm_delivered_at :: "int option"
  sm_read_at :: "int option"
  sm_status :: string

text \<open>\<open>from_utf8_lossy\<close> on the bytes of a text, the only thing the column holds.\<close>

definition text_of_bytes :: "bytes \<Rightarrow> string" where
  "text_of_bytes b = map (\<lambda>w. char_of (unat w)) b"

definition to_message :: "message_row \<Rightarrow> stored_message" where
  "to_message r =
     \<lparr>sm_message_id = ms_message_id r, sm_conversation_id = ms_conversation_id r,
      sm_sender_device_id = ms_sender_device_id r, sm_body = text_of_bytes (ms_body r),
      sm_msg_type = ms_type r, sm_sent_at = ms_sent_at r, sm_delivered_at = ms_delivered_at r,
      sm_read_at = ms_read_at r, sm_status = ms_status r\<rparr>"

text \<open>\<open>newest_first\<close> stands for \<open>ORDER BY sent_at DESC\<close>: SQL leaves the order of equal times open.\<close>

definition load_conversation_history ::
    "(message_row list \<Rightarrow> message_row list) \<Rightarrow> string \<Rightarrow> u32 \<Rightarrow> storage \<Rightarrow> stored_message list res" where
  "load_conversation_history newest_first conv limit db =
     (let rows = take (unat limit) (newest_first (filter (\<lambda>r. ms_conversation_id r = conv) (messages db)))
      in Inr (rev (map to_message rows)))"

definition list_conversations ::
    "(conversation_row list \<Rightarrow> conversation_row list) \<Rightarrow> storage \<Rightarrow> (string \<times> string) list res" where
  "list_conversations newest_first db =
     Inr (map (\<lambda>r. (cv_conversation_id r, cv_peer_device_id r)) (newest_first (conversations db)))"

subsection \<open>Transfers\<close>

definition create_transfer ::
    "int \<Rightarrow> string \<Rightarrow> string \<Rightarrow> string \<Rightarrow> u64 \<Rightarrow> string \<Rightarrow> u64 \<Rightarrow> u64 \<Rightarrow> string \<Rightarrow> string \<Rightarrow> storage \<Rightarrow>
      unit res \<times> storage" where
  "create_transfer now tid mid name fsize mime total_chunks chunk_size direction path db =
     (if has_row tr_transfer_id tid (file_transfers db)
      then (Inl (unique_failed ''file_transfers.transfer_id''), db)
      else if \<not> has_row ms_message_id mid (messages db) then (Inl foreign_key_failed, db)
      else (Inr (), db\<lparr>file_transfers := file_transfers db @
        [\<lparr>tr_transfer_id = tid, tr_message_id = mid, tr_file_name = name, tr_file_size = as_i64 fsize,
          tr_mime_type = mime, tr_total_chunks = as_i64 total_chunks, tr_chunk_size = as_i64 chunk_size,
          tr_direction = direction, tr_state = ''queued'', tr_bytes_transferred = 0, tr_local_path = path,
          tr_started_at = now, tr_updated_at = now\<rparr>]\<rparr>))"

definition update_transfer_state :: "int \<Rightarrow> string \<Rightarrow> string \<Rightarrow> u64 \<Rightarrow> storage \<Rightarrow> unit res \<times> storage" where
  "update_transfer_state now tid state bytes_transferred db =
     (Inr (), db\<lparr>file_transfers := update_where tr_transfer_id tid
        (\<lambda>r. r\<lparr>tr_state := state, tr_bytes_transferred := as_i64 bytes_transferred, tr_updated_at := now\<rparr>)
        (file_transfers db)\<rparr>)"

abbreviation mf_key :: "manifest_row \<Rightarrow> string \<times> int" where
  "mf_key r \<equiv> (mf_transfer_id r, mf_chunk_index r)"

definition db_mark_chunk_acked :: "string \<Rightarrow> u64 \<Rightarrow> storage \<Rightarrow> unit res \<times> storage" where
  "db_mark_chunk_acked tid i db =
     (if has_row mf_key (tid, as_i64 i) (chunk_manifest db)
      then (Inr (), db\<lparr>chunk_manifest :=
        update_where mf_key (tid, as_i64 i) (\<lambda>r. r\<lparr>mf_acked := 1\<rparr>) (chunk_manifest db)\<rparr>)
      else if \<not> has_row tr_transfer_id tid (file_transfers db) then (Inl foreign_key_failed, db)
      else (Inr (), db\<lparr>chunk_manifest := chunk_manifest db @
        [\<lparr>mf_transfer_id = tid, mf_chunk_index = as_i64 i, mf_acked = 1\<rparr>]\<rparr>))"

definition load_acked_chunks :: "string \<Rightarrow> storage \<Rightarrow> u64 set res" where
  "load_acked_chunks tid db =
     Inr (set (map (\<lambda>r. as_u64 (mf_chunk_index r))
       (filter (\<lambda>r. mf_transfer_id r = tid \<and> mf_acked r = 1) (chunk_manifest db))))"

definition load_transfer_meta :: "string \<Rightarrow> storage \<Rightarrow> (string \<times> u64 \<times> string) option res" where
  "load_transfer_meta tid db =
     Inr (map_option (\<lambda>r. (tr_file_name r, as_u64 (tr_file_size r), tr_local_path r))
       (row_where tr_transfer_id tid (file_transfers db)))"

definition resumable_state :: "string \<Rightarrow> bool" where
  "resumable_state s \<longleftrightarrow> s \<in> set [''active'', ''paused'', ''queued'']"

text \<open>The join on the message; its rows come in the order of the outer table.\<close>

definition join_rows :: "storage \<Rightarrow> transfer_row \<Rightarrow> (string \<times> string \<times> string \<times> string) list" where
  "join_rows db ft =
     map (\<lambda>m. (tr_transfer_id ft, ms_conversation_id m, tr_direction ft, tr_local_path ft))
       (filter (\<lambda>m. tr_message_id ft = ms_message_id m) (messages db))"

definition list_resumable_transfers_with_peer :: "storage \<Rightarrow> (string \<times> string \<times> string \<times> string) list res" where
  "list_resumable_transfers_with_peer db =
     Inr (concat (map (join_rows db) (filter (\<lambda>ft. resumable_state (tr_state ft)) (file_transfers db))))"

definition list_resumable_transfers :: "storage \<Rightarrow> string list res" where
  "list_resumable_transfers db =
     Inr (map tr_transfer_id (filter (\<lambda>ft. resumable_state (tr_state ft)) (file_transfers db)))"

subsection \<open>Devices\<close>

definition upsert_known_device :: "int \<Rightarrow> string \<Rightarrow> string \<Rightarrow> bytes \<Rightarrow> bool \<Rightarrow> storage \<Rightarrow> unit res \<times> storage" where
  "upsert_known_device now did name key trusted db =
     (if has_row dv_device_id did (devices db)
      then (Inr (), db\<lparr>devices := update_where dv_device_id did
        (\<lambda>r. r\<lparr>dv_display_name := name, dv_last_seen_at := now\<rparr>) (devices db)\<rparr>)
      else (Inr (), db\<lparr>devices := devices db @
        [\<lparr>dv_device_id = did, dv_display_name = name, dv_public_key = key, dv_last_seen_at = now,
          dv_trusted = (if trusted then 1 else 0)\<rparr>]\<rparr>))"

definition load_device_public_key :: "string \<Rightarrow> storage \<Rightarrow> bytes option res" where
  "load_device_public_key did db = Inr (map_option dv_public_key (row_where dv_device_id did (devices db)))"

section \<open>The invariant of the database\<close>

text \<open>Primary keys are unique and every reference finds its row.\<close>

definition keys_unique :: "storage \<Rightarrow> bool" where
  "keys_unique db \<longleftrightarrow>
     distinct (map dv_device_id (devices db)) \<and>
     distinct (map cv_conversation_id (conversations db)) \<and>
     distinct (map ms_message_id (messages db)) \<and>
     distinct (map tr_transfer_id (file_transfers db)) \<and>
     distinct (map mf_key (chunk_manifest db))"

definition references_ok :: "storage \<Rightarrow> bool" where
  "references_ok db \<longleftrightarrow>
     cv_peer_device_id ` set (conversations db) \<subseteq> dv_device_id ` set (devices db) \<and>
     ms_conversation_id ` set (messages db) \<subseteq> cv_conversation_id ` set (conversations db) \<and>
     tr_message_id ` set (file_transfers db) \<subseteq> ms_message_id ` set (messages db) \<and>
     mf_transfer_id ` set (chunk_manifest db) \<subseteq> tr_transfer_id ` set (file_transfers db)"

definition storage_wf :: "storage \<Rightarrow> bool" where
  "storage_wf db \<longleftrightarrow> keys_unique db \<and> references_ok db"

text \<open>One call of any operation that writes.\<close>

inductive storage_step :: "storage \<Rightarrow> storage \<Rightarrow> bool" where
  "storage_step db (snd (save_identity i db))"
| "storage_step db (snd (get_or_create_conversation now peer db))"
| "storage_step db (snd (insert_message mid conv sender body ty sent_at status db))"
| "storage_step db (snd (mark_message_delivered mid at_unix db))"
| "storage_step db (snd (mark_message_read mid at_unix db))"
| "storage_step db (snd (create_transfer now tid mid name fsize mime total_chunks chunk_size direction path db))"
| "storage_step db (snd (update_transfer_state now tid state transferred db))"
| "storage_step db (snd (db_mark_chunk_acked tid i db))"
| "storage_step db (snd (upsert_known_device now did name key trusted db))"

inductive_cases storage_stepE: "storage_step db db'"

subsection \<open>Rows and keys\<close>

lemma has_row_append [store_simps]: "has_row key k (rows @ [r]) \<longleftrightarrow> has_row key k rows \<or> key r = k"
  by (auto simp: has_row_def)

lemma has_row_Cons: "has_row key k (r # rows) \<longleftrightarrow> key r = k \<or> has_row key k rows"
  by (auto simp: has_row_def)

lemma update_where_Cons:
  "update_where key k f (r # rows) = (if key r = k then f r else r) # update_where key k f rows"
  by (simp add: update_where_def)

lemma has_row_iff: "has_row key k rows \<longleftrightarrow> k \<in> key ` set rows"
  by (simp add: has_row_def)

lemma map_update_where [store_simps]:
  "(\<And>r. g (f r) = g r) \<Longrightarrow> map g (update_where key k f rows) = map g rows"
  by (simp add: update_where_def)

lemma image_update_where [store_simps]:
  "(\<And>r. g (f r) = g r) \<Longrightarrow> g ` set (update_where key k f rows) = g ` set rows"
  by (metis list.set_map map_update_where)

lemma has_row_update_where [store_simps]:
  "(\<And>r. g (f r) = g r) \<Longrightarrow> has_row g k' (update_where key k f rows) = has_row g k' rows"
  by (simp add: has_row_def map_update_where del: set_map)

lemma row_where_update_where [store_simps]:
  assumes "\<And>r. key (f r) = key r"
  shows "row_where key k' (update_where key k f rows) =
    (if k' = k then map_option f (row_where key k rows) else row_where key k' rows)"
  unfolding row_where_def update_where_def
  by (induction rows) (auto simp: assms)

lemma row_where_append [store_simps]:
  "row_where key k (rows @ [r]) =
    (case row_where key k rows of Some x \<Rightarrow> Some x | None \<Rightarrow> if key r = k then Some r else None)"
  unfolding row_where_def by (induction rows) auto

lemma row_where_None: "row_where key k rows = None \<longleftrightarrow> \<not> has_row key k rows"
  unfolding row_where_def has_row_def by (induction rows) auto

lemma row_where_unique:
  "distinct (map key rows) \<Longrightarrow> row_where key k rows = Some r \<longleftrightarrow> r \<in> set rows \<and> key r = k"
  unfolding row_where_def by (induction rows) (auto simp: image_iff)

lemmas wf_defs = storage_wf_def keys_unique_def references_ok_def

subsection \<open>Every operation keeps the invariant\<close>

lemma save_identity_wf [preserves]: "storage_wf db \<Longrightarrow> storage_wf (snd (save_identity i db))"
  by (simp add: save_identity_def wf_defs)

lemma get_or_create_conversation_wf [preserves]:
  "storage_wf db \<Longrightarrow> storage_wf (snd (get_or_create_conversation now peer db))"
  by (auto simp: get_or_create_conversation_def wf_defs has_row_iff)

lemma insert_message_wf [preserves]:
  "storage_wf db \<Longrightarrow> storage_wf (snd (insert_message mid conv sender body ty sent_at status db))"
  by (auto simp: insert_message_def wf_defs has_row_iff)

lemma mark_message_delivered_wf [preserves]:
  "storage_wf db \<Longrightarrow> storage_wf (snd (mark_message_delivered mid at_unix db))"
  by (simp add: mark_message_delivered_def wf_defs store_simps)

lemma mark_message_read_wf [preserves]:
  "storage_wf db \<Longrightarrow> storage_wf (snd (mark_message_read mid at_unix db))"
  by (simp add: mark_message_read_def wf_defs store_simps)

lemma create_transfer_wf [preserves]:
  "storage_wf db \<Longrightarrow>
    storage_wf (snd (create_transfer now tid mid name fsize mime total_chunks chunk_size direction path db))"
  by (auto simp: create_transfer_def wf_defs has_row_iff)

lemma update_transfer_state_wf [preserves]:
  "storage_wf db \<Longrightarrow> storage_wf (snd (update_transfer_state now tid state transferred db))"
  by (simp add: update_transfer_state_def wf_defs store_simps)

lemma db_mark_chunk_acked_wf [preserves]:
  "storage_wf db \<Longrightarrow> storage_wf (snd (db_mark_chunk_acked tid i db))"
  by (auto simp: db_mark_chunk_acked_def wf_defs has_row_iff store_simps)

lemma upsert_known_device_wf [preserves]:
  "storage_wf db \<Longrightarrow> storage_wf (snd (upsert_known_device now did name key trusted db))"
  by (auto simp: upsert_known_device_def wf_defs has_row_iff store_simps)

lemma empty_storage_wf [simp]: "storage_wf empty_storage"
  by (simp add: wf_defs empty_storage_def)

lemma storage_step_wf: "storage_step db db' \<Longrightarrow> storage_wf db \<Longrightarrow> storage_wf db'"
  by (induction rule: storage_step.induct) (rule preserves, assumption)+

subsection \<open>Bookkeeping of transfers\<close>

text \<open>What the connection manager does to the database while sessions stay as they are: only the two tables of
  transfers change.\<close>

definition transfers_only :: "storage \<Rightarrow> storage \<Rightarrow> bool" where
  "transfers_only db db' \<longleftrightarrow>
     (storage_wf db \<longrightarrow> storage_wf db') \<and> self_identity db' = self_identity db \<and> devices db' = devices db \<and>
     conversations db' = conversations db \<and> messages db' = messages db"

lemma transfers_only [preserves]:
  "transfers_only db (snd (create_transfer now tid mid name fsize mime total_chunks chunk_size direction path db))"
  "transfers_only db (snd (update_transfer_state now tid state transferred db))"
  "transfers_only db (snd (db_mark_chunk_acked tid i db))"
  by (simp_all add: transfers_only_def create_transfer_wf update_transfer_state_wf db_mark_chunk_acked_wf)
    (simp_all add: create_transfer_def update_transfer_state_def db_mark_chunk_acked_def)

interpretation database: machine "\<lambda>db. db = empty_storage" storage_step storage_wf
  by unfold_locales (simp_all add: storage_step_wf)

section \<open>Acked chunks as an interface\<close>

text \<open>
  Both the manifest table and the in-memory handle record which chunks of a transfer are done.  What
  resuming needs of either: an ack adds its chunk to its own transfer and touches no other, as long as
  the transfer is known, and acks do not change what is known.
\<close>

locale chunk_ledger =
  fixes acked_of :: "'s \<Rightarrow> 'k \<Rightarrow> u64 set"
    and ack :: "'k \<Rightarrow> u64 \<Rightarrow> 's \<Rightarrow> 's"
    and known :: "'s \<Rightarrow> 'k \<Rightarrow> bool"
  assumes acked_ack: "known s k \<Longrightarrow> acked_of (ack k i s) k' = (if k' = k then insert i (acked_of s k) else acked_of s k')"
    and known_ack: "known (ack k i s) k' = known s k'"
begin

lemma known_acks: "known (fold (ack k) is s) k' = known s k'"
  by (induction "is" arbitrary: s) (simp_all add: known_ack)

lemma acked_acks: "known s k \<Longrightarrow> acked_of (fold (ack k) is s) k = acked_of s k \<union> set is"
  by (induction "is" arbitrary: s) (auto simp: acked_ack known_ack)

lemma acked_acks_other: "known s k \<Longrightarrow> k' \<noteq> k \<Longrightarrow> acked_of (fold (ack k) is s) k' = acked_of s k'"
  by (induction "is" arbitrary: s) (simp_all add: acked_ack known_ack)

lemma ack_order_irrelevant:
  "known s k \<Longrightarrow> set is = set js \<Longrightarrow> acked_of (fold (ack k) is s) k = acked_of (fold (ack k) js s) k"
  by (simp add: acked_acks)

end

definition acked_in :: "manifest_row list \<Rightarrow> string \<Rightarrow> u64 set" where
  "acked_in rows tid =
     set (map (\<lambda>r. as_u64 (mf_chunk_index r)) (filter (\<lambda>r. mf_transfer_id r = tid \<and> mf_acked r = 1) rows))"

definition acked_rows :: "storage \<Rightarrow> string \<Rightarrow> u64 set" where
  "acked_rows db tid = acked_in (chunk_manifest db) tid"

lemma load_acked_chunks_rows: "load_acked_chunks tid db = Inr (acked_rows db tid)"
  by (simp add: load_acked_chunks_def acked_rows_def acked_in_def)

lemma acked_in_append [store_simps]:
  "acked_in (rows @ [\<lparr>mf_transfer_id = t, mf_chunk_index = as_i64 i, mf_acked = 1\<rparr>]) tid =
    acked_in rows tid \<union> (if tid = t then {i} else {})"
  by (auto simp: acked_in_def)

lemma acked_in_update [store_simps]:
  "acked_in (update_where mf_key (t, as_i64 i) (\<lambda>r. r\<lparr>mf_acked := 1\<rparr>) rows) tid =
    acked_in rows tid \<union> (if tid = t \<and> has_row mf_key (t, as_i64 i) rows then {i} else {})"
proof (induction rows)
  case Nil
  then show ?case by (simp add: acked_in_def update_where_def has_row_def)
next
  case (Cons r rows)
  have cons: "acked_in (q # qs) tid =
      (if mf_transfer_id q = tid \<and> mf_acked q = 1 then insert (as_u64 (mf_chunk_index q)) (acked_in qs tid)
       else acked_in qs tid)" for q qs
    by (simp add: acked_in_def)
  show ?case
  proof (cases "mf_key r = (t, as_i64 i)")
    case True
    then show ?thesis using Cons by (simp add: cons update_where_Cons has_row_Cons) (auto split: if_splits)
  next
    case False
    then show ?thesis using Cons by (simp only: cons update_where_Cons has_row_Cons if_False) simp
  qed
qed

definition db_ack :: "string \<Rightarrow> u64 \<Rightarrow> storage \<Rightarrow> storage" where
  "db_ack tid i db = snd (db_mark_chunk_acked tid i db)"

definition has_transfer :: "storage \<Rightarrow> string \<Rightarrow> bool" where
  "has_transfer db tid \<longleftrightarrow> has_row tr_transfer_id tid (file_transfers db)"

lemma acked_rows_db_ack:
  "has_transfer db tid \<Longrightarrow>
    acked_rows (db_ack tid i db) tid' =
      (if tid' = tid then insert i (acked_rows db tid) else acked_rows db tid')"
  by (simp add: db_ack_def db_mark_chunk_acked_def acked_rows_def has_transfer_def store_simps)

interpretation manifest: chunk_ledger acked_rows db_ack has_transfer
  by unfold_locales
    (simp_all add: acked_rows_db_ack, simp add: db_ack_def db_mark_chunk_acked_def has_transfer_def)

interpretation live: chunk_ledger "\<lambda>h (_ :: unit). acked_chunk_set h"
    "\<lambda>_ i h. mark_chunk_acked now i (len i) h" "\<lambda>_ _. True"
  by unfold_locales (auto simp: mark_chunk_acked_def acked_chunk_set_def record_speed_sample_def Let_def)

section \<open>Properties\<close>

text \<open>C12: whatever sequence of calls has been made on a new database, primary keys are unique and every
  foreign key finds its row.\<close>

theorem storage_integrity:
  assumes "storage_step\<^sup>*\<^sup>* empty_storage db"
  shows "keys_unique db \<and> references_ok db"
  using database.reachable_inv [OF refl assms] by (simp add: storage_wf_def)

theorem storage_integrity_witness:
  "\<exists>db. length (messages db) = 1 \<and> keys_unique db \<and> references_ok db"
proof -
  let ?a = "snd (upsert_known_device 9 ''bob'' ''bob'' [1] False empty_storage)"
  let ?b = "snd (get_or_create_conversation 9 ''bob'' ?a)"
  let ?c = "snd (insert_message ''m'' ''bob'' ''me'' ''hi'' ''text'' 5 ''sent'' ?b)"
  have "storage_step\<^sup>*\<^sup>* empty_storage ?c"
    by (meson storage_step.intros rtranclp.rtrancl_into_rtrancl rtranclp.rtrancl_refl)
  from storage_integrity [OF this] show ?thesis
    by (intro exI [of _ ?c])
      (simp add: insert_message_def get_or_create_conversation_def upsert_known_device_def empty_storage_def
        has_row_def)
qed

text \<open>\<open>load_or_create_identity\<close> on a database without an identity creates one from the seed; once a
  call has returned an identity, every later load or load-or-create on that database returns the same
  one and writes nothing.\<close>

lemma identity_created_once:
  assumes "length seed = 32" and "\<And>b. length (sha512 c b) = 64"
  shows "(self_identity db = None \<longrightarrow> fst (load_or_create_identity c seed db) = Inr (generate c seed)) \<and>
    (load_or_create_identity c seed db = (Inr i, db') \<longrightarrow>
      load_identity c db' = Inr (Some i) \<and> load_or_create_identity c seed' db' = (Inr i, db'))"
proof -
  have stored: "load_identity c (db\<lparr>self_identity := Some (to_stored (generate c seed))\<rparr>) = Inr (Some (generate c seed))"
    using assms(1) assms(2) [of "seed @ ascii_bytes ''zao-p2p-noise-static-v1''"]
    by (simp add: load_identity_def from_stored_to_stored)
      (simp add: to_stored_def generate_def derive_noise_static_def)
  have "load_identity c db' = Inr (Some i)" if "load_or_create_identity c seed db = (Inr i, db')"
    using that stored
    by (auto simp: load_or_create_identity_def save_identity_def Let_def split: sum.splits option.splits)
  then show ?thesis
    by (auto simp: load_or_create_identity_def save_identity_def load_identity_def Let_def)
qed

theorem identity_created_once_witness:
  "\<exists>db'. load_or_create_identity toy_crypto (replicate 32 7) empty_storage =
      (Inr (generate toy_crypto (replicate 32 7)), db') \<and>
    load_identity toy_crypto db' = Inr (Some (generate toy_crypto (replicate 32 7))) \<and>
    load_or_create_identity toy_crypto [] db' = (Inr (generate toy_crypto (replicate 32 7)), db')"
proof -
  have "length (sha512 toy_crypto b) = 64" for b by (simp add: toy_crypto_def)
  note once = identity_created_once [of "replicate 32 7" toy_crypto empty_storage, OF length_replicate this]
  obtain r db' where r: "load_or_create_identity toy_crypto (replicate 32 7) empty_storage = (r, db')"
    by (rule prod.exhaust)
  have "self_identity empty_storage = None" by (simp add: empty_storage_def)
  with once [THEN conjunct1] r have "r = Inr (generate toy_crypto (replicate 32 7))" by simp
  with r once [THEN conjunct2] show ?thesis by blast
qed

lemma text_of_ascii_bytes [simp]: "text_of_bytes (ascii_bytes s) = s"
proof -
  have "char_of (unat (of_nat (of_char ch) :: u8)) = ch" for ch
    using char_of_char [of ch] of_char_of [where 'a = nat]
    by (simp add: unat_of_nat_u8)
  then show ?thesis by (induction s) (simp_all add: text_of_bytes_def ascii_bytes_def)
qed

text \<open>What SQL promises of \<open>ORDER BY sent_at DESC\<close>.\<close>

definition orders_newest_first :: "(message_row list \<Rightarrow> message_row list) \<Rightarrow> bool" where
  "orders_newest_first ord \<longleftrightarrow>
     (\<forall>rows. mset (ord rows) = mset rows \<and> sorted_wrt (\<lambda>a b. ms_sent_at b \<le> ms_sent_at a) (ord rows))"

text \<open>The history of a conversation is the window of its most recent messages: as many as the limit
  allows, oldest first, and no message left out is newer than one shown.\<close>

lemma history_is_latest_window:
  assumes "orders_newest_first ord" and "load_conversation_history ord conv limit db = Inr shown"
  shows "sorted (map sm_sent_at shown) \<and>
    length shown = min (unat limit) (length (filter (\<lambda>r. ms_conversation_id r = conv) (messages db))) \<and>
    (\<exists>older. mset (map to_message (filter (\<lambda>r. ms_conversation_id r = conv) (messages db))) = mset shown + mset older \<and>
       (\<forall>a \<in> set older. \<forall>b \<in> set shown. sm_sent_at a \<le> sm_sent_at b))"
proof -
  let ?rows = "filter (\<lambda>r. ms_conversation_id r = conv) (messages db)"
  let ?n = "unat limit"
  have ord: "mset (ord ?rows) = mset ?rows" "sorted_wrt (\<lambda>a b. ms_sent_at b \<le> ms_sent_at a) (ord ?rows)"
    using assms(1) by (simp_all add: orders_newest_first_def)
  have shown: "shown = rev (map to_message (take ?n (ord ?rows)))"
    using assms(2) by (simp add: load_conversation_history_def)
  have split: "sorted_wrt (\<lambda>a b. ms_sent_at b \<le> ms_sent_at a) (take ?n (ord ?rows) @ drop ?n (ord ?rows))"
    using ord(2) by simp
  have "sorted (map sm_sent_at shown)"
    using split unfolding sorted_wrt_append
    by (simp add: shown sorted_wrt_rev sorted_wrt_map to_message_def rev_map [symmetric])
  moreover have "length shown = min ?n (length ?rows)"
    using mset_eq_length [OF ord(1)] by (simp add: shown min.commute)
  moreover have "mset (map to_message ?rows) = mset shown + mset (map to_message (drop ?n (ord ?rows)))"
  proof -
    have "mset (map to_message ?rows) = image_mset to_message (mset (take ?n (ord ?rows) @ drop ?n (ord ?rows)))"
      using ord(1) by simp
    then show ?thesis by (simp only: mset_append image_mset_union shown mset_rev mset_map)
  qed
  moreover have "\<forall>a \<in> set (map to_message (drop ?n (ord ?rows))). \<forall>b \<in> set shown. sm_sent_at a \<le> sm_sent_at b"
    using split unfolding sorted_wrt_append by (auto simp: shown to_message_def)
  ultimately show ?thesis by blast
qed

lemma stable_sort_newest: "orders_newest_first (\<lambda>rows. rev (sort_key ms_sent_at rows))"
proof -
  have "sorted_wrt (\<lambda>a b. ms_sent_at b \<le> ms_sent_at a) (rev (sort_key ms_sent_at rows))"
    for rows :: "message_row list"
    using sorted_sort_key [of ms_sent_at rows] by (simp add: sorted_wrt_rev sorted_map)
  then show ?thesis by (simp add: orders_newest_first_def)
qed

definition chat_row :: "string \<Rightarrow> string \<Rightarrow> int \<Rightarrow> message_row" where
  "chat_row mid conv t = \<lparr>ms_message_id = mid, ms_conversation_id = conv, ms_sender_device_id = conv,
     ms_body = ascii_bytes ''hi'', ms_type = ''text'', ms_sent_at = t, ms_delivered_at = None,
     ms_read_at = None, ms_status = ''sent''\<rparr>"

theorem history_is_latest_window_witness:
  "\<exists>shown. load_conversation_history (\<lambda>rows. rev (sort_key ms_sent_at rows)) ''bob'' 2
      (empty_storage\<lparr>messages := [chat_row ''m1'' ''bob'' 30, chat_row ''m2'' ''bob'' 10,
        chat_row ''m3'' ''eve'' 40, chat_row ''m4'' ''bob'' 20]\<rparr>) = Inr shown \<and>
    map sm_message_id shown = [''m4'', ''m1''] \<and> sorted (map sm_sent_at shown)"
proof -
  let ?db = "empty_storage\<lparr>messages := [chat_row ''m1'' ''bob'' 30, chat_row ''m2'' ''bob'' 10,
        chat_row ''m3'' ''eve'' 40, chat_row ''m4'' ''bob'' 20]\<rparr>"
  obtain shown where s:
      "load_conversation_history (\<lambda>rows. rev (sort_key ms_sent_at rows)) ''bob'' 2 ?db = Inr shown"
      "map sm_message_id shown = [''m4'', ''m1'']"
    by (simp add: load_conversation_history_def chat_row_def to_message_def)
  then have "sorted (map sm_sent_at shown)"
    using history_is_latest_window [OF stable_sort_newest s(1)] by (elim conjE)
  with s show ?thesis by (intro exI conjI)
qed

text \<open>C25: resuming from the database and carrying on in memory agree.  A transfer that is in the table gets
  the acks \<open>acks\<close>, in any order and with repetitions, in the database and on its live handle; if both had
  the same chunks before, the handle rebuilt from the manifest has the same chunks left to send, in the
  same order, and the manifests of other transfers are as they were.\<close>

theorem resume_agrees_with_live_handle:
  fixes h :: transfer_handle
  assumes "has_transfer db tid" and "load_acked_chunks tid db = Inr (acked_chunk_set h)"
    and "th_total_chunks h = div_ceil total_bytes (of_nat CHUNK_SIZE)"
    and "db' = fold (db_ack tid) acks db"
    and "h' = fold (\<lambda>i h. mark_chunk_acked now i (len i) h) acks h"
  shows "\<exists>stored. load_acked_chunks tid db' = Inr stored \<and> stored = acked_chunk_set h \<union> set acks \<and>
    pending_chunk_indices (resume_from_manifest now' tid name total_bytes stored) = pending_chunk_indices h' \<and>
    (\<forall>other. other \<noteq> tid \<longrightarrow> load_acked_chunks other db' = load_acked_chunks other db)"
proof -
  have h: "acked_chunk_set h' = acked_chunk_set h \<union> set acks"
    unfolding assms(5) using live.acked_acks [where s = h] by simp
  have total: "th_total_chunks (fold (\<lambda>i h. mark_chunk_acked now i (len i) h) acks h) = th_total_chunks h" for h
    by (induction acks arbitrary: h) (simp_all add: mark_chunk_acked_def record_speed_sample_def Let_def)
  then have "pending_chunk_indices (resume_from_manifest now' tid name total_bytes (acked_chunk_set h'))
      = pending_chunk_indices h'"
    using assms(3)
    by (simp add: assms(5) pending_chunk_indices_def resume_from_manifest_def handle_new_def
        acked_chunk_set_def Let_def)
  moreover have "load_acked_chunks tid db' = Inr (acked_chunk_set h')"
    using manifest.acked_acks [OF assms(1)] assms(2) h by (simp add: load_acked_chunks_rows assms(4))
  moreover have "load_acked_chunks other db' = load_acked_chunks other db" if "other \<noteq> tid" for other
    using manifest.acked_acks_other [OF assms(1) that] by (simp add: load_acked_chunks_rows assms(4))
  ultimately show ?thesis using h by blast
qed

definition sample_transfer :: transfer_row where
  "sample_transfer = \<lparr>tr_transfer_id = ''t'', tr_message_id = ''m'', tr_file_name = ''f'',
     tr_file_size = 3 * int CHUNK_SIZE, tr_mime_type = ''a/b'', tr_total_chunks = 3,
     tr_chunk_size = int CHUNK_SIZE, tr_direction = ''outgoing'', tr_state = ''active'',
     tr_bytes_transferred = 0, tr_local_path = ''/f'', tr_started_at = 0, tr_updated_at = 0\<rparr>"

theorem resume_agrees_with_live_handle_witness:
  "\<exists>stored. load_acked_chunks ''t'' (fold (db_ack ''t'') [2, 0, 2] (empty_storage\<lparr>file_transfers := [sample_transfer]\<rparr>)) =
      Inr stored \<and>
    pending_chunk_indices (resume_from_manifest 5 ''t'' ''f'' (of_nat (3 * CHUNK_SIZE)) stored) =
      pending_chunk_indices (fold (\<lambda>i h. mark_chunk_acked 9 i 7 h) [2, 0, 2]
        (handle_new 0 ''t'' ''f'' (of_nat (3 * CHUNK_SIZE))))"
proof -
  let ?db = "empty_storage\<lparr>file_transfers := [sample_transfer]\<rparr>"
  let ?h = "handle_new 0 ''t'' ''f'' (of_nat (3 * CHUNK_SIZE))"
  have 1: "has_transfer ?db ''t''" by (simp add: has_transfer_def has_row_def sample_transfer_def)
  have 2: "load_acked_chunks ''t'' ?db = Inr (acked_chunk_set ?h)"
    by (simp add: load_acked_chunks_def empty_storage_def acked_chunk_set_def handle_new_def)
  have 3: "th_total_chunks ?h = div_ceil (of_nat (3 * CHUNK_SIZE)) (of_nat CHUNK_SIZE)"
    by (simp add: handle_new_def)
  show ?thesis
    using resume_agrees_with_live_handle [OF 1 2 3 refl refl, where now = 9 and len = "\<lambda>_. 7" and
      acks = "[2, 0, 2]" and now' = 5 and name = "''f''"] by blast
qed

lemma the_message_of:
  assumes "storage_wf db" and "ft \<in> set (file_transfers db)"
  shows "\<exists>m. filter (\<lambda>m. tr_message_id ft = ms_message_id m) (messages db) = [m] \<and> ms_message_id m = tr_message_id ft"
proof -
  have "tr_message_id ft \<in> ms_message_id ` set (messages db)" and d: "distinct (map ms_message_id (messages db))"
    using assms by (auto simp: wf_defs)
  then show ?thesis
  proof (induction "messages db" arbitrary: db)
    case Nil
    then show ?case by simp
  next
    case (Cons m ms)
    have none: "filter (\<lambda>m'. ms_message_id m = ms_message_id m') ms = []"
      using Cons.prems(2) Cons.hyps(2) [symmetric] by (auto simp: filter_empty_conv image_iff)
    show ?case
    proof (cases "tr_message_id ft = ms_message_id m")
      case True
      then show ?thesis using none Cons.hyps(2) [symmetric] by simp
    next
      case False
      with Cons.prems Cons.hyps(2) [symmetric] Cons.hyps(1) [of "db\<lparr>messages := ms\<rparr>"] show ?thesis by simp
    qed
  qed
qed

lemma map_fst_join_rows:
  assumes "storage_wf db" and "set fts \<subseteq> set (file_transfers db)"
  shows "map fst (concat (map (join_rows db) fts)) = map tr_transfer_id fts"
  using assms(2)
proof (induction fts)
  case Nil
  then show ?case by simp
next
  case (Cons ft fts)
  with the_message_of [OF assms(1), of ft] show ?case by (auto simp: join_rows_def)
qed

text \<open>The list the reconnect logic works from has one entry for each transfer that is queued, active or
  paused, in the order of the plain list, and the entry carries the peer of the conversation the
  transfer's message belongs to.\<close>

lemma resumable_listing:
  assumes "storage_wf db"
    and "list_resumable_transfers_with_peer db = Inr xs" and "list_resumable_transfers db = Inr ids"
  shows "map fst xs = ids \<and> distinct ids \<and>
    ((tid, peer, dir, path) \<in> set xs \<longleftrightarrow>
      (\<exists>ft m. ft \<in> set (file_transfers db) \<and> m \<in> set (messages db) \<and> tr_transfer_id ft = tid \<and>
         tr_state ft \<in> {''active'', ''paused'', ''queued''} \<and> tr_message_id ft = ms_message_id m \<and>
         ms_conversation_id m = peer \<and> tr_direction ft = dir \<and> tr_local_path ft = path))"
proof (intro conjI)
  let ?fts = "filter (\<lambda>ft. resumable_state (tr_state ft)) (file_transfers db)"
  have xs: "xs = concat (map (join_rows db) ?fts)"
    using assms(2) by (simp add: list_resumable_transfers_with_peer_def)
  have ids: "ids = map tr_transfer_id ?fts"
    using assms(3) by (simp add: list_resumable_transfers_def)
  show "map fst xs = ids" by (simp add: xs ids map_fst_join_rows [OF assms(1)])
  show "distinct ids"
    using assms(1) by (simp add: ids wf_defs distinct_map_filter)
  show "(tid, peer, dir, path) \<in> set xs \<longleftrightarrow>
      (\<exists>ft m. ft \<in> set (file_transfers db) \<and> m \<in> set (messages db) \<and> tr_transfer_id ft = tid \<and>
         tr_state ft \<in> {''active'', ''paused'', ''queued''} \<and> tr_message_id ft = ms_message_id m \<and>
         ms_conversation_id m = peer \<and> tr_direction ft = dir \<and> tr_local_path ft = path)"
    unfolding xs by (auto simp: resumable_state_def join_rows_def; blast)
qed

definition sample_storage :: storage where
  "sample_storage =
     \<lparr>self_identity = None,
      devices = [\<lparr>dv_device_id = ''bob'', dv_display_name = ''bob'', dv_public_key = [1], dv_last_seen_at = 0,
        dv_trusted = 0\<rparr>],
      conversations = [\<lparr>cv_conversation_id = ''bob'', cv_peer_device_id = ''bob'', cv_created_at = 0\<rparr>],
      messages = [chat_row ''m'' ''bob'' 30], file_transfers = [sample_transfer], chunk_manifest = []\<rparr>"

lemma sample_storage_wf [simp]: "storage_wf sample_storage"
  by (simp add: wf_defs sample_storage_def chat_row_def sample_transfer_def)

theorem resumable_listing_witness:
  "(''t'', ''bob'', ''outgoing'', ''/f'') \<in> set [(''t'', ''bob'', ''outgoing'', ''/f'')] \<longleftrightarrow>
    (\<exists>ft m. ft \<in> set (file_transfers sample_storage) \<and> m \<in> set (messages sample_storage) \<and>
       tr_transfer_id ft = ''t'' \<and> tr_state ft \<in> {''active'', ''paused'', ''queued''} \<and>
       tr_message_id ft = ms_message_id m \<and> ms_conversation_id m = ''bob'' \<and>
       tr_direction ft = ''outgoing'' \<and> tr_local_path ft = ''/f'')"
proof -
  have 1: "list_resumable_transfers_with_peer sample_storage = Inr [(''t'', ''bob'', ''outgoing'', ''/f'')]"
    and 2: "list_resumable_transfers sample_storage = Inr [''t'']"
    by (simp_all add: list_resumable_transfers_with_peer_def list_resumable_transfers_def sample_storage_def
        sample_transfer_def join_rows_def chat_row_def resumable_state_def)
  show ?thesis
    by (rule resumable_listing [OF sample_storage_wf 1 2, THEN conjunct2, THEN conjunct2])
qed



text \<open>The public key recorded for a device is the one of the first record ever made of it: recording the
  device again changes its name and time only, and never another device's row.\<close>

lemma first_public_key_wins:
  "load_device_public_key did' (snd (upsert_known_device now did name key trusted db)) =
    (case load_device_public_key did' db of
       Inr None \<Rightarrow> Inr (if did' = did then Some key else None)
     | r \<Rightarrow> r)"
proof (cases "row_where dv_device_id did (devices db)")
  case None
  then have "\<not> has_row dv_device_id did (devices db)" by (simp add: row_where_None)
  then show ?thesis
    using None by (auto simp: upsert_known_device_def load_device_public_key_def store_simps split: option.splits)
next
  case (Some r)
  then have "has_row dv_device_id did (devices db)" by (metis option.distinct(1) row_where_None)
  then show ?thesis
    using Some
    by (auto simp: upsert_known_device_def load_device_public_key_def store_simps split: option.splits)
qed

lemma finished_not_listed:
  assumes "list_resumable_transfers (snd (update_transfer_state now tid state b db)) = Inr ids"
    and "\<not> resumable_state state"
  shows "tid \<notin> set ids"
proof -
  have "tid \<notin> set (map tr_transfer_id (filter (\<lambda>ft. resumable_state (tr_state ft))
      (update_where tr_transfer_id tid
        (\<lambda>r. r\<lparr>tr_state := state, tr_bytes_transferred := x, tr_updated_at := now\<rparr>) rows)))" for x rows
    using assms(2) by (induction rows) (simp_all add: update_where_def)
  from this [of "as_i64 b" "file_transfers db"] show ?thesis
    using assms(1) by (auto simp: list_resumable_transfers_def update_transfer_state_def simp del: set_map)
qed

text \<open>A created transfer is found again with its name, size and path, is queued, and is in the resumable
  list until its state is set to a final one.\<close>

lemma created_transfer_found:
  assumes "create_transfer now tid mid name fsize mime total_chunks chunk_size dir path db = (Inr (), db1)"
  shows "load_transfer_meta tid db1 = Inr (Some (name, fsize, path)) \<and>
    list_resumable_transfers db1 = map_sum id (\<lambda>ids. ids @ [tid]) (list_resumable_transfers db) \<and>
    (state \<in> {''completed'', ''failed'', ''cancelled''} \<longrightarrow>
      (\<forall>ids. list_resumable_transfers (snd (update_transfer_state now' tid state b db1)) = Inr ids \<longrightarrow> tid \<notin> set ids))"
proof -
  have new: "\<not> has_row tr_transfer_id tid (file_transfers db)"
    using assms by (auto simp: create_transfer_def split: if_splits)
  have db1: "file_transfers db1 = file_transfers db @
        [\<lparr>tr_transfer_id = tid, tr_message_id = mid, tr_file_name = name, tr_file_size = as_i64 fsize,
          tr_mime_type = mime, tr_total_chunks = as_i64 total_chunks, tr_chunk_size = as_i64 chunk_size,
          tr_direction = dir, tr_state = ''queued'', tr_bytes_transferred = 0, tr_local_path = path,
          tr_started_at = now, tr_updated_at = now\<rparr>]"
    using assms by (auto simp: create_transfer_def split: if_splits)
  have "load_transfer_meta tid db1 = Inr (Some (name, fsize, path))"
    using new by (simp add: load_transfer_meta_def db1 store_simps row_where_None [symmetric])
  moreover have "list_resumable_transfers db1 = map_sum id (\<lambda>ids. ids @ [tid]) (list_resumable_transfers db)"
    by (simp add: list_resumable_transfers_def db1 resumable_state_def)
  moreover have "state \<in> {''completed'', ''failed'', ''cancelled''} \<longrightarrow>
      (\<forall>ids. list_resumable_transfers (snd (update_transfer_state now' tid state b db1)) = Inr ids \<longrightarrow> tid \<notin> set ids)"
    by (intro impI allI, erule finished_not_listed) (auto simp: resumable_state_def)
  ultimately show ?thesis by (intro conjI)
qed

theorem created_transfer_found_witness:
  "\<exists>db1. create_transfer 5 ''t2'' ''m'' ''f2'' 9 ''a/b'' 1 8 ''outgoing'' ''/f2'' sample_storage = (Inr (), db1) \<and>
    load_transfer_meta ''t2'' db1 = Inr (Some (''f2'', 9, ''/f2'')) \<and>
    (\<forall>ids. list_resumable_transfers (snd (update_transfer_state 6 ''t2'' ''completed'' 9 db1)) = Inr ids \<longrightarrow>
       ''t2'' \<notin> set ids)"
proof -
  have "fst (create_transfer 5 ''t2'' ''m'' ''f2'' 9 ''a/b'' 1 8 ''outgoing'' ''/f2'' sample_storage) = Inr ()"
    by (simp add: create_transfer_def sample_storage_def has_row_def sample_transfer_def chat_row_def)
  then obtain db1 where c: "create_transfer 5 ''t2'' ''m'' ''f2'' 9 ''a/b'' 1 8 ''outgoing'' ''/f2'' sample_storage =
      (Inr (), db1)"
    by (metis prod.collapse)
  show ?thesis
    using created_transfer_found [OF c, of "''completed''" 6 9] c
    by (intro exI [of _ db1] conjI) simp_all
qed

end
