(* ===== verification/Signaling.thy ===== *)
theory Signaling
  imports Prelude
begin

text \<open>
  core/src/signaling.rs and core/src/signaling_client.rs: the messages of the rendezvous server, the
  client's outbound queue, the translation of its reader task into events, and the tracker of the
  sessions in flight.  JSON (\<open>serde_json\<close>) and the WebSocket (\<open>tokio_tungstenite\<close>) are not part of the
  repository: the codec is a parameter and the socket is the list of what its stream yields.
\<close>

section \<open>Messages\<close>

datatype signaling_message =
    Register string
  | RegisterAck bool "string option"
  | OfferCandidates string string "string list"
  | IncomingCandidatesMsg string string "string list"
  | CandidateResultMsg string bool
  | RequestRelay string
  | RelayReadyMsg string
  | RelayDataMsg string bytes
  | RelayClosedMsg string
  | SigPing
  | SigPong

record sig_codec =
  sig_encode :: "signaling_message \<Rightarrow> string + string"
  sig_decode :: "string \<Rightarrow> string + signaling_message"

definition to_json :: "sig_codec \<Rightarrow> signaling_message \<Rightarrow> string + string" where
  "to_json c m = sig_encode c m"

definition from_json :: "sig_codec \<Rightarrow> string \<Rightarrow> string + signaling_message" where
  "from_json c s = sig_decode c s"

text \<open>The contract of the derived implementations at a message: it encodes, and decodes to itself.\<close>

definition sig_roundtrips :: "sig_codec \<Rightarrow> signaling_message \<Rightarrow> bool" where
  "sig_roundtrips c m \<longleftrightarrow> (\<exists>s. sig_encode c m = Inr s \<and> sig_decode c s = Inr m)"

section \<open>Events\<close>

datatype signaling_event =
    Registered
  | RegisterFailed string
  | IncomingCandidates string string "string list"
  | CandidateResult string bool
  | RelayReady string
  | RelayData string bytes
  | RelayClosed string
  | Disconnected

text \<open>The event a message of the server becomes, or none.\<close>

fun event_of :: "signaling_message \<Rightarrow> signaling_event option" where
  "event_of (RegisterAck success err) =
     Some (if success then Registered
           else RegisterFailed (case err of Some e \<Rightarrow> e | None \<Rightarrow> ''unknown error''))"
| "event_of (IncomingCandidatesMsg from sid cands) = Some (IncomingCandidates from sid cands)"
| "event_of (CandidateResultMsg sid likely) = Some (CandidateResult sid likely)"
| "event_of (RelayReadyMsg sid) = Some (RelayReady sid)"
| "event_of (RelayDataMsg sid d) = Some (RelayData sid d)"
| "event_of (RelayClosedMsg sid) = Some (RelayClosed sid)"
| "event_of _ = None"

text \<open>What the socket's stream yields: a frame or an error; the end of the list is its end.\<close>

datatype ws_message = WsText string | WsClose | WsOther

datatype ws_item = WsOk ws_message | WsErr

text \<open>\<open>rx i\<close> says whether the receiver of the event channel still exists at the \<open>i\<close>-th send.\<close>

definition closing :: "(nat \<Rightarrow> bool) \<Rightarrow> nat \<Rightarrow> signaling_event list" where
  "closing rx i = (if rx i then [Disconnected] else [])"

fun ws_reader :: "sig_codec \<Rightarrow> (nat \<Rightarrow> bool) \<Rightarrow> nat \<Rightarrow> ws_item list \<Rightarrow> signaling_event list" where
  "ws_reader c rx i [] = closing rx i"
| "ws_reader c rx i (WsErr # items) = closing rx i"
| "ws_reader c rx i (WsOk WsClose # items) = closing rx i"
| "ws_reader c rx i (WsOk WsOther # items) = ws_reader c rx i items"
| "ws_reader c rx i (WsOk (WsText t) # items) =
     (case from_json c t of
        Inl _ \<Rightarrow> ws_reader c rx i items
      | Inr m \<Rightarrow>
          (case event_of m of
             None \<Rightarrow> ws_reader c rx i items
           | Some e \<Rightarrow> if rx i then e # ws_reader c rx (Suc i) items else closing rx (Suc i)))"

section \<open>The client\<close>

text \<open>What waits for the writer task, and whether that task still takes messages.\<close>

record signaling_client =
  outbound :: "string list"
  outbound_open :: bool

definition sig_send :: "sig_codec \<Rightarrow> signaling_client \<Rightarrow> signaling_message \<Rightarrow> unit res \<times> signaling_client" where
  "sig_send c cl m =
     (case map_err (\<lambda>e. InvalidState (''signaling encode failed: '' @ e)) (to_json c m) of
        Inl e \<Rightarrow> (Inl e, cl)
      | Inr json \<Rightarrow>
          if outbound_open cl then (Inr (), cl\<lparr>outbound := outbound cl @ [json]\<rparr>)
          else (Inl (InvalidState ''signaling connection closed''), cl))"

text \<open>\<open>connect\<close> once the WebSocket is up: a client whose first message registers the device.\<close>

definition sig_connect :: "sig_codec \<Rightarrow> string + unit \<Rightarrow> string \<Rightarrow> signaling_client res" where
  "sig_connect c ws device_id =
     andThen (map_err (\<lambda>e. InvalidState (''signaling connect failed: '' @ e)) ws)
       (\<lambda>_. let (r, cl) = sig_send c \<lparr>outbound = [], outbound_open = True\<rparr> (Register device_id)
             in andThen r (\<lambda>_. Inr cl))"

definition offer_candidates ::
    "sig_codec \<Rightarrow> signaling_client \<Rightarrow> string \<Rightarrow> string \<Rightarrow> string list \<Rightarrow> unit res \<times> signaling_client" where
  "offer_candidates c cl to_device sid cands = sig_send c cl (OfferCandidates to_device sid cands)"

definition request_relay :: "sig_codec \<Rightarrow> signaling_client \<Rightarrow> string \<Rightarrow> unit res \<times> signaling_client" where
  "request_relay c cl sid = sig_send c cl (RequestRelay sid)"

definition send_relay_data :: "sig_codec \<Rightarrow> signaling_client \<Rightarrow> string \<Rightarrow> bytes \<Rightarrow> unit res \<times> signaling_client" where
  "send_relay_data c cl sid d = sig_send c cl (RelayDataMsg sid d)"

fun next_event :: "signaling_event list \<Rightarrow> signaling_event option \<times> signaling_event list" where
  "next_event [] = (None, [])"
| "next_event (e # es) = (Some e, es)"

section \<open>The session tracker\<close>

type_synonym tracker = "string \<rightharpoonup> string"

definition tracker_new :: tracker where
  "tracker_new = (\<lambda>_. None)"

definition tracker_register :: "string \<Rightarrow> string \<Rightarrow> tracker \<Rightarrow> tracker" where
  "tracker_register sid peer t = t(sid \<mapsto> peer)"

definition peer_for_session :: "string \<Rightarrow> tracker \<Rightarrow> string option" where
  "peer_for_session sid t = t sid"

definition tracker_remove :: "string \<Rightarrow> tracker \<Rightarrow> tracker" where
  "tracker_remove sid t = t(sid := None)"

section \<open>Lemmas\<close>

definition frame_event :: "sig_codec \<Rightarrow> ws_item \<Rightarrow> signaling_event option" where
  "frame_event c it =
     (case it of
        WsOk (WsText t) \<Rightarrow> (case from_json c t of Inl _ \<Rightarrow> None | Inr m \<Rightarrow> event_of m)
      | _ \<Rightarrow> None)"

definition ends_stream :: "ws_item \<Rightarrow> bool" where
  "ends_stream it \<longleftrightarrow> it = WsErr \<or> it = WsOk WsClose"

lemma ends_stream_simps [simp]:
  "ends_stream WsErr" "ends_stream (WsOk WsClose)" "\<not> ends_stream (WsOk WsOther)"
  "\<not> ends_stream (WsOk (WsText t))"
  by (simp_all add: ends_stream_def)

lemma event_of_not_disconnected: "event_of m \<noteq> Some Disconnected"
  by (cases m) auto

lemma ws_reader_alive:
  "ws_reader c (\<lambda>_. True) i items =
    List.map_filter (frame_event c) (takeWhile (\<lambda>it. \<not> ends_stream it) items) @ [Disconnected]"
  by (induction c "\<lambda>_ :: nat. True" i items rule: ws_reader.induct)
    (auto simp: closing_def frame_event_def map_filter_simps split: sum.splits option.splits)

fun run_sends :: "sig_codec \<Rightarrow> signaling_client \<Rightarrow> signaling_message list \<Rightarrow> unit res list \<times> signaling_client" where
  "run_sends c cl [] = ([], cl)"
| "run_sends c cl (m # ms) =
     (let (r, cl') = sig_send c cl m; (rs, cl'') = run_sends c cl' ms in (r # rs, cl''))"

lemma sig_send_open:
  "sig_roundtrips c m \<Longrightarrow> outbound_open cl \<Longrightarrow>
    \<exists>s. sig_send c cl m = (Inr (), cl\<lparr>outbound := outbound cl @ [s]\<rparr>) \<and> from_json c s = Inr m"
  by (auto simp: sig_roundtrips_def sig_send_def to_json_def from_json_def)

lemma run_sends_open:
  "(\<And>m. m \<in> set ms \<Longrightarrow> sig_roundtrips c m) \<Longrightarrow> outbound_open cl \<Longrightarrow>
    \<exists>ss. run_sends c cl ms = (replicate (length ms) (Inr ()), cl\<lparr>outbound := outbound cl @ ss\<rparr>) \<and>
      map (from_json c) ss = map Inr ms"
proof (induction ms arbitrary: cl)
  case Nil
  then show ?case by simp
next
  case (Cons m ms)
  from sig_send_open [of c m cl] Cons.prems obtain s where
    s: "sig_send c cl m = (Inr (), cl\<lparr>outbound := outbound cl @ [s]\<rparr>)" "from_json c s = Inr m" by auto
  from Cons.IH [of "cl\<lparr>outbound := outbound cl @ [s]\<rparr>"] Cons.prems obtain ss where
    ss: "run_sends c (cl\<lparr>outbound := outbound cl @ [s]\<rparr>) ms =
        (replicate (length ms) (Inr ()), cl\<lparr>outbound := (outbound cl @ [s]) @ ss\<rparr>)"
      "map (from_json c) ss = map Inr ms" by auto
  then show ?case using s by (intro exI [of _ "s # ss"]) simp
qed

section \<open>Properties\<close>

text \<open>While the client exists, the reader task hands it one event for each text frame that decodes to a
  message with an event, in the order of the frames, skipping every other frame, up to the first
  close frame, error or end; then, once and last, the disconnection.\<close>

lemma reader_events:
  "ws_reader c (\<lambda>_. True) 0 items =
     List.map_filter (frame_event c) (takeWhile (\<lambda>it. \<not> ends_stream it) items) @ [Disconnected] \<and>
   Disconnected \<notin> set (butlast (ws_reader c (\<lambda>_. True) 0 items)) \<and>
   length (ws_reader c (\<lambda>_. True) 0 items) \<le> Suc (length items)"
proof -
  have "frame_event c it \<noteq> Some Disconnected" for it
    by (simp add: frame_event_def event_of_not_disconnected split: ws_item.split ws_message.split sum.split)
  then have "Disconnected \<notin> set (List.map_filter (frame_event c) its)" for its
    by (force simp: map_filter_def)
  moreover have "length (List.map_filter (frame_event c) its) \<le> length its" for its
    by (simp add: map_filter_def)
  then have "length (List.map_filter (frame_event c) (takeWhile (\<lambda>it. \<not> ends_stream it) items)) \<le> length items"
    using length_takeWhile_le le_trans by blast
  ultimately show ?thesis by (simp add: ws_reader_alive)
qed

text \<open>A client that connects registers its device first, and the server reads the messages of every later
  call, decoded, in the order of the calls.\<close>

lemma server_reads_calls_in_order:
  assumes "sig_roundtrips c (Register device_id)" and "\<forall>m \<in> set ms. sig_roundtrips c m"
  shows "\<exists>cl ss. sig_connect c (Inr ()) device_id = Inr cl \<and>
    run_sends c cl ms = (replicate (length ms) (Inr ()), \<lparr>outbound = ss, outbound_open = True\<rparr>) \<and>
    map (from_json c) ss = Inr (Register device_id) # map Inr ms"
proof -
  obtain s where s: "sig_send c \<lparr>outbound = [], outbound_open = True\<rparr> (Register device_id) =
      (Inr (), \<lparr>outbound = [s], outbound_open = True\<rparr>)" "from_json c s = Inr (Register device_id)"
    using sig_send_open [OF assms(1), of "\<lparr>outbound = [], outbound_open = True\<rparr>"] by auto
  obtain ss where "run_sends c \<lparr>outbound = [s], outbound_open = True\<rparr> ms =
      (replicate (length ms) (Inr ()), \<lparr>outbound = s # ss, outbound_open = True\<rparr>)"
      "map (from_json c) ss = map Inr ms"
    using run_sends_open [of ms c "\<lparr>outbound = [s], outbound_open = True\<rparr>"] assms(2) by auto
  with s show ?thesis
    by (intro exI [of _ "\<lparr>outbound = [s], outbound_open = True\<rparr>"] exI [of _ "s # ss"])
      (simp add: sig_connect_def)
qed

definition toy_sig :: sig_codec where
  "toy_sig =
     \<lparr>sig_encode = (\<lambda>m. case m of Register d \<Rightarrow> Inr (CHR ''R'' # d) | RequestRelay s \<Rightarrow> Inr (CHR ''Q'' # s)
        | _ \<Rightarrow> Inl ''unsupported''),
      sig_decode = (\<lambda>s. case s of [] \<Rightarrow> Inl ''eof''
        | c # r \<Rightarrow> if c = CHR ''R'' then Inr (Register r) else if c = CHR ''Q'' then Inr (RequestRelay r)
          else Inl ''unknown variant'')\<rparr>"

lemma toy_sig_roundtrips [simp]:
  "sig_roundtrips toy_sig (Register d)" "sig_roundtrips toy_sig (RequestRelay sid)"
  by (simp_all add: sig_roundtrips_def toy_sig_def)

theorem server_reads_calls_in_order_witness:
  "\<exists>cl ss. sig_connect toy_sig (Inr ()) ''me'' = Inr cl \<and>
    run_sends toy_sig cl [RequestRelay ''s1'', RequestRelay ''s2''] =
      (replicate (length [RequestRelay ''s1'', RequestRelay ''s2'']) (Inr ()),
       \<lparr>outbound = ss, outbound_open = True\<rparr>) \<and>
    map (from_json toy_sig) ss = Inr (Register ''me'') # map Inr [RequestRelay ''s1'', RequestRelay ''s2'']"
  by (rule server_reads_calls_in_order) simp_all

end
