(* ===== verification/Peer_Session.thy ===== *)
theory Peer_Session
  imports Noise Workers Storage Signaling
begin

text \<open>
  The state of \<open>ConnectionManager\<close> in core/src/connection_manager.rs and the sending half of
  \<open>PeerSession\<close>.  A value the code shares through an \<open>Arc\<close> (a Noise session, a transfer handle, the
  answer channel of an offer, a signaling client) lives in a store of the state under an address, and
  the structures hold the address, so that two holders see each other's changes.  What leaves the
  device is the queue of each QUIC control stream, the frames written to each transfer stream and the
  outbound queue of each signaling client; what reaches the user interface is the list of sink calls.
\<close>

section \<open>What the manager uses\<close>

text \<open>The codecs, the Noise crate, the cryptographic primitives and the wall clock in seconds at an
  instant in nanoseconds.\<close>

record ('h, 't) env =
  e_wire :: wire
  e_snow :: "('h, 't) snow"
  e_crypto :: crypto
  e_sig :: sig_codec
  e_wall :: "nat \<Rightarrow> int"

section \<open>Calls of the event sink\<close>

datatype sink_event =
    OnTextMessage string text_message
  | OnFileOffer string file_offer
  | OnFileAccept string string
  | OnFileReject string string string
  | OnFolderOffer string folder_offer
  | OnFolderAccept string string
  | OnFolderReject string string string
  | OnTransferProgress transfer_progress
  | OnTransferComplete string
  | OnTransferCancelled string string
  | OnTyping string bool
  | OnReadReceipt string u64
  | OnDeliveryAck string u64
  | OnPresence string bool
  | OnPeerConnected string
  | OnPeerDisconnected string

section \<open>State\<close>

text \<open>A QUIC connection is a number; a relay path holds the address of its signaling client.\<close>

datatype outbound_path = Quic nat | Relay nat string

record peer_session =
  ps_device_id :: string
  ps_noise :: nat
  ps_outbound :: outbound_path

text \<open>A \<open>oneshot\<close> channel as its receiver sees it.\<close>

datatype answer = Waiting | Answered bool | Dropped

record outgoing_transfer =
  ot_source :: file_source
  ot_handle :: nat
  ot_accept_tx :: "nat option"

record incoming_transfer =
  it_dest_path :: string
  it_handle :: nat

text \<open>A transfer stream: messages waiting for its writer task, the frames the task has written, and whether
  the task still runs.\<close>

record transfer_stream =
  st_queue :: "protocol_message list"
  st_written :: "bytes list"
  st_running :: bool

text \<open>The stream of a transfer on a QUIC connection, or one of the forwarding tasks on a relay, which are made anew
  at each call.\<close>

datatype stream_id = OnConnection nat | OnRelay nat

record ('h, 't) manager =
  m_identity :: device_identity
  m_storage :: storage
  m_fs :: filesystem
  m_downloads_dir :: string
  m_sessions :: "string \<rightharpoonup> peer_session"
  m_outgoing :: "string \<rightharpoonup> outgoing_transfer"
  m_incoming :: "string \<rightharpoonup> incoming_transfer"
  m_folder_offers :: "string \<rightharpoonup> nat option"
  m_signaling :: "nat option"
  m_tracker :: tracker
  m_relay_waiters :: "string \<rightharpoonup> bytes list"
  m_noise :: "nat \<Rightarrow> ('h, 't) noise_session"
  m_handles :: "nat \<Rightarrow> transfer_handle"
  m_answers :: "nat \<Rightarrow> answer"
  m_clients :: "nat \<Rightarrow> signaling_client"
  m_control :: "nat \<Rightarrow> bytes list"
  m_control_open :: "nat \<Rightarrow> bool"
  m_streams :: "stream_id \<times> string \<rightharpoonup> transfer_stream"
  m_next :: nat
  m_events :: "sink_event list"

text \<open>\<open>ConnectionManager::new\<close>.  The stores hold nothing that is in use: what an unused address reads as does not
  matter.\<close>

definition manager_new :: "device_identity \<Rightarrow> string \<Rightarrow> storage \<Rightarrow> filesystem \<Rightarrow> ('h, 't) noise_session \<Rightarrow> ('h, 't) manager" where
  "manager_new identity downloads_dir db fs unused =
     \<lparr>m_identity = identity, m_storage = db, m_fs = fs, m_downloads_dir = downloads_dir, m_sessions = Map.empty,
      m_outgoing = Map.empty, m_incoming = Map.empty, m_folder_offers = Map.empty, m_signaling = None,
      m_tracker = tracker_new, m_relay_waiters = Map.empty, m_noise = (\<lambda>_. unused),
      m_handles = (\<lambda>_. handle_new 0 [] [] 0), m_answers = (\<lambda>_. Dropped),
      m_clients = (\<lambda>_. \<lparr>outbound = [], outbound_open = False\<rparr>), m_control = (\<lambda>_. []),
      m_control_open = (\<lambda>_. False), m_streams = Map.empty, m_next = 0, m_events = []\<rparr>"

definition emit :: "sink_event \<Rightarrow> ('h, 't) manager \<Rightarrow> ('h, 't) manager" where
  "emit ev m = m\<lparr>m_events := m_events m @ [ev]\<rparr>"

section \<open>Sending\<close>

text \<open>Encrypt with the shared session; its state advances even when what follows fails.\<close>

definition encrypt_with :: "('h, 't) env \<Rightarrow> nat \<Rightarrow> bytes \<Rightarrow> ('h, 't) manager \<Rightarrow> bytes res \<times> ('h, 't) manager" where
  "encrypt_with env a p m =
     (let (r, s) = encrypt (e_snow env) (m_noise m a) p in (r, m\<lparr>m_noise := (m_noise m)(a := s)\<rparr>))"

fun put_outbound :: "('h, 't) env \<Rightarrow> outbound_path \<Rightarrow> bytes \<Rightarrow> ('h, 't) manager \<Rightarrow> unit res \<times> ('h, 't) manager" where
  "put_outbound env (Quic c) ct m =
     (if m_control_open m c then (Inr (), m\<lparr>m_control := (m_control m)(c := m_control m c @ [ct])\<rparr>)
      else (Inl (InvalidState ''control stream closed''), m))"
| "put_outbound env (Relay a sid) ct m =
     (let (r, cl) = send_relay_data (e_sig env) (m_clients m a) sid ct
      in (r, m\<lparr>m_clients := (m_clients m)(a := cl)\<rparr>))"

definition send_message ::
    "('h, 't) env \<Rightarrow> peer_session \<Rightarrow> protocol_message \<Rightarrow> ('h, 't) manager \<Rightarrow> unit res \<times> ('h, 't) manager" where
  "send_message env ps msg m =
     (case map_err (\<lambda>e. InvalidState (''encode failed: '' @ e)) (encode_plaintext (e_wire env) msg) of
        Inl e \<Rightarrow> (Inl e, m)
      | Inr plaintext \<Rightarrow>
          (case encrypt_with env (ps_noise ps) plaintext m of
             (Inl e, m') \<Rightarrow> (Inl e, m')
           | (Inr ciphertext, m') \<Rightarrow> put_outbound env (ps_outbound ps) ciphertext m'))"

definition send_to ::
    "('h, 't) env \<Rightarrow> string \<Rightarrow> protocol_message \<Rightarrow> ('h, 't) manager \<Rightarrow> unit res \<times> ('h, 't) manager" where
  "send_to env device_id msg m =
     (case m_sessions m device_id of
        None \<Rightarrow> (Inl (NotFound (''no active session with '' @ device_id)), m)
      | Some ps \<Rightarrow> send_message env ps msg m)"

definition quic_connection :: "peer_session \<Rightarrow> nat option" where
  "quic_connection ps = (case ps_outbound ps of Quic c \<Rightarrow> Some c | Relay _ _ \<Rightarrow> None)"

section \<open>Transfer streams\<close>

text \<open>\<open>transfer_stream_sender\<close>: over QUIC the stream of the transfer, opened at the first call, \<open>opened\<close> being what
  \<open>open_stream\<close> answers; over a relay a fresh channel with a task that forwards what comes in.\<close>

abbreviation new_stream :: transfer_stream where
  "new_stream \<equiv> \<lparr>st_queue = [], st_written = [], st_running = True\<rparr>"

definition transfer_stream_sender ::
    "unit res \<Rightarrow> peer_session \<Rightarrow> string \<Rightarrow> ('h, 't) manager \<Rightarrow> stream_id res \<times> ('h, 't) manager" where
  "transfer_stream_sender opened ps tid m =
     (case ps_outbound ps of
        Relay _ _ \<Rightarrow>
          (Inr (OnRelay (m_next m)),
           m\<lparr>m_streams := (m_streams m)((OnRelay (m_next m), tid) \<mapsto> new_stream), m_next := Suc (m_next m)\<rparr>)
      | Quic c \<Rightarrow>
          (case m_streams m (OnConnection c, tid) of
             Some _ \<Rightarrow> (Inr (OnConnection c), m)
           | None \<Rightarrow>
               (case opened of
                  Inl e \<Rightarrow> (Inl e, m)
                | Inr _ \<Rightarrow>
                    (Inr (OnConnection c), m\<lparr>m_streams := (m_streams m)((OnConnection c, tid) \<mapsto> new_stream)\<rparr>))))"

text \<open>\<open>TransferStreamSender::send\<close>.\<close>

definition stream_send :: "stream_id \<Rightarrow> string \<Rightarrow> protocol_message \<Rightarrow> ('h, 't) manager \<Rightarrow> unit res \<times> ('h, 't) manager" where
  "stream_send c tid msg m =
     (case m_streams m (c, tid) of
        Some st \<Rightarrow>
          if st_running st
          then (Inr (), m\<lparr>m_streams := (m_streams m)((c, tid) \<mapsto> st\<lparr>st_queue := st_queue st @ [msg]\<rparr>)\<rparr>)
          else (Inl (InvalidState ''transfer stream closed''), m)
      | None \<Rightarrow> (Inl (InvalidState ''transfer stream closed''), m))"

text \<open>The writer task of a stream on the messages that wait: a message that cannot be encoded is skipped, one
  that cannot be encrypted or written ends the task.  \<open>can_write\<close> is the transport's answer.\<close>

fun stream_writer ::
    "('h, 't) env \<Rightarrow> (bytes \<Rightarrow> bool) \<Rightarrow> ('h, 't) noise_session \<Rightarrow> protocol_message list \<Rightarrow>
      bytes list \<times> bool \<times> ('h, 't) noise_session" where
  "stream_writer env can_write s [] = ([], True, s)"
| "stream_writer env can_write s (msg # msgs) =
     (case encode_plaintext (e_wire env) msg of
        Inl _ \<Rightarrow> stream_writer env can_write s msgs
      | Inr plaintext \<Rightarrow>
          (case encrypt (e_snow env) s plaintext of
             (Inl _, s') \<Rightarrow> ([], False, s')
           | (Inr ciphertext, s') \<Rightarrow>
               if can_write ciphertext
               then (let (ws, alive, s'') = stream_writer env can_write s' msgs
                     in (write_framed ciphertext # ws, alive, s''))
               else ([], False, s')))"

definition run_stream_writer ::
    "('h, 't) env \<Rightarrow> (bytes \<Rightarrow> bool) \<Rightarrow> nat \<Rightarrow> stream_id \<Rightarrow> string \<Rightarrow> ('h, 't) manager \<Rightarrow> ('h, 't) manager" where
  "run_stream_writer env can_write a c tid m =
     (case m_streams m (c, tid) of
        None \<Rightarrow> m
      | Some st \<Rightarrow>
          if \<not> st_running st then m
          else
            let (ws, alive, s) = stream_writer env can_write (m_noise m a) (st_queue st)
            in m\<lparr>m_noise := (m_noise m)(a := s),
                 m_streams := (m_streams m)((c, tid) \<mapsto>
                   \<lparr>st_queue = [], st_written = st_written st @ ws, st_running = alive\<rparr>)\<rparr>)"

text \<open>The forwarding task of a relay: the same, except that a ciphertext goes to the signaling client.\<close>

fun relay_forwarder ::
    "('h, 't) env \<Rightarrow> string \<Rightarrow> ('h, 't) noise_session \<Rightarrow> signaling_client \<Rightarrow> protocol_message list \<Rightarrow>
      bool \<times> ('h, 't) noise_session \<times> signaling_client" where
  "relay_forwarder env sid s cl [] = (True, s, cl)"
| "relay_forwarder env sid s cl (msg # msgs) =
     (case encode_plaintext (e_wire env) msg of
        Inl _ \<Rightarrow> relay_forwarder env sid s cl msgs
      | Inr plaintext \<Rightarrow>
          (case encrypt (e_snow env) s plaintext of
             (Inl _, s') \<Rightarrow> (False, s', cl)
           | (Inr ciphertext, s') \<Rightarrow>
               (case send_relay_data (e_sig env) cl sid ciphertext of
                  (Inl _, cl') \<Rightarrow> (False, s', cl')
                | (Inr _, cl') \<Rightarrow> relay_forwarder env sid s' cl' msgs)))"

definition run_relay_forwarder ::
    "('h, 't) env \<Rightarrow> peer_session \<Rightarrow> nat \<Rightarrow> string \<Rightarrow> ('h, 't) manager \<Rightarrow> ('h, 't) manager" where
  "run_relay_forwarder env ps n tid m =
     (case (ps_outbound ps, m_streams m (OnRelay n, tid)) of
        (Relay a sid, Some st) \<Rightarrow>
          if \<not> st_running st then m
          else
            let (alive, s, cl) = relay_forwarder env sid (m_noise m (ps_noise ps)) (m_clients m a) (st_queue st)
            in m\<lparr>m_noise := (m_noise m)(ps_noise ps := s), m_clients := (m_clients m)(a := cl),
                 m_streams := (m_streams m)((OnRelay n, tid) \<mapsto> st\<lparr>st_queue := [], st_running := alive\<rparr>)\<rparr>
      | _ \<Rightarrow> m)"

text \<open>The loop body lets go of the Noise state between encrypting and sending, and every chunk has a forwarder of its own: the
  two halves of the body, and what forwarders do to a client whichever of them goes on first.  \<open>Queues j\<close> is the second
  half for the message that was encrypted \<open>j\<close>-th.\<close>

definition forward_encrypt ::
    "('h, 't) env \<Rightarrow> nat \<Rightarrow> protocol_message \<Rightarrow> ('h, 't) manager \<Rightarrow> bytes res option \<times> ('h, 't) manager" where
  "forward_encrypt env b msg m =
     (case encode_plaintext (e_wire env) msg of
        Inl _ \<Rightarrow> (None, m)
      | Inr plaintext \<Rightarrow>
          let (r, s) = encrypt (e_snow env) (m_noise m b) plaintext
          in (Some r, m\<lparr>m_noise := (m_noise m)(b := s)\<rparr>))"

definition forward_send ::
    "('h, 't) env \<Rightarrow> nat \<Rightarrow> string \<Rightarrow> bytes \<Rightarrow> ('h, 't) manager \<Rightarrow> unit res \<times> ('h, 't) manager" where
  "forward_send env a sid ciphertext m =
     (let (r, cl) = send_relay_data (e_sig env) (m_clients m a) sid ciphertext
      in (r, m\<lparr>m_clients := (m_clients m)(a := cl)\<rparr>))"

datatype forward_move = Encrypts protocol_message | Queues nat

fun forward_moves ::
    "('h, 't) env \<Rightarrow> nat \<Rightarrow> nat \<Rightarrow> string \<Rightarrow> forward_move list \<Rightarrow> bytes list \<Rightarrow> ('h, 't) manager \<Rightarrow> ('h, 't) manager" where
  "forward_moves env b a sid [] held m = m"
| "forward_moves env b a sid (Encrypts msg # moves) held m =
     (case forward_encrypt env b msg m of
        (Some (Inr ciphertext), m1) \<Rightarrow> forward_moves env b a sid moves (held @ [ciphertext]) m1
      | (_, m1) \<Rightarrow> forward_moves env b a sid moves held m1)"
| "forward_moves env b a sid (Queues j # moves) held m =
     (if j < length held then forward_moves env b a sid moves held (snd (forward_send env a sid (held ! j) m))
      else forward_moves env b a sid moves held m)"

lemma forwarder_halves:
  "relay_forwarder env sid (m_noise m b) (m_clients m a) (msg # msgs) =
     (case forward_encrypt env b msg m of
        (None, m1) \<Rightarrow> relay_forwarder env sid (m_noise m1 b) (m_clients m1 a) msgs
      | (Some (Inl _), m1) \<Rightarrow> (False, m_noise m1 b, m_clients m1 a)
      | (Some (Inr ciphertext), m1) \<Rightarrow>
          (case forward_send env a sid ciphertext m1 of
             (Inl _, m2) \<Rightarrow> (False, m_noise m2 b, m_clients m2 a)
           | (Inr _, m2) \<Rightarrow> relay_forwarder env sid (m_noise m2 b) (m_clients m2 a) msgs))"
  by (auto simp: forward_encrypt_def forward_send_def Let_def simp del: encrypt.simps split: sum.split prod.split)

text \<open>\<open>close_transfer_stream\<close>: the sender is dropped from the map; a relay session has no map.\<close>

definition close_transfer_stream :: "peer_session \<Rightarrow> string \<Rightarrow> ('h, 't) manager \<Rightarrow> ('h, 't) manager" where
  "close_transfer_stream ps tid m =
     (case ps_outbound ps of
        Quic c \<Rightarrow> m\<lparr>m_streams := (m_streams m)((OnConnection c, tid) := None)\<rparr>
      | Relay _ _ \<Rightarrow> m)"

section \<open>What sending leaves alone\<close>

text \<open>The parts of the state that no send touches.\<close>

definition send_frame :: "('h, 't) manager \<Rightarrow> ('h, 't) manager \<Rightarrow> bool" where
  "send_frame m m' \<longleftrightarrow>
     m_identity m' = m_identity m \<and> m_storage m' = m_storage m \<and> m_fs m' = m_fs m \<and>
     m_downloads_dir m' = m_downloads_dir m \<and> m_sessions m' = m_sessions m \<and>
     m_outgoing m' = m_outgoing m \<and> m_incoming m' = m_incoming m \<and>
     m_folder_offers m' = m_folder_offers m \<and> m_signaling m' = m_signaling m \<and>
     m_tracker m' = m_tracker m \<and> m_relay_waiters m' = m_relay_waiters m \<and>
     m_handles m' = m_handles m \<and> m_answers m' = m_answers m \<and>
     m_control_open m' = m_control_open m \<and> m_streams m' = m_streams m \<and>
     m_next m' = m_next m \<and> m_events m' = m_events m"

lemma send_frame_refl [simp]: "send_frame m m"
  by (simp add: send_frame_def)

lemma send_message_frame: "send_frame m (snd (send_message env ps msg m))"
  by (cases "ps_outbound ps")
    (auto simp: send_message_def encrypt_with_def send_frame_def Let_def split: sum.split prod.split)

lemma send_to_frame: "send_frame m (snd (send_to env d msg m))"
  by (simp add: send_to_def send_message_frame split: option.split)

lemmas send_framed = send_message_frame [unfolded send_frame_def] send_to_frame [unfolded send_frame_def]

end
