(* ===== verification/Manager.thy ===== *)
theory Manager
  imports Peer_Session
begin

text \<open>
  The message handlers and the transfer operations of \<open>ConnectionManager\<close> in
  core/src/connection_manager.rs, each as a function of the manager's state.  \<open>now\<close> is the instant of
  the call.  A result that the code only logs or discards is dropped here too.
\<close>

section \<open>Answers to offers\<close>

text \<open>\<open>Sender::send\<close> of a \<open>oneshot\<close>, and dropping the sender unused.\<close>

definition answer_with :: "bool \<Rightarrow> nat \<Rightarrow> ('h, 't) manager \<Rightarrow> ('h, 't) manager" where
  "answer_with b a m =
     (if m_answers m a = Waiting then m\<lparr>m_answers := (m_answers m)(a := Answered b)\<rparr> else m)"

definition drop_sender :: "nat option \<Rightarrow> ('h, 't) manager \<Rightarrow> ('h, 't) manager" where
  "drop_sender tx m =
     (case tx of
        None \<Rightarrow> m
      | Some a \<Rightarrow> if m_answers m a = Waiting then m\<lparr>m_answers := (m_answers m)(a := Dropped)\<rparr> else m)"

text \<open>Take the sender out of the entry of a file offer or a folder offer and answer with it.\<close>

definition answer_file :: "bool \<Rightarrow> string \<Rightarrow> ('h, 't) manager \<Rightarrow> ('h, 't) manager" where
  "answer_file b tid m =
     (case m_outgoing m tid of
        None \<Rightarrow> m
      | Some t \<Rightarrow>
          (case ot_accept_tx t of
             None \<Rightarrow> m
           | Some a \<Rightarrow> answer_with b a
               (m\<lparr>m_outgoing := (m_outgoing m)(tid \<mapsto> t\<lparr>ot_accept_tx := None\<rparr>)\<rparr>)))"

definition answer_folder :: "bool \<Rightarrow> string \<Rightarrow> ('h, 't) manager \<Rightarrow> ('h, 't) manager" where
  "answer_folder b batch m =
     (case m_folder_offers m batch of
        Some (Some a) \<Rightarrow> answer_with b a (m\<lparr>m_folder_offers := (m_folder_offers m)(batch \<mapsto> None)\<rparr>)
      | _ \<Rightarrow> m)"

definition remove_outgoing :: "string \<Rightarrow> ('h, 't) manager \<Rightarrow> ('h, 't) manager" where
  "remove_outgoing tid m =
     (case m_outgoing m tid of
        None \<Rightarrow> m
      | Some t \<Rightarrow> drop_sender (ot_accept_tx t) (m\<lparr>m_outgoing := (m_outgoing m)(tid := None)\<rparr>))"

definition remove_folder_offer :: "string \<Rightarrow> ('h, 't) manager \<Rightarrow> ('h, 't) manager" where
  "remove_folder_offer batch m =
     (case m_folder_offers m batch of
        None \<Rightarrow> m
      | Some tx \<Rightarrow> drop_sender tx (m\<lparr>m_folder_offers := (m_folder_offers m)(batch := None)\<rparr>))"

definition handle_file_accept :: "string \<Rightarrow> string \<Rightarrow> ('h, 't) manager \<Rightarrow> ('h, 't) manager" where
  "handle_file_accept from tid m = emit (OnFileAccept from tid) (answer_file True tid m)"

definition handle_file_reject :: "string \<Rightarrow> string \<Rightarrow> string \<Rightarrow> ('h, 't) manager \<Rightarrow> ('h, 't) manager" where
  "handle_file_reject from tid reason m =
     emit (OnFileReject from tid reason) (remove_outgoing tid (answer_file False tid m))"

definition handle_folder_accept :: "string \<Rightarrow> string \<Rightarrow> ('h, 't) manager \<Rightarrow> ('h, 't) manager" where
  "handle_folder_accept from batch m = emit (OnFolderAccept from batch) (answer_folder True batch m)"

definition handle_folder_reject :: "string \<Rightarrow> string \<Rightarrow> string \<Rightarrow> ('h, 't) manager \<Rightarrow> ('h, 't) manager" where
  "handle_folder_reject from batch reason m =
     emit (OnFolderReject from batch reason) (remove_folder_offer batch (answer_folder False batch m))"

section \<open>Chunks that arrive\<close>

definition update_handle :: "nat \<Rightarrow> (transfer_handle \<Rightarrow> transfer_handle) \<Rightarrow> ('h, 't) manager \<Rightarrow> ('h, 't) manager" where
  "update_handle a f m = m\<lparr>m_handles := (m_handles m)(a := f (m_handles m a))\<rparr>"

text \<open>Send to a device if it has a session, whatever comes of it.\<close>

definition try_send :: "('h, 't) env \<Rightarrow> string \<Rightarrow> protocol_message \<Rightarrow> ('h, 't) manager \<Rightarrow> ('h, 't) manager" where
  "try_send env did msg m =
     (case m_sessions m did of None \<Rightarrow> m | Some ps \<Rightarrow> snd (send_message env ps msg m))"

text \<open>The end of a transfer once no chunk is missing.\<close>

definition complete_incoming :: "('h, 't) env \<Rightarrow> nat \<Rightarrow> string \<Rightarrow> string \<Rightarrow> nat \<Rightarrow> ('h, 't) manager \<Rightarrow> ('h, 't) manager" where
  "complete_incoming env now from tid a m =
     (let transferred = tp_bytes_transferred (progress (m_handles m a) Completed);
          m1 = m\<lparr>m_incoming := (m_incoming m)(tid := None),
                 m_storage := snd (update_transfer_state (e_wall env now) tid (as_str Completed) transferred (m_storage m))\<rparr>
      in try_send env from (FileTransferComplete tid) (emit (OnTransferComplete tid) m1))"

text \<open>The bookkeeping once the chunk is on disk, \<open>fs\<close> being the file system after the write: the handle, the
  manifest, the progress event.\<close>

definition record_chunk ::
    "('h, 't) env \<Rightarrow> nat \<Rightarrow> file_chunk_message \<Rightarrow> nat \<Rightarrow> filesystem \<Rightarrow> ('h, 't) manager \<Rightarrow> ('h, 't) manager" where
  "record_chunk env now c a fs m =
     (let m1 = update_handle a (mark_chunk_acked now (fc_chunk_index c) (of_nat (length (fc_payload c)))) (m\<lparr>m_fs := fs\<rparr>);
          m2 = m1\<lparr>m_storage := snd (db_mark_chunk_acked (fc_transfer_id c) (fc_chunk_index c) (m_storage m1))\<rparr>
      in emit (OnTransferProgress (progress (m_handles m2 a) Active)) m2)"

definition handle_incoming_chunk ::
    "('h, 't) env \<Rightarrow> nat \<Rightarrow> string \<Rightarrow> file_chunk_message \<Rightarrow> ('h, 't) manager \<Rightarrow> ('h, 't) manager" where
  "handle_incoming_chunk env now from c m =
     (let frame = chunk_frame_new (sha256 (e_crypto env)) (fc_chunk_index c) (fc_payload c) in
      if cf_checksum frame \<noteq> fc_checksum_sha256 c \<or> \<not> chunk_frame_verify (sha256 (e_crypto env)) frame then m
      else
        case m_incoming m (fc_transfer_id c) of
          None \<Rightarrow> m
        | Some t \<Rightarrow>
            (case write_chunk_to_file (m_fs m) (it_dest_path t) (fc_chunk_index c) (cf_payload frame) of
               Inl _ \<Rightarrow> m
             | Inr fs \<Rightarrow>
                 let a = it_handle t;
                     m3 = record_chunk env now c a fs m;
                     m4 = try_send env from (FileChunkAck (fc_transfer_id c) (fc_chunk_index c)) m3
                 in if pending_chunk_indices (m_handles m4 a) = []
                    then complete_incoming env now from (fc_transfer_id c) a m4
                    else m4))"

section \<open>Dispatch\<close>

text \<open>Set the cancel flag of the transfer, on whichever side it is.\<close>

definition cancel_handles :: "string \<Rightarrow> ('h, 't) manager \<Rightarrow> ('h, 't) manager" where
  "cancel_handles tid m =
     (let m1 = (case m_outgoing m tid of None \<Rightarrow> m | Some t \<Rightarrow> update_handle (ot_handle t) cancel m)
      in case m_incoming m1 tid of None \<Rightarrow> m1 | Some t \<Rightarrow> update_handle (it_handle t) cancel m1)"

fun dispatch_incoming ::
    "('h, 't) env \<Rightarrow> nat \<Rightarrow> string \<Rightarrow> protocol_message \<Rightarrow> ('h, 't) manager \<Rightarrow> ('h, 't) manager" where
  "dispatch_incoming env now from (Text t) m = emit (OnTextMessage from t) m"
| "dispatch_incoming env now from (FileOffer offer) m = emit (OnFileOffer from offer) m"
| "dispatch_incoming env now from (FileAccept tid) m = handle_file_accept from tid m"
| "dispatch_incoming env now from (FileReject tid reason) m = handle_file_reject from tid reason m"
| "dispatch_incoming env now from (FolderOffer offer) m = emit (OnFolderOffer from offer) m"
| "dispatch_incoming env now from (FolderAccept batch) m = handle_folder_accept from batch m"
| "dispatch_incoming env now from (FolderReject batch reason) m = handle_folder_reject from batch reason m"
| "dispatch_incoming env now from (TypingIndicator conv typing) m = emit (OnTyping conv typing) m"
| "dispatch_incoming env now from (ReadReceipt mid at_unix) m = emit (OnReadReceipt mid at_unix) m"
| "dispatch_incoming env now from (DeliveryAck mid at_unix) m = emit (OnDeliveryAck mid at_unix) m"
| "dispatch_incoming env now from (Presence online at_unix) m = emit (OnPresence from online) m"
| "dispatch_incoming env now from (FileChunk c) m = handle_incoming_chunk env now from c m"
| "dispatch_incoming env now from (FileChunkAck tid i) m = m"
| "dispatch_incoming env now from (FileTransferComplete tid) m =
     emit (OnTransferComplete tid) (m\<lparr>m_incoming := (m_incoming m)(tid := None)\<rparr>)"
| "dispatch_incoming env now from (FileTransferCancelled tid by_device) m =
     emit (OnTransferCancelled tid by_device) (cancel_handles tid m)"
| "dispatch_incoming env now from Ping m = try_send env from Pong m"
| "dispatch_incoming env now from Pong m = m"

definition decrypt_and_dispatch ::
    "('h, 't) env \<Rightarrow> nat \<Rightarrow> string \<Rightarrow> nat \<Rightarrow> bytes \<Rightarrow> ('h, 't) manager \<Rightarrow> bool \<times> ('h, 't) manager" where
  "decrypt_and_dispatch env now from a ciphertext m =
     (let (r, s) = decrypt (e_snow env) (m_noise m a) ciphertext;
          m1 = m\<lparr>m_noise := (m_noise m)(a := s)\<rparr>
      in case r of
           Inl _ \<Rightarrow> (False, m1)
         | Inr plaintext \<Rightarrow>
             (case decode_plaintext (e_wire env) plaintext of
                Inl _ \<Rightarrow> (True, m1)
              | Inr msg \<Rightarrow> (True, dispatch_incoming env now from msg m1)))"

section \<open>The reader task of a session\<close>

text \<open>The frames that arrive, each with its instant, until the stream ends or a frame does not decrypt.\<close>

fun read_frames ::
    "('h, 't) env \<Rightarrow> string \<Rightarrow> nat \<Rightarrow> (nat \<times> bytes) list \<Rightarrow> ('h, 't) manager \<Rightarrow> ('h, 't) manager" where
  "read_frames env from a [] m = m"
| "read_frames env from a ((now, ct) # frames) m =
     (case decrypt_and_dispatch env now from a ct m of
        (True, m') \<Rightarrow> read_frames env from a frames m'
      | (False, m') \<Rightarrow> m')"

text \<open>The control stream's reader: when it ends the session of the device goes.\<close>

definition control_reader ::
    "('h, 't) env \<Rightarrow> string \<Rightarrow> nat \<Rightarrow> (nat \<times> bytes) list \<Rightarrow> ('h, 't) manager \<Rightarrow> ('h, 't) manager" where
  "control_reader env did a frames m =
     (let m1 = read_frames env did a frames m
      in emit (OnPeerDisconnected did) (m1\<lparr>m_sessions := (m_sessions m1)(did := None)\<rparr>))"

section \<open>Registering a session\<close>

text \<open>\<open>register_session\<close> up to the tasks it spawns; the wall clock of \<open>now\<close> stamps the device row.\<close>

definition register_session ::
    "('h, 't) env \<Rightarrow> nat \<Rightarrow> string \<Rightarrow> bytes \<Rightarrow> nat \<Rightarrow> ('h, 't) noise_session \<Rightarrow> ('h, 't) manager \<Rightarrow> ('h, 't) manager" where
  "register_session env now did key conn noise m =
     (let a = m_next m;
          m1 = m\<lparr>m_storage := snd (upsert_known_device (e_wall env now) did did key True (m_storage m)),
                 m_noise := (m_noise m)(a := noise), m_next := Suc a,
                 m_control := (m_control m)(conn := []), m_control_open := (m_control_open m)(conn := True),
                 m_sessions := (m_sessions m)(did \<mapsto>
                   \<lparr>ps_device_id = did, ps_noise = a, ps_outbound = Quic conn\<rparr>)\<rparr>
      in emit (OnPeerConnected did) m1)"

end
