(* ===== verification/Folder_Walk.thy ===== *)
theory Folder_Walk
  imports Protocol "HOL-Library.Multiset"
begin

text \<open>
  The folder walk of core/src/connection_manager.rs: \<open>collect_files_recursive\<close> with its explicit stack,
  \<open>relative_path_string\<close>, \<open>mime_guess_from_extension\<close> and the manifest of a folder offer.  A path is
  the list of its components; a directory lists its entries in the order \<open>read_dir\<close> yields them.
\<close>

section \<open>Directory trees and paths\<close>

type_synonym path = "string list"

text \<open>What a directory entry is; \<open>Unreadable\<close> is a directory whose \<open>read_dir\<close> fails.\<close>

datatype entry =
    RegularFile u64
  | SymLink
  | Unreadable
  | Directory "(string \<times> entry) list"

text \<open>\<open>to_string_lossy\<close> of a path, \<open>sep\<close> being the separator of the host.\<close>

fun path_string :: "char \<Rightarrow> path \<Rightarrow> string" where
  "path_string sep [] = []"
| "path_string sep [c] = c"
| "path_string sep (c # cs) = c @ sep # path_string sep cs"

fun strip_prefix :: "path \<Rightarrow> path \<Rightarrow> path option" where
  "strip_prefix [] p = Some p"
| "strip_prefix (c # cs) (d # ds) = (if c = d then strip_prefix cs ds else None)"
| "strip_prefix (c # cs) [] = None"

definition replace_char :: "char \<Rightarrow> char \<Rightarrow> string \<Rightarrow> string" where
  "replace_char a b s = map (\<lambda>c. if c = a then b else c) s"

definition relative_path_string :: "char \<Rightarrow> path \<Rightarrow> path \<Rightarrow> string" where
  "relative_path_string sep file_path folder_root =
     (case strip_prefix folder_root file_path of
        Some p \<Rightarrow> replace_char (CHR 0x5C) (CHR ''/'') (path_string sep p)
      | None \<Rightarrow> path_string sep file_path)"

section \<open>The walk\<close>

text \<open>The inner loop over the entries of one directory: the stack (its top first) and the files found.\<close>

fun scan_entries :: "path \<Rightarrow> (string \<times> entry) list \<Rightarrow> (path \<times> entry) list \<Rightarrow> path list \<Rightarrow> (path \<times> entry) list \<times> path list"
where
  "scan_entries p [] stack files = (stack, files)"
| "scan_entries p ((n, e) # es) stack files =
     (case e of
        RegularFile _ \<Rightarrow> scan_entries p es stack (files @ [p @ [n]])
      | SymLink \<Rightarrow> scan_entries p es stack files
      | Unreadable \<Rightarrow> scan_entries p es ((p @ [n], e) # stack) files
      | Directory _ \<Rightarrow> scan_entries p es ((p @ [n], e) # stack) files)"

definition stack_size :: "(path \<times> entry) list \<Rightarrow> nat" where
  "stack_size stack = sum_list (map (\<lambda>(_, e). size e) stack)"

lemma stack_size_simps [simp]:
  "stack_size [] = 0"
  "stack_size ((p, e) # stack) = size e + stack_size stack"
  by (simp_all add: stack_size_def)

lemma scan_entries_size:
  "stack_size (fst (scan_entries p es stack files)) \<le> size_list (size_prod (\<lambda>_. 0) size) es + stack_size stack"
  by (induction p es stack files rule: scan_entries.induct) (auto split: entry.splits)

definition read_dir_error :: core_error where
  "read_dir_error = Io ''read_dir failed''"

text \<open>The outer loop.\<close>

function collect_loop :: "(path \<times> entry) list \<Rightarrow> path list \<Rightarrow> path list res" where
  "collect_loop [] files = Inr files"
| "collect_loop ((p, Directory es) # stack) files =
     (case scan_entries p es stack files of (stack', files') \<Rightarrow> collect_loop stack' files')"
| "collect_loop ((p, Unreadable) # stack) files = Inl read_dir_error"
| "collect_loop ((p, RegularFile n) # stack) files = Inl read_dir_error"
| "collect_loop ((p, SymLink) # stack) files = Inl read_dir_error"
  by pat_completeness auto

termination
proof (relation "measure (\<lambda>(stack, _). stack_size stack)")
  fix p es stack files stack' files'
  assume "(stack', files') = scan_entries p es stack files"
  then have "stack' = fst (scan_entries p es stack files)" by (metis fst_conv)
  then have "stack_size stack' \<le> size_list (size_prod (\<lambda>_. 0) size) es + stack_size stack"
    using scan_entries_size by simp
  then show "((stack', files'), (p, Directory es) # stack, files) \<in> measure (\<lambda>(stack, _). stack_size stack)"
    by simp
qed simp

definition collect_files_recursive :: "path \<Rightarrow> entry \<Rightarrow> path list res" where
  "collect_files_recursive dir root = collect_loop [(dir, root)] []"

section \<open>MIME types\<close>

definition to_lower :: "string \<Rightarrow> string" where
  "to_lower s = map (\<lambda>c. if of_char c \<in> {65 .. 90 :: nat} then char_of (of_char c + 32 :: nat) else c) s"

text \<open>\<open>Path::extension\<close>: what follows the last dot of the file name, unless that dot starts the name.\<close>

fun split_last_dot :: "string \<Rightarrow> (string \<times> string) option" where
  "split_last_dot [] = None"
| "split_last_dot (c # cs) =
     (case split_last_dot cs of
        Some (stem, ext) \<Rightarrow> Some (c # stem, ext)
      | None \<Rightarrow> if c = CHR ''.'' then Some ([], cs) else None)"

definition extension :: "path \<Rightarrow> string option" where
  "extension p =
     (if p = [] \<or> last p = ''..'' then None
      else case split_last_dot (last p) of
        Some (stem, ext) \<Rightarrow> if stem = [] then None else Some ext
      | None \<Rightarrow> None)"

definition mime_table :: "(string \<times> string) list" where
  "mime_table =
     [(''jpg'', ''image/jpeg''), (''jpeg'', ''image/jpeg''), (''png'', ''image/png''), (''gif'', ''image/gif''),
      (''webp'', ''image/webp''), (''mp4'', ''video/mp4''), (''mov'', ''video/quicktime''),
      (''mkv'', ''video/x-matroska''), (''webm'', ''video/webm''), (''pdf'', ''application/pdf''),
      (''doc'', ''application/msword''),
      (''docx'', ''application/vnd.openxmlformats-officedocument.wordprocessingml.document''),
      (''xls'', ''application/vnd.ms-excel''),
      (''xlsx'', ''application/vnd.openxmlformats-officedocument.spreadsheetml.sheet''),
      (''ppt'', ''application/vnd.ms-powerpoint''),
      (''pptx'', ''application/vnd.openxmlformats-officedocument.presentationml.presentation''),
      (''txt'', ''text/plain''), (''zip'', ''application/zip''),
      (''apk'', ''application/vnd.android.package-archive'')]"

definition mime_guess_from_extension :: "path \<Rightarrow> string" where
  "mime_guess_from_extension p =
     (let ext = to_lower (case extension p of Some e \<Rightarrow> e | None \<Rightarrow> [])
      in case map_of mime_table ext of Some m \<Rightarrow> m | None \<Rightarrow> ''application/octet-stream'')"

section \<open>The files of a tree\<close>

text \<open>What the walk is meant to find: every regular file, under its path.\<close>

fun files_under :: "path \<Rightarrow> entry \<Rightarrow> path list" and files_in :: "path \<Rightarrow> (string \<times> entry) list \<Rightarrow> path list" where
  "files_under p (RegularFile n) = [p]"
| "files_under p SymLink = []"
| "files_under p Unreadable = []"
| "files_under p (Directory es) = files_in p es"
| "files_in p [] = []"
| "files_in p ((n, e) # es) = files_under (p @ [n]) e @ files_in p es"

text \<open>Every directory in it can be read; the names in one directory differ and are file names.\<close>

fun readable :: "entry \<Rightarrow> bool" and readable_in :: "(string \<times> entry) list \<Rightarrow> bool" where
  "readable (RegularFile n) = True"
| "readable SymLink = True"
| "readable Unreadable = False"
| "readable (Directory es) = readable_in es"
| "readable_in [] = True"
| "readable_in ((n, e) # es) = (readable e \<and> readable_in es)"

fun names_ok :: "entry \<Rightarrow> bool" and names_ok_in :: "(string \<times> entry) list \<Rightarrow> bool" where
  "names_ok (RegularFile n) = True"
| "names_ok SymLink = True"
| "names_ok Unreadable = True"
| "names_ok (Directory es) = (names_ok_in es \<and> distinct (map fst es))"
| "names_ok_in [] = True"
| "names_ok_in ((n, e) # es) = (names_ok e \<and> n \<noteq> [] \<and> CHR ''/'' \<notin> set n \<and> names_ok_in es)"

definition is_dir :: "entry \<Rightarrow> bool" where
  "is_dir e = (case e of Directory _ \<Rightarrow> True | Unreadable \<Rightarrow> True | _ \<Rightarrow> False)"

lemma is_dir_simps [simp]:
  "is_dir (Directory es)" "is_dir Unreadable" "\<not> is_dir SymLink" "\<not> is_dir (RegularFile n)"
  by (simp_all add: is_dir_def)

definition stack_files :: "(path \<times> entry) list \<Rightarrow> path multiset" where
  "stack_files stack = (\<Sum>(p, e) \<leftarrow> stack. mset (files_under p e))"

lemma stack_files_simps [simp]:
  "stack_files [] = {#}"
  "stack_files ((p, e) # stack) = mset (files_under p e) + stack_files stack"
  by (simp_all add: stack_files_def)

lemma scan_entries_files:
  "scan_entries p es stack files = (stack', files') \<Longrightarrow>
    stack_files stack' + mset files' = stack_files stack + mset files + mset (files_in p es)"
  by (induction p es stack files rule: scan_entries.induct) (auto split: entry.splits)

lemma scan_entries_dirs:
  "scan_entries p es stack files = (stack', files') \<Longrightarrow> (\<forall>(_, e) \<in> set stack. is_dir e) \<Longrightarrow>
    (\<forall>(_, e) \<in> set stack'. is_dir e)"
  by (induction p es stack files rule: scan_entries.induct) (auto split: entry.splits)

lemma scan_entries_readable:
  "scan_entries p es stack files = (stack', files') \<Longrightarrow>
    (\<forall>(_, e) \<in> set stack'. readable e) \<longleftrightarrow> (\<forall>(_, e) \<in> set stack. readable e) \<and> readable_in es"
  by (induction p es stack files rule: scan_entries.induct) (auto split: entry.splits)

lemma collect_loop_result:
  assumes "\<forall>(_, e) \<in> set stack. is_dir e"
  shows "if \<forall>(_, e) \<in> set stack. readable e
    then \<exists>fs. collect_loop stack files = Inr fs \<and> mset fs = stack_files stack + mset files
    else collect_loop stack files = Inl read_dir_error"
  using assms
proof (induction stack files rule: collect_loop.induct)
  case (2 p es stack files)
  obtain stack' files' where s: "scan_entries p es stack files = (stack', files')" by fastforce
  have "\<forall>(_, e) \<in> set stack. is_dir e" using "2.prems" by auto
  from scan_entries_dirs [OF s this] "2.IH" [OF s [symmetric]]
  have "if \<forall>(_, e) \<in> set stack'. readable e
    then \<exists>fs. collect_loop stack' files' = Inr fs \<and> mset fs = stack_files stack' + mset files'
    else collect_loop stack' files' = Inl read_dir_error" by simp
  with scan_entries_files [OF s] scan_entries_readable [OF s] s show ?case
    by (auto simp: ac_simps)
qed auto

subsection \<open>Paths\<close>

lemma files_prefix:
  "f \<in> set (files_under p e) \<Longrightarrow> \<exists>r. f = p @ r"
  "f \<in> set (files_in p es) \<Longrightarrow> \<exists>n r. f = p @ n # r \<and> n \<in> fst ` set es"
proof (induction p e and p es rule: files_under_files_in.induct)
  case (6 p n e es)
  show ?case
  proof (cases "f \<in> set (files_under (p @ [n]) e)")
    case True
    with "6.IH"(1) obtain r where "f = (p @ [n]) @ r" by blast
    then show ?thesis by (intro exI [of _ n] exI [of _ r]) simp
  next
    case False
    with 6 obtain m r where "f = p @ m # r" "m \<in> fst ` set es" by auto
    then show ?thesis by (intro exI [of _ m] exI [of _ r]) simp
  qed
qed auto

lemma files_distinct:
  "names_ok e \<Longrightarrow> distinct (files_under p e)"
  "names_ok_in es \<Longrightarrow> distinct (map fst es) \<Longrightarrow> distinct (files_in p es)"
proof (induction p e and p es rule: files_under_files_in.induct)
  case (6 p n e es)
  have "f \<notin> set (files_in p es)" if f: "f \<in> set (files_under (p @ [n]) e)" for f
  proof
    assume "f \<in> set (files_in p es)"
    then obtain m r where "f = p @ m # r" "m \<in> fst ` set es" using files_prefix(2) by blast
    moreover obtain r' where "f = (p @ [n]) @ r'" using files_prefix(1) [OF f] by blast
    ultimately show False using "6.prems"(2) by auto
  qed
  then have "set (files_under (p @ [n]) e) \<inter> set (files_in p es) = {}" by blast
  moreover have "distinct (files_under (p @ [n]) e)" and "distinct (files_in p es)"
    using 6 by simp_all
  ultimately show ?case by simp
qed auto

definition plain :: "path \<Rightarrow> bool" where
  "plain p \<longleftrightarrow> (\<forall>c \<in> set p. c \<noteq> [] \<and> CHR ''/'' \<notin> set c)"

lemma files_plain:
  "names_ok e \<Longrightarrow> f \<in> set (files_under p e) \<Longrightarrow> \<exists>r. f = p @ r \<and> plain r"
  "names_ok_in es \<Longrightarrow> f \<in> set (files_in p es) \<Longrightarrow> \<exists>r. f = p @ r \<and> plain r"
proof (induction p e and p es rule: files_under_files_in.induct)
  case (6 p n e es)
  show ?case
  proof (cases "f \<in> set (files_under (p @ [n]) e)")
    case True
    with 6 obtain r where "f = (p @ [n]) @ r" "plain r" by auto
    with "6.prems" show ?thesis by (intro exI [of _ "n # r"]) (simp add: plain_def)
  next
    case False
    with 6 show ?thesis by auto
  qed
qed (auto simp: plain_def)

lemma path_string_parts:
  assumes "plain (c # cs)"
  shows "takeWhile (\<lambda>x. x \<noteq> CHR ''/'') (path_string (CHR ''/'') (c # cs)) = c"
    and "dropWhile (\<lambda>x. x \<noteq> CHR ''/'') (path_string (CHR ''/'') (c # cs)) =
      (if cs = [] then [] else CHR ''/'' # path_string (CHR ''/'') cs)"
  using assms by (cases cs; auto simp: plain_def takeWhile_append dropWhile_append)+

lemma path_string_inject:
  "plain p \<Longrightarrow> plain q \<Longrightarrow> path_string (CHR ''/'') p = path_string (CHR ''/'') q \<Longrightarrow> p = q"
proof (induction p arbitrary: q)
  case Nil
  then show ?case
  proof (cases q)
    case (Cons d ds)
    with Nil show ?thesis by (cases ds) (auto simp: plain_def)
  qed simp
next
  case (Cons c cs)
  from Cons.prems obtain d ds where q: "q = d # ds"
    by (cases q) (cases cs; auto simp: plain_def)
  note parts = path_string_parts [OF Cons.prems(1)] path_string_parts [of d ds]
  have "c = d" using parts Cons.prems q by metis
  moreover have "(if cs = [] then [] else CHR ''/'' # path_string (CHR ''/'') cs) =
      (if ds = [] then [] else CHR ''/'' # path_string (CHR ''/'') ds)"
    using parts Cons.prems q by metis
  then have "cs = ds" using Cons.IH [of ds] Cons.prems q by (auto simp: plain_def split: if_splits)
  ultimately show ?case by (simp add: q)
qed

lemma strip_prefix_append [simp]: "strip_prefix p (p @ q) = Some q"
  by (induction p) auto

lemma normalized_path:
  assumes "\<forall>c \<in> set r. CHR 0x5C \<notin> set c" and "sep = CHR ''/'' \<or> sep = CHR 0x5C"
  shows "relative_path_string sep (dir @ r) dir = path_string (CHR ''/'') r"
proof -
  have keep: "map (\<lambda>x. if x = CHR 0x5C then CHR ''/'' else x) c = c" if "CHR 0x5C \<notin> set c" for c :: string
    using that by (auto intro: map_idI)
  have "replace_char (CHR 0x5C) (CHR ''/'') (path_string sep r) = path_string (CHR ''/'') r"
    using assms by (induction sep r rule: path_string.induct) (auto simp: replace_char_def keep)
  then show ?thesis by (simp add: relative_path_string_def)
qed

section \<open>Properties\<close>

text \<open>The walk of a tree whose directories can all be read finds exactly its regular files, each as often as
  it is in the tree, and ends; symbolic links are neither listed nor followed.  If some directory cannot
  be read the whole walk fails.\<close>

lemma walk_finds_every_file:
  "is_dir root \<longrightarrow>
    (if readable root then \<exists>fs. collect_files_recursive dir root = Inr fs \<and> mset fs = mset (files_under dir root)
     else collect_files_recursive dir root = Inl read_dir_error)"
  using collect_loop_result [of "[(dir, root)]" "[]"] by (auto simp: collect_files_recursive_def)

theorem walk_finds_every_file_witness:
  "\<exists>fs. collect_files_recursive [''d''] (Directory [(''a'', RegularFile 3), (''l'', SymLink),
      (''s'', Directory [(''b'', RegularFile 4)])]) = Inr fs \<and> mset fs = mset [[''d'', ''a''], [''d'', ''s'', ''b'']]"
  using walk_finds_every_file [of "Directory [(''a'', RegularFile 3), (''l'', SymLink),
      (''s'', Directory [(''b'', RegularFile 4)])]" "[''d'']"]
  by (simp del: collect_loop.simps)

text \<open>The relative paths of the files of one walk are all different, on a host with either separator, as long
  as no name has a backslash: the receiver can tell the files of a folder apart.\<close>

lemma relative_paths_distinct:
  assumes "collect_files_recursive dir root = Inr fs" and "is_dir root" and "names_ok root"
    and "sep = CHR ''/'' \<or> sep = CHR 0x5C"
    and "\<forall>f \<in> set fs. \<forall>c \<in> set (drop (length dir) f). CHR 0x5C \<notin> set c"
  shows "distinct (map (\<lambda>f. relative_path_string sep f dir) fs)"
proof -
  have m: "mset fs = mset (files_under dir root)"
    using collect_loop_result [of "[(dir, root)]" "[]"] assms(1,2)
    by (auto simp: collect_files_recursive_def split: if_splits)
  then have "distinct fs" and set: "set fs = set (files_under dir root)"
    using files_distinct(1) [OF assms(3), of dir] mset_eq_imp_distinct_iff mset_eq_setD by blast+
  moreover have "inj_on (\<lambda>f. relative_path_string sep f dir) (set fs)"
  proof (rule inj_onI)
    fix f g
    assume f: "f \<in> set fs" and g: "g \<in> set fs"
      and eq: "relative_path_string sep f dir = relative_path_string sep g dir"
    obtain r where r: "f = dir @ r" "plain r" using files_plain(1) [OF assms(3)] f set by blast
    obtain q where q: "g = dir @ q" "plain q" using files_plain(1) [OF assms(3)] g set by blast
    have "path_string (CHR ''/'') r = path_string (CHR ''/'') q"
      using eq normalized_path [OF _ assms(4)] assms(5) f g r q by force
    then show "f = g" using path_string_inject r q by simp
  qed
  ultimately show ?thesis by (simp add: distinct_map)
qed

theorem relative_paths_distinct_witness:
  "\<exists>fs. collect_files_recursive [''d''] (Directory [(''a'', RegularFile 3), (''s'', Directory [(''b'', RegularFile 4)])]) =
      Inr fs \<and> distinct (map (\<lambda>f. relative_path_string (CHR 0x5C) f [''d'']) fs)"
proof -
  have c: "collect_files_recursive [''d''] (Directory [(''a'', RegularFile 3), (''s'', Directory [(''b'', RegularFile 4)])]) =
      Inr [[''d'', ''a''], [''d'', ''s'', ''b'']]"
    by (simp add: collect_files_recursive_def)
  from relative_paths_distinct [OF c, of "CHR 0x5C"] c show ?thesis by simp
qed

text \<open>On a host whose separator is the slash, a backslash is an ordinary character of a file name, and the
  normalization then makes two different files one: the names below are of a file \<open>a\b\<close> and of a file
  \<open>b\<close> in a directory \<open>a\<close>.\<close>

lemma backslash_names_collide:
  "relative_path_string (CHR ''/'') [''d'', [CHR ''a'', CHR 0x5C, CHR ''b'']] [''d''] =
   relative_path_string (CHR ''/'') [''d'', ''a'', ''b''] [''d'']"
  by (simp add: relative_path_string_def replace_char_def)

end
