(* ===== verification/Transfer_Ops.thy ===== *)
theory Transfer_Ops
  imports Manager Folder_Walk
begin

text \<open>
  The transfer operations a user starts, from core/src/connection_manager.rs: offering a file or a folder,
  what the spawned task does with the answer, the task of one chunk, the end of a transfer, accepting
  and rejecting offers, cancel, pause and resume, and the automatic resume on reconnection.  The loop
  that starts the chunk tasks is in the theory \<open>Workers\<close>.  Fresh \<open>Uuid\<close> texts are arguments.
\<close>

section \<open>Paths\<close>

text \<open>\<open>Path::join\<close> with the slash as separator: an absolute second part replaces the first.\<close>

definition path_join :: "string \<Rightarrow> string \<Rightarrow> string" where
  "path_join dir name =
     (if name \<noteq> [] \<and> hd name = CHR ''/'' then name
      else if dir = [] \<or> last dir = CHR ''/'' then dir @ name
      else dir @ CHR ''/'' # name)"

section \<open>Accepting and rejecting\<close>

definition prepare_to_receive :: "string \<Rightarrow> u64 \<Rightarrow> ('h, 't) manager \<Rightarrow> string res \<times> ('h, 't) manager" where
  "prepare_to_receive tid total_size m =
     (let path = path_join (m_downloads_dir m) tid;
          (fs, r) = preallocate_file (m_fs m) path total_size
      in (andThen r (\<lambda>_. Inr path), m\<lparr>m_fs := fs\<rparr>))"

text \<open>The handle of an accepted offer: fresh, or rebuilt from the manifest.\<close>

definition incoming_handle :: "nat \<Rightarrow> file_offer \<Rightarrow> storage \<Rightarrow> transfer_handle" where
  "incoming_handle now offer db =
     (let acked = (case load_acked_chunks (fo_transfer_id offer) db of Inr s \<Rightarrow> s | Inl _ \<Rightarrow> {}) in
      if acked = {} then handle_new now (fo_transfer_id offer) (fo_file_name offer) (fo_file_size offer)
      else resume_from_manifest now (fo_transfer_id offer) (fo_file_name offer) (fo_file_size offer) acked)"

definition accept_file ::
    "('h, 't) env \<Rightarrow> nat \<Rightarrow> string \<Rightarrow> file_offer \<Rightarrow> ('h, 't) manager \<Rightarrow> string res \<times> ('h, 't) manager" where
  "accept_file env now src offer m =
     (case prepare_to_receive (fo_transfer_id offer) (fo_file_size offer) m of
        (Inl e, m1) \<Rightarrow> (Inl e, m1)
      | (Inr dest, m1) \<Rightarrow>
          let a = m_next m1;
              h = incoming_handle now offer (m_storage m1);
              db = snd (create_transfer (e_wall env now) (fo_transfer_id offer) (fo_message_id offer)
                (fo_file_name offer) (fo_file_size offer) (fo_mime_type offer) (fo_total_chunks offer)
                (fo_chunk_size offer) ''receive'' dest (m_storage m1));
              m2 = m1\<lparr>m_handles := (m_handles m1)(a := h), m_next := Suc a, m_storage := db,
                      m_incoming := (m_incoming m1)(fo_transfer_id offer \<mapsto>
                        \<lparr>it_dest_path = dest, it_handle = a\<rparr>)\<rparr>;
              (r, m3) = send_to env src (FileAccept (fo_transfer_id offer)) m2
          in (andThen r (\<lambda>_. Inr dest), m3))"

definition reject_file ::
    "('h, 't) env \<Rightarrow> string \<Rightarrow> string \<Rightarrow> string \<Rightarrow> ('h, 't) manager \<Rightarrow> unit res \<times> ('h, 't) manager" where
  "reject_file env src tid reason m = send_to env src (FileReject tid reason) m"

definition accept_folder :: "('h, 't) env \<Rightarrow> string \<Rightarrow> string \<Rightarrow> ('h, 't) manager \<Rightarrow> unit res \<times> ('h, 't) manager" where
  "accept_folder env src batch m = send_to env src (FolderAccept batch) m"

definition reject_folder ::
    "('h, 't) env \<Rightarrow> string \<Rightarrow> string \<Rightarrow> string \<Rightarrow> ('h, 't) manager \<Rightarrow> unit res \<times> ('h, 't) manager" where
  "reject_folder env src batch reason m = send_to env src (FolderReject batch reason) m"

section \<open>Offering a file\<close>

definition local_path_for_db :: "file_source \<Rightarrow> string" where
  "local_path_for_db src = (case src of Path p \<Rightarrow> p | Fd fd \<Rightarrow> ''fd:'' @ show_int fd)"

text \<open>What the caller says of the file.\<close>

record file_info =
  fi_name :: string
  fi_size :: u64
  fi_mime :: string
  fi_message_id :: string
  fi_conversation_id :: string
  fi_relative_path :: string
  fi_folder_batch_id :: "string option"

definition send_file ::
    "('h, 't) env \<Rightarrow> nat \<Rightarrow> string \<Rightarrow> string \<Rightarrow> file_source \<Rightarrow> file_info \<Rightarrow> ('h, 't) manager \<Rightarrow>
      string res \<times> ('h, 't) manager" where
  "send_file env now tid peer src info m =
     (let a = m_next m; tx = Suc a;
          h = handle_new now tid (fi_name info) (fi_size info);
          db = snd (create_transfer (e_wall env now) tid (fi_message_id info) (fi_name info) (fi_size info)
            (fi_mime info) (th_total_chunks h) (of_nat CHUNK_SIZE) ''send'' (local_path_for_db src) (m_storage m));
          m1 = m\<lparr>m_handles := (m_handles m)(a := h), m_answers := (m_answers m)(tx := Waiting), m_next := Suc tx,
                 m_storage := db,
                 m_outgoing := (m_outgoing m)(tid \<mapsto>
                   \<lparr>ot_source = src, ot_handle = a, ot_accept_tx = Some tx\<rparr>)\<rparr>;
          offer = \<lparr>fo_transfer_id = tid, fo_message_id = fi_message_id info,
                   fo_conversation_id = fi_conversation_id info, fo_file_name = fi_name info,
                   fo_file_size = fi_size info, fo_mime_type = fi_mime info, fo_total_chunks = th_total_chunks h,
                   fo_chunk_size = of_nat CHUNK_SIZE, fo_relative_path = fi_relative_path info,
                   fo_folder_batch_id = fi_folder_batch_id info\<rparr>;
          (r, m2) = send_to env peer (FileOffer offer) m1
      in (andThen r (\<lambda>_. Inr tid), m2))"

text \<open>The spawned task once the answer is there or the wait of 120 seconds is over (\<open>timed_out\<close>): whether the
  transfer starts, and the state it leaves.\<close>

definition offer_answered :: "bool \<Rightarrow> nat \<Rightarrow> string \<Rightarrow> ('h, 't) manager \<Rightarrow> bool \<times> ('h, 't) manager" where
  "offer_answered timed_out tx tid m =
     (if \<not> timed_out \<and> m_answers m tx = Answered True then (True, m)
      else (False, remove_outgoing tid m))"

section \<open>Offering a folder\<close>

text \<open>What \<open>metadata\<close> says of a path below the root of the tree.\<close>

fun entry_at :: "entry \<Rightarrow> path \<Rightarrow> entry option" where
  "entry_at e [] = Some e"
| "entry_at (Directory es) (n # p) = (case map_of es n of Some e \<Rightarrow> entry_at e p | None \<Rightarrow> None)"
| "entry_at _ (n # p) = None"

text \<open>The manifest with the sizes added up in \<open>u64\<close>, file by file.\<close>

fun folder_manifest :: "char \<Rightarrow> path \<Rightarrow> entry \<Rightarrow> path list \<Rightarrow> (folder_file_entry list \<times> u64) res" where
  "folder_manifest sep dir tree [] = Inr ([], 0)"
| "folder_manifest sep dir tree (f # fs) =
     (case entry_at tree (drop (length dir) f) of
        Some (RegularFile n) \<Rightarrow>
          andThen (folder_manifest sep dir tree fs) (\<lambda>(es, tot).
            Inr (\<lparr>fe_relative_path = relative_path_string sep f dir, fe_file_size = n,
                   fe_mime_type = mime_guess_from_extension f\<rparr> # es, n + tot))
      | _ \<Rightarrow> Inl (Io os_not_found))"

text \<open>\<open>send_folder\<close> up to the wait: the files, their manifest entries, and the answer channel.\<close>

definition offer_folder ::
    "('h, 't) env \<Rightarrow> string \<Rightarrow> string \<Rightarrow> string \<Rightarrow> char \<Rightarrow> path \<Rightarrow> entry \<Rightarrow> ('h, 't) manager \<Rightarrow>
      (path list \<times> folder_file_entry list \<times> nat) res \<times> ('h, 't) manager" where
  "offer_folder env batch peer conv sep dir tree m =
     (case collect_files_recursive dir tree of
        Inl e \<Rightarrow> (Inl e, m)
      | Inr fs \<Rightarrow>
          if fs = [] then (Inl (InvalidState ''folder contains no files to send''), m)
          else
            case folder_manifest sep dir tree fs of
              Inl e \<Rightarrow> (Inl e, m)
            | Inr (manifest, tot) \<Rightarrow>
                let name = (if dir = [] then ''folder'' else last dir);
                    tx = m_next m;
                    m1 = m\<lparr>m_answers := (m_answers m)(tx := Waiting), m_next := Suc tx,
                           m_folder_offers := (m_folder_offers m)(batch \<mapsto> Some tx)\<rparr>;
                    offer = \<lparr>fd_folder_batch_id = batch, fd_conversation_id = conv, fd_folder_name = name,
                      fd_total_files = of_nat (length fs), fd_total_size = tot, fd_files = manifest\<rparr>;
                    (r, m2) = send_to env peer (FolderOffer offer) m1
                in (andThen r (\<lambda>_. Inr (fs, manifest, tx)), m2))"

text \<open>The offers of the files one by one, a failing one skipped; \<open>ids\<close> are the fresh transfer and message ids.\<close>

fun send_folder_files ::
    "('h, 't) env \<Rightarrow> nat \<Rightarrow> string \<Rightarrow> string \<Rightarrow> string \<Rightarrow> char \<Rightarrow>
      (path \<times> folder_file_entry \<times> string \<times> string) list \<Rightarrow> ('h, 't) manager \<Rightarrow>
      (string \<times> string) list \<times> ('h, 't) manager" where
  "send_folder_files env now batch peer conv sep [] m = ([], m)"
| "send_folder_files env now batch peer conv sep ((f, e, tid, mid) # rest) m =
     (let (r, m1) = send_file env now tid peer (Path (path_string sep f))
            \<lparr>fi_name = (if f = [] then ''file'' else last f), fi_size = fe_file_size e, fi_mime = fe_mime_type e,
             fi_message_id = mid, fi_conversation_id = conv, fi_relative_path = fe_relative_path e,
             fi_folder_batch_id = Some batch\<rparr> m;
          (rs, m2) = send_folder_files env now batch peer conv sep rest m1
      in (case r of Inr t \<Rightarrow> (fe_relative_path e, t) # rs | Inl _ \<Rightarrow> rs, m2))"

definition folder_answered ::
    "('h, 't) env \<Rightarrow> nat \<Rightarrow> bool \<Rightarrow> nat \<Rightarrow> string \<Rightarrow> string \<Rightarrow> string \<Rightarrow> char \<Rightarrow>
      (path \<times> folder_file_entry \<times> string \<times> string) list \<Rightarrow> ('h, 't) manager \<Rightarrow>
      (string \<times> string) list res \<times> ('h, 't) manager" where
  "folder_answered env now timed_out tx batch peer conv sep offered m =
     (let accepted = (\<not> timed_out \<and> m_answers m tx = Answered True);
          m1 = remove_folder_offer batch m
      in if \<not> accepted then (Inl (InvalidState ''folder offer was rejected or timed out''), m1)
         else
           let (results, m2) = send_folder_files env now batch peer conv sep offered m1
           in if results = [] then (Inl (InvalidState ''no files in folder could be offered (all failed)''), m2)
              else (Inr results, m2))"

section \<open>Sending the chunks\<close>

text \<open>The spawned task of one chunk over a QUIC session.\<close>

definition chunk_task ::
    "('h, 't) env \<Rightarrow> nat \<Rightarrow> stream_id \<Rightarrow> string \<Rightarrow> file_source \<Rightarrow> nat \<Rightarrow> u64 \<Rightarrow> ('h, 't) manager \<Rightarrow> unit res \<times> ('h, 't) manager"
where
  "chunk_task env now c tid src a i m =
     (case read_chunk_from_source (m_fs m) src i of
        Inl e \<Rightarrow> (Inl e, m)
      | Inr payload \<Rightarrow>
          let frame = chunk_frame_new (sha256 (e_crypto env)) i payload;
              msg = FileChunk \<lparr>fc_transfer_id = tid, fc_chunk_index = i, fc_payload = cf_payload frame,
                fc_checksum_sha256 = cf_checksum frame\<rparr>
          in case stream_send c tid msg m of
               (Inl e, m1) \<Rightarrow> (Inl e, m1)
             | (Inr _, m1) \<Rightarrow>
                 let m2 = update_handle a (mark_chunk_acked now i (of_nat (length payload))) m1;
                     m3 = m2\<lparr>m_storage := snd (db_mark_chunk_acked tid i (m_storage m2))\<rparr>
                 in (Inr (), emit (OnTransferProgress (progress (m_handles m3 a) Active)) m3))"

text \<open>\<open>run_outgoing_transfer\<close> before its loop, and after the join of its tasks.\<close>

definition outgoing_session :: "string \<Rightarrow> ('h, 't) manager \<Rightarrow> peer_session res" where
  "outgoing_session peer m =
     ok_or (NotFound (''peer '' @ peer @ '' not connected'')) (m_sessions m peer)"

definition finish_outgoing ::
    "('h, 't) env \<Rightarrow> nat \<Rightarrow> string \<Rightarrow> string \<Rightarrow> nat \<Rightarrow> ('h, 't) manager \<Rightarrow> ('h, 't) manager" where
  "finish_outgoing env now peer tid a m =
     (let m1 = remove_outgoing tid m;
          cancelled = th_cancelled (m_handles m1 a);
          m2 = (if cancelled
                then snd (send_to env peer (FileTransferCancelled tid (di_device_id (m_identity m1))) m1)
                else m1);
          st = (if cancelled then Cancelled else Completed);
          p = progress (m_handles m2 a) st
      in emit (OnTransferProgress p)
           (m2\<lparr>m_storage := snd (update_transfer_state (e_wall env now) tid (as_str st) (tp_bytes_transferred p)
              (m_storage m2))\<rparr>))"

section \<open>Cancel, pause, resume\<close>

definition cancel_transfer :: "('h, 't) env \<Rightarrow> string \<Rightarrow> string \<Rightarrow> ('h, 't) manager \<Rightarrow> unit res \<times> ('h, 't) manager" where
  "cancel_transfer env peer tid m =
     send_to env peer (FileTransferCancelled tid (di_device_id (m_identity m))) (cancel_handles tid m)"

definition pause_outgoing_transfer :: "string \<Rightarrow> ('h, 't) manager \<Rightarrow> ('h, 't) manager" where
  "pause_outgoing_transfer tid m =
     (case m_outgoing m tid of None \<Rightarrow> m | Some t \<Rightarrow> update_handle (ot_handle t) pause m)"

definition resume_outgoing_transfer :: "string \<Rightarrow> ('h, 't) manager \<Rightarrow> ('h, 't) manager" where
  "resume_outgoing_transfer tid m =
     (case m_outgoing m tid of None \<Rightarrow> m | Some t \<Rightarrow> update_handle (ot_handle t) resume m)"

definition is_connected :: "string \<Rightarrow> ('h, 't) manager \<Rightarrow> bool" where
  "is_connected did m \<longleftrightarrow> m_sessions m did \<noteq> None"

definition connected_device_ids :: "('h, 't) manager \<Rightarrow> string set" where
  "connected_device_ids m = dom (m_sessions m)"

section \<open>Automatic resume\<close>

text \<open>One entry of the resumable list: skipped, or the handle it is resumed with, now in the state.\<close>

definition auto_resume_entry ::
    "nat \<Rightarrow> string \<Rightarrow> string \<times> string \<times> string \<times> string \<Rightarrow> ('h, 't) manager \<Rightarrow> nat option \<times> ('h, 't) manager" where
  "auto_resume_entry now did entry m =
     (let (tid, peer, direction, local_path) = entry in
      if peer \<noteq> did \<or> direction \<noteq> ''send'' then (None, m)
      else if m_outgoing m tid \<noteq> None then (None, m)
      else if take 3 local_path = ''fd:'' then (None, m)
      else
        case load_transfer_meta tid (m_storage m) of
          Inl _ \<Rightarrow> (None, m)
        | Inr None \<Rightarrow> (None, m)
        | Inr (Some (name, total_bytes, path)) \<Rightarrow>
            let acked = (case load_acked_chunks tid (m_storage m) of Inr s \<Rightarrow> s | Inl _ \<Rightarrow> {});
                a = m_next m
            in (Some a, m\<lparr>m_handles := (m_handles m)(a := resume_from_manifest now tid name total_bytes acked),
                  m_next := Suc a,
                  m_outgoing := (m_outgoing m)(tid \<mapsto>
                    \<lparr>ot_source = Path local_path, ot_handle = a, ot_accept_tx = None\<rparr>)\<rparr>))"

text \<open>The whole list; \<open>run\<close> is \<open>run_outgoing_transfer\<close> on the transfer and its handle.\<close>

fun auto_resume_list ::
    "nat \<Rightarrow> string \<Rightarrow> (string \<Rightarrow> nat \<Rightarrow> ('h, 't) manager \<Rightarrow> ('h, 't) manager) \<Rightarrow>
      (string \<times> string \<times> string \<times> string) list \<Rightarrow> ('h, 't) manager \<Rightarrow> ('h, 't) manager" where
  "auto_resume_list now did run [] m = m"
| "auto_resume_list now did run (entry # entries) m =
     (case auto_resume_entry now did entry m of
        (None, m') \<Rightarrow> auto_resume_list now did run entries m'
      | (Some a, m') \<Rightarrow> auto_resume_list now did run entries (run (fst entry) a m'))"

definition auto_resume_transfers_to_peer ::
    "nat \<Rightarrow> string \<Rightarrow> (string \<Rightarrow> nat \<Rightarrow> ('h, 't) manager \<Rightarrow> ('h, 't) manager) \<Rightarrow> ('h, 't) manager \<Rightarrow> ('h, 't) manager" where
  "auto_resume_transfers_to_peer now did run m =
     (case list_resumable_transfers_with_peer (m_storage m) of
        Inl _ \<Rightarrow> m
      | Inr entries \<Rightarrow> auto_resume_list now did run entries m)"

end
