(* ===== verification/Operations.thy ===== *)
theory Operations
  imports Transfer_Ops
begin

text \<open>
  The operations of the connection manager on the sessions there are, as the steps of one relation, and the
  contract under which a predicate on the manager's state is kept by all of them: it is enough that the few
  elementary changes they are made of keep it.
\<close>

section \<open>The operations as steps\<close>

text \<open>One rule per operation, with whatever arguments its caller or the network gives it.\<close>

inductive local_step :: "('h, 't) env \<Rightarrow> ('h, 't) manager \<Rightarrow> ('h, 't) manager \<Rightarrow> bool" for env where
  sending: "local_step env m (snd (send_to env did msg m))"
| receiving_frame: "local_step env m (snd (decrypt_and_dispatch env now src a ct m))"
| session_down: "local_step env m (control_reader env did a frames m)"
| accepting_file: "local_step env m (snd (accept_file env now src offer m))"
| rejecting_file: "local_step env m (snd (reject_file env src tid reason m))"
| accepting_folder: "local_step env m (snd (accept_folder env src batch m))"
| rejecting_folder: "local_step env m (snd (reject_folder env src batch reason m))"
| offering_file: "local_step env m (snd (send_file env now tid peer source info m))"
| file_answer: "local_step env m (snd (offer_answered timed_out tx tid m))"
| offering_folder: "local_step env m (snd (offer_folder env batch peer conv sep dir tree m))"
| folder_answer: "local_step env m (snd (folder_answered env now timed_out tx batch peer conv sep offered m))"
| opening_stream: "local_step env m (snd (transfer_stream_sender opened ps tid m))"
| sending_chunk: "local_step env m (snd (chunk_task env now c tid source a i m))"
| writing_stream: "local_step env m (run_stream_writer env can_write a c tid m)"
| forwarding: "local_step env m (run_relay_forwarder env ps n tid m)"
| finishing: "local_step env m (finish_outgoing env now peer tid a m)"
| cancelling: "local_step env m (snd (cancel_transfer env peer tid m))"
| pausing: "local_step env m (pause_outgoing_transfer tid m)"
| resuming: "local_step env m (resume_outgoing_transfer tid m)"
| auto_resuming: "local_step env m (snd (auto_resume_entry now did entry m))"

section \<open>The contract\<close>

text \<open>The new entries of the tables: an accepted offer, an offer that waits for its answer, a transfer resumed, a
  folder offer.\<close>

definition add_incoming :: "string \<Rightarrow> string \<Rightarrow> ('h, 't) manager \<Rightarrow> ('h, 't) manager" where
  "add_incoming tid dest m =
     m\<lparr>m_next := Suc (m_next m),
       m_incoming := (m_incoming m)(tid \<mapsto> \<lparr>it_dest_path = dest, it_handle = m_next m\<rparr>)\<rparr>"

definition add_offer :: "string \<Rightarrow> file_source \<Rightarrow> ('h, 't) manager \<Rightarrow> ('h, 't) manager" where
  "add_offer tid src m =
     m\<lparr>m_answers := (m_answers m)(Suc (m_next m) := Waiting), m_next := Suc (Suc (m_next m)),
       m_outgoing := (m_outgoing m)(tid \<mapsto>
         \<lparr>ot_source = src, ot_handle = m_next m, ot_accept_tx = Some (Suc (m_next m))\<rparr>)\<rparr>"

definition add_resumed :: "string \<Rightarrow> file_source \<Rightarrow> ('h, 't) manager \<Rightarrow> ('h, 't) manager" where
  "add_resumed tid src m =
     m\<lparr>m_next := Suc (m_next m),
       m_outgoing := (m_outgoing m)(tid \<mapsto> \<lparr>ot_source = src, ot_handle = m_next m, ot_accept_tx = None\<rparr>)\<rparr>"

definition add_folder_offer :: "string \<Rightarrow> ('h, 't) manager \<Rightarrow> ('h, 't) manager" where
  "add_folder_offer batch m =
     m\<lparr>m_answers := (m_answers m)(m_next m := Waiting), m_next := Suc (m_next m),
       m_folder_offers := (m_folder_offers m)(batch \<mapsto> Some (m_next m))\<rparr>"

locale operations_keep =
  fixes P :: "('h, 't) manager \<Rightarrow> bool"
    and env :: "('h, 't) env"
  assumes sent: "P m \<Longrightarrow> P (snd (send_message env ps msg m))"
    and decrypted: "P m \<Longrightarrow> P (m\<lparr>m_noise := (m_noise m)(a := snd (decrypt (e_snow env) (m_noise m a) ct))\<rparr>)"
    and written: "P m \<Longrightarrow> P (run_stream_writer env can_write a c tid m)"
    and forwarded: "P m \<Longrightarrow> P (run_relay_forwarder env ps n tid m)"
    and streams: "P m \<Longrightarrow> P (m\<lparr>m_streams := streams\<rparr>)"
    and address_taken: "P m \<Longrightarrow> P (m\<lparr>m_next := Suc (m_next m)\<rparr>)"
    and handles: "P m \<Longrightarrow> P (m\<lparr>m_handles := hs\<rparr>)"
    and filed: "P m \<Longrightarrow> P (m\<lparr>m_fs := fs\<rparr>)"
    and emitted: "P m \<Longrightarrow> P (emit ev m)"
    and stored: "P m \<Longrightarrow> transfers_only (m_storage m) db \<Longrightarrow> P (m\<lparr>m_storage := db\<rparr>)"
    and incoming_gone: "P m \<Longrightarrow> P (m\<lparr>m_incoming := (m_incoming m)(tid := None)\<rparr>)"
    and session_gone: "P m \<Longrightarrow> P (m\<lparr>m_sessions := (m_sessions m)(did := None)\<rparr>)"
    and file_answered: "P m \<Longrightarrow> P (answer_file b tid m)"
    and folder_answered': "P m \<Longrightarrow> P (answer_folder b batch m)"
    and outgoing_gone: "P m \<Longrightarrow> P (remove_outgoing tid m)"
    and folder_gone: "P m \<Longrightarrow> P (remove_folder_offer batch m)"
    and incoming_added: "P m \<Longrightarrow> P (add_incoming tid dest m)"
    and offer_added: "P m \<Longrightarrow> P (add_offer tid src m)"
    and resumed_added: "P m \<Longrightarrow> P (add_resumed tid src m)"
    and folder_offer_added: "P m \<Longrightarrow> P (add_folder_offer batch m)"
begin

lemma handle_updated: "P m \<Longrightarrow> P (update_handle h f m)"
  by (simp add: update_handle_def handles)

lemma sent_to: "P m \<Longrightarrow> P (snd (send_to env did msg m))"
  by (simp add: send_to_def sent split: option.split)

lemma tried: "P m \<Longrightarrow> P (try_send env did msg m)"
  by (simp add: try_send_def sent split: option.split)

lemmas basics = emitted handle_updated sent_to tried decrypted written forwarded streams address_taken handles filed stored
  incoming_gone session_gone file_answered folder_answered' outgoing_gone folder_gone incoming_added
  offer_added resumed_added folder_offer_added

lemma handled_answers:
  "P m \<Longrightarrow> P (handle_file_accept src tid m)" "P m \<Longrightarrow> P (handle_file_reject src tid reason m)"
  "P m \<Longrightarrow> P (handle_folder_accept src batch m)" "P m \<Longrightarrow> P (handle_folder_reject src batch reason m)"
  by (simp_all add: handle_file_accept_def handle_file_reject_def handle_folder_accept_def
      handle_folder_reject_def basics)

lemma chunk_recorded: "P m \<Longrightarrow> P (record_chunk env now c a fs m)"
  by (simp add: record_chunk_def Let_def basics preserves)

lemma incoming_completed: "P m \<Longrightarrow> P (complete_incoming env now src tid a m)"
proof -
  assume "P m"
  then have "P (m\<lparr>m_incoming := (m_incoming m)(tid := None)\<rparr>)" by (rule incoming_gone)
  from stored [OF this] have "P (m\<lparr>m_incoming := (m_incoming m)(tid := None), m_storage := db\<rparr>)"
    if "transfers_only (m_storage m) db" for db
    using that by simp
  then show ?thesis by (simp add: complete_incoming_def Let_def basics preserves)
qed

lemma chunk_handled: "P m \<Longrightarrow> P (handle_incoming_chunk env now src c m)"
  by (simp add: handle_incoming_chunk_def Let_def basics chunk_recorded incoming_completed
      split: option.split sum.split)

lemma handles_cancelled: "P m \<Longrightarrow> P (cancel_handles tid m)"
  by (simp add: cancel_handles_def Let_def basics split: option.split)

lemma dispatched: "P m \<Longrightarrow> P (dispatch_incoming env now src msg m)"
  by (cases msg) (simp_all add: basics handled_answers chunk_handled handles_cancelled)

lemma decrypted_and_dispatched: "P m \<Longrightarrow> P (snd (decrypt_and_dispatch env now src a ct m))"
proof -
  assume m: "P m"
  obtain r s where d: "decrypt (e_snow env) (m_noise m a) ct = (r, s)" by (rule prod.exhaust)
  have "P (m\<lparr>m_noise := (m_noise m)(a := s)\<rparr>)" using decrypted [OF m, of a ct] by (simp add: d)
  then show ?thesis by (simp add: decrypt_and_dispatch_def Let_def d dispatched split: sum.split)
qed

lemma frames_read: "P m \<Longrightarrow> P (read_frames env src a frames m)"
proof (induction frames arbitrary: m)
  case (Cons f frames)
  obtain now ct where f: "f = (now, ct)" by (rule prod.exhaust)
  obtain b m' where d: "decrypt_and_dispatch env now src a ct m = (b, m')" by (rule prod.exhaust)
  then have "P m'" using decrypted_and_dispatched [OF Cons(2)] by (metis snd_conv)
  then show ?case using Cons(1) by (simp add: f d split: bool.split)
qed simp

lemma control_read: "P m \<Longrightarrow> P (control_reader env did a frames m)"
  by (simp add: control_reader_def Let_def basics frames_read)

lemma accepted: "P m \<Longrightarrow> P (snd (accept_file env now src offer m))"
proof -
  assume m: "P m"
  have new: "P (m\<lparr>m_fs := fs, m_handles := hs, m_next := Suc (m_next m), m_storage := db,
      m_incoming := (m_incoming m)(tid \<mapsto> \<lparr>it_dest_path = dest, it_handle = m_next m\<rparr>)\<rparr>)"
    if "transfers_only (m_storage m) db" for fs hs db tid dest
  proof -
    have "P ((add_incoming tid dest m)\<lparr>m_fs := fs, m_handles := hs, m_storage := db\<rparr>)"
      by (intro stored handles filed incoming_added m) (use that in \<open>simp add: add_incoming_def\<close>)
    then show ?thesis by (cases m) (simp add: add_incoming_def)
  qed
  have "P (m\<lparr>m_fs := fs\<rparr>)" for fs using m by (rule filed)
  with new show ?thesis
    by (auto simp: accept_file_def prepare_to_receive_def Let_def case_prod_beta sent_to preserves
        split: sum.split)
qed

lemma offered: "P m \<Longrightarrow> P (snd (send_file env now tid peer src info m))"
proof -
  assume m: "P m"
  have new: "P (m\<lparr>m_handles := hs, m_answers := (m_answers m)(Suc (m_next m) := Waiting),
      m_next := Suc (Suc (m_next m)), m_storage := db, m_outgoing := (m_outgoing m)(tid \<mapsto>
        \<lparr>ot_source = src, ot_handle = m_next m, ot_accept_tx = Some (Suc (m_next m))\<rparr>)\<rparr>)"
    if "transfers_only (m_storage m) db" for hs db
  proof -
    have "P ((add_offer tid src m)\<lparr>m_handles := hs, m_storage := db\<rparr>)"
      by (intro stored handles offer_added m) (use that in \<open>simp add: add_offer_def\<close>)
    then show ?thesis by (cases m) (simp add: add_offer_def)
  qed
  then show ?thesis by (simp add: send_file_def Let_def case_prod_beta sent_to preserves)
qed

lemma offer_ended: "P m \<Longrightarrow> P (snd (offer_answered timed_out tx tid m))"
  by (simp add: offer_answered_def basics)

lemma folder_offered: "P m \<Longrightarrow> P (snd (offer_folder env batch peer conv sep dir tree m))"
  using folder_offer_added [of m batch]
  by (simp add: offer_folder_def Let_def case_prod_beta sent_to add_folder_offer_def split: sum.split prod.split)

lemma folder_files_sent: "P m \<Longrightarrow> P (snd (send_folder_files env now batch peer conv sep listed m))"
proof (induction listed arbitrary: m)
  case (Cons x listed)
  obtain f e tid mid where x: "x = (f, e, tid, mid)" by (rule prod_cases4)
  show ?case unfolding x send_folder_files.simps Let_def case_prod_beta snd_conv
    by (rule Cons(1)) (rule offered [OF Cons(2)])
qed simp

lemma folder_offer_ended:
  "P m \<Longrightarrow> P (snd (folder_answered env now timed_out tx batch peer conv sep listed m))"
  by (simp add: folder_answered_def Let_def case_prod_beta basics folder_files_sent)

lemma streams_used:
  "P m \<Longrightarrow> P (snd (stream_send c tid msg m))" "P m \<Longrightarrow> P (snd (transfer_stream_sender opened ps tid m))"
proof -
  show "P m \<Longrightarrow> P (snd (stream_send c tid msg m))" by (simp add: stream_send_def basics split: option.split)
  have "P m \<Longrightarrow> P (m\<lparr>m_streams := st, m_next := Suc (m_next m)\<rparr>)" for st
    using streams [OF address_taken, of m st] by (cases m) simp
  then show "P m \<Longrightarrow> P (snd (transfer_stream_sender opened ps tid m))"
    by (simp add: transfer_stream_sender_def basics split: option.split sum.split outbound_path.split)
qed

lemma chunk_sent: "P m \<Longrightarrow> P (snd (chunk_task env now c tid src a i m))"
proof -
  assume m: "P m"
  have s: "P m1" if "stream_send c tid msg m = (r, m1)" for msg r m1
    using that streams_used(1) [OF m] by (metis snd_conv)
  show ?thesis
    by (auto simp: chunk_task_def Let_def m split: sum.split prod.split dest!: s
        intro!: emitted stored handle_updated preserves)
qed

lemma outgoing_finished: "P m \<Longrightarrow> P (finish_outgoing env now peer tid a m)"
  by (simp add: finish_outgoing_def Let_def basics preserves)

lemma transfer_controlled:
  "P m \<Longrightarrow> P (snd (cancel_transfer env peer tid m))" "P m \<Longrightarrow> P (pause_outgoing_transfer tid m)"
  "P m \<Longrightarrow> P (resume_outgoing_transfer tid m)"
  by (simp_all add: cancel_transfer_def pause_outgoing_transfer_def resume_outgoing_transfer_def basics
      handles_cancelled split: option.split)

lemma resumed: "P m \<Longrightarrow> P (snd (auto_resume_entry now did entry m))"
proof -
  assume m: "P m"
  have "P (m\<lparr>m_handles := hs, m_next := Suc (m_next m), m_outgoing := (m_outgoing m)(tid \<mapsto>
      \<lparr>ot_source = src, ot_handle = m_next m, ot_accept_tx = None\<rparr>)\<rparr>)" for hs tid src
    using handles [OF resumed_added [OF m, of tid src], of hs] by (cases m) (simp add: add_resumed_def)
  then show ?thesis using m by (simp add: auto_resume_entry_def Let_def split: prod.split sum.split option.split)
qed

theorem local_step_keeps: "local_step env m m' \<Longrightarrow> P m \<Longrightarrow> P m'"
  by (induction rule: local_step.induct)
    (simp_all add: basics decrypted_and_dispatched control_read accepted offered offer_ended folder_offered
      folder_offer_ended streams_used chunk_sent outgoing_finished transfer_controlled resumed
      reject_file_def accept_folder_def reject_folder_def)

end

end
