(* ===== verification/Delivery.thy ===== *)
theory Delivery
  imports Manager
begin

text \<open>
  Messages from one manager to another, end to end: \<open>send_to\<close> on one device, the frames of its control
  stream, and the reader task on the other device.  The transport is what carries the queue of the
  control stream to the reader in its order.
\<close>

section \<open>Sending a list of messages\<close>

fun send_all :: "('h, 't) env \<Rightarrow> string \<Rightarrow> protocol_message list \<Rightarrow> ('h, 't) manager \<Rightarrow> unit res list \<times> ('h, 't) manager"
where
  "send_all env did [] m = ([], m)"
| "send_all env did (msg # msgs) m =
     (let (r, m') = send_to env did msg m; (rs, m'') = send_all env did msgs m' in (r # rs, m''))"

text \<open>A message the session can carry: it encodes, decodes to itself, and fits one Noise message.\<close>

definition sendable :: "('h, 't) env \<Rightarrow> protocol_message \<Rightarrow> bool" where
  "sendable env msg \<longleftrightarrow>
     (\<exists>p. encode_plaintext (e_wire env) msg = Inr p \<and> decode_plaintext (e_wire env) p = Inr msg \<and> fits p)"

definition plaintext_of :: "('h, 't) env \<Rightarrow> protocol_message \<Rightarrow> bytes" where
  "plaintext_of env msg = (case encode_plaintext (e_wire env) msg of Inr p \<Rightarrow> p | Inl _ \<Rightarrow> [])"

lemma sendable_plaintext:
  "sendable env msg \<Longrightarrow> encode_plaintext (e_wire env) msg = Inr (plaintext_of env msg) \<and>
    decode_plaintext (e_wire env) (plaintext_of env msg) = Inr msg \<and> fits (plaintext_of env msg)"
  by (auto simp: sendable_def plaintext_of_def)

text \<open>A manager with an open QUIC session with a device, and the transport state of that session.\<close>

definition connected :: "string \<Rightarrow> nat \<Rightarrow> nat \<Rightarrow> ('h, 't) manager \<Rightarrow> bool" where
  "connected did a c m \<longleftrightarrow>
     (\<exists>ps. m_sessions m did = Some ps \<and> ps_noise ps = a \<and> ps_outbound ps = Quic c) \<and> m_control_open m c"

text \<open>The state after these ciphertexts went to the control stream.\<close>

definition after_send :: "nat \<Rightarrow> 't \<Rightarrow> nat \<Rightarrow> bytes list \<Rightarrow> ('h, 't) manager \<Rightarrow> ('h, 't) manager" where
  "after_send a t c cts m =
     m\<lparr>m_noise := (m_noise m)(a := Transport t), m_control := (m_control m)(c := m_control m c @ cts)\<rparr>"

lemma after_send_simps [simp]:
  "after_send a t' c ds (after_send a t c cs m) = after_send a t' c (cs @ ds) m"
  "m_noise (after_send a t c cs m) a = Transport t"
  "m_control (after_send a t c cs m) c = m_control m c @ cs"
  "connected did a c (after_send a t c cs m) = connected did a c m"
  by (simp_all add: after_send_def connected_def)

lemma after_send_none: "m_noise m a = Transport t \<Longrightarrow> after_send a t c [] m = m"
  by (simp add: after_send_def fun_upd_idem)

lemma send_to_connected:
  assumes "snow_laws (e_snow env) view box" and "connected did a c m" and "m_noise m a = Transport t"
    and "n_out (view t) < 2 ^ 64 - 1" and "sendable env msg"
  shows "\<exists>t'. send_to env did msg m =
      (Inr (), after_send a t' c [box (key_out (view t)) (n_out (view t)) (plaintext_of env msg)] m) \<and>
    view t' = (view t)\<lparr>n_out := Suc (n_out (view t))\<rparr>"
proof -
  obtain t' where t': "encrypt (e_snow env) (Transport t) (plaintext_of env msg) =
      (Inr (box (key_out (view t)) (n_out (view t)) (plaintext_of env msg)), Transport t')"
      "view t' = (view t)\<lparr>n_out := Suc (n_out (view t))\<rparr>"
    using encrypt_fits [OF assms(1) _ assms(4)] sendable_plaintext [OF assms(5)] by blast
  then show ?thesis
    using assms(2,3) sendable_plaintext [OF assms(5)]
    by (auto simp: connected_def send_to_def send_message_def encrypt_with_def after_send_def
        simp del: encrypt.simps)
qed

lemma send_all_connected:
  assumes "snow_laws (e_snow env) view box" and "connected did a c m" and "m_noise m a = Transport t"
    and "n_out (view t) + length msgs < 2 ^ 64" and "\<And>msg. msg \<in> set msgs \<Longrightarrow> sendable env msg"
  shows "\<exists>t'. send_all env did msgs m = (replicate (length msgs) (Inr ()),
      after_send a t' c (boxes box (key_out (view t)) (n_out (view t)) (map (plaintext_of env) msgs)) m)"
  using assms(2-)
proof (induction msgs arbitrary: m t)
  case Nil
  then show ?case by (intro exI [of _ t]) (simp add: after_send_none)
next
  case (Cons msg msgs)
  from send_to_connected [OF assms(1) Cons.prems(1,2), of msg] Cons.prems(3,4)
  obtain t1 where s: "send_to env did msg m =
      (Inr (), after_send a t1 c [box (key_out (view t)) (n_out (view t)) (plaintext_of env msg)] m)"
      "view t1 = (view t)\<lparr>n_out := Suc (n_out (view t))\<rparr>" by auto
  from Cons.IH [of "after_send a t1 c [box (key_out (view t)) (n_out (view t)) (plaintext_of env msg)] m" t1]
    Cons.prems s(2) show ?case by (auto simp: s(1))
qed

section \<open>Receiving\<close>

text \<open>Messages whose handler only tells the user interface, and what it tells.\<close>

fun notice :: "string \<Rightarrow> protocol_message \<Rightarrow> sink_event list option" where
  "notice from (Text t) = Some [OnTextMessage from t]"
| "notice from (FileOffer offer) = Some [OnFileOffer from offer]"
| "notice from (FolderOffer offer) = Some [OnFolderOffer from offer]"
| "notice from (TypingIndicator conv typing) = Some [OnTyping conv typing]"
| "notice from (ReadReceipt mid at_unix) = Some [OnReadReceipt mid at_unix]"
| "notice from (DeliveryAck mid at_unix) = Some [OnDeliveryAck mid at_unix]"
| "notice from (Presence online at_unix) = Some [OnPresence from online]"
| "notice from (FileChunkAck tid i) = Some []"
| "notice from Pong = Some []"
| "notice from _ = None"

lemma dispatch_notice:
  "notice from msg = Some evs \<Longrightarrow> dispatch_incoming env now from msg m = m\<lparr>m_events := m_events m @ evs\<rparr>"
  by (cases msg) (auto simp: emit_def)

lemma decrypt_and_dispatch_expected:
  assumes "snow_laws (e_snow env) view box" and "m_noise m a = Transport t" and "n_in (view t) < 2 ^ 64 - 1"
    and "sendable env msg"
  shows "\<exists>t'. decrypt_and_dispatch env now from a
        (box (key_in (view t)) (n_in (view t)) (plaintext_of env msg)) m =
      (True, dispatch_incoming env now from msg (m\<lparr>m_noise := (m_noise m)(a := Transport t')\<rparr>)) \<and>
    view t' = (view t)\<lparr>n_in := Suc (n_in (view t))\<rparr>"
proof -
  obtain t' where "decrypt (e_snow env) (Transport t) (box (key_in (view t)) (n_in (view t)) (plaintext_of env msg)) =
      (Inr (plaintext_of env msg), Transport t')" "view t' = (view t)\<lparr>n_in := Suc (n_in (view t))\<rparr>"
    using decrypt_expected [OF assms(1) _ assms(3)] sendable_plaintext [OF assms(4)] by blast
  then show ?thesis
    using assms(2) sendable_plaintext [OF assms(4)]
    by (intro exI [of _ t']) (simp add: decrypt_and_dispatch_def del: decrypt.simps)
qed

text \<open>The state after the reader has handled frames that only concern the user interface.\<close>

definition after_read :: "nat \<Rightarrow> 't \<Rightarrow> sink_event list \<Rightarrow> ('h, 't) manager \<Rightarrow> ('h, 't) manager" where
  "after_read a t evs m = m\<lparr>m_noise := (m_noise m)(a := Transport t), m_events := m_events m @ evs\<rparr>"

lemma after_read_simps [simp]:
  "after_read a t' es (after_read a t ds m) = after_read a t' (ds @ es) m"
  "m_noise (after_read a t es m) a = Transport t"
  "m_events (after_read a t es m) = m_events m @ es"
  by (simp_all add: after_read_def)

lemma after_read_none: "m_noise m a = Transport t \<Longrightarrow> after_read a t [] m = m"
  by (simp add: after_read_def fun_upd_idem)

lemma decrypt_and_dispatch_notice:
  assumes "snow_laws (e_snow env) view box" and "m_noise m a = Transport t" and "n_in (view t) < 2 ^ 64 - 1"
    and "sendable env msg" and "notice from msg = Some evs"
  shows "\<exists>t'. decrypt_and_dispatch env now from a
        (box (key_in (view t)) (n_in (view t)) (plaintext_of env msg)) m = (True, after_read a t' evs m) \<and>
    view t' = (view t)\<lparr>n_in := Suc (n_in (view t))\<rparr>"
  using decrypt_and_dispatch_expected [OF assms(1-4), of now "from"]
  by (auto simp: dispatch_notice [OF assms(5)] after_read_def)

lemma read_frames_notices:
  assumes "snow_laws (e_snow env) view box" and "m_noise m a = Transport t"
    and "n_in (view t) + length msgs < 2 ^ 64" and "length instants = length msgs"
    and "\<And>msg. msg \<in> set msgs \<Longrightarrow> sendable env msg \<and> notice from msg \<noteq> None"
  shows "\<exists>t'. read_frames env from a
      (zip instants (boxes box (key_in (view t)) (n_in (view t)) (map (plaintext_of env) msgs))) m =
    after_read a t' (concat (map (the \<circ> notice from) msgs)) m"
  using assms(2-)
proof (induction msgs arbitrary: m t instants)
  case Nil
  then show ?case by (intro exI [of _ t]) (simp add: after_read_none)
next
  case (Cons msg msgs)
  then obtain now later where instants: "instants = now # later" by (cases instants) auto
  obtain evs where evs: "notice from msg = Some evs" using Cons.prems(4) by auto
  from decrypt_and_dispatch_notice [OF assms(1) Cons.prems(1) _ _ evs, of now] Cons.prems(2,4)
  obtain t1 where d: "decrypt_and_dispatch env now from a
        (box (key_in (view t)) (n_in (view t)) (plaintext_of env msg)) m = (True, after_read a t1 evs m)"
      "view t1 = (view t)\<lparr>n_in := Suc (n_in (view t))\<rparr>" by auto
  from Cons.IH [of "after_read a t1 evs m" t1 later] Cons.prems d(2) instants
  show ?case by (auto simp: d(1) evs)
qed

section \<open>Delivery\<close>

lemma length_boxes_le:
  assumes "box_law box" and "\<And>p. p \<in> set ps \<Longrightarrow> fits p" and "ct \<in> set (boxes box k n ps)"
  shows "length ct \<le> MAX_FRAME"
  using assms(2,3)
proof (induction ps arbitrary: n)
  case Nil
  then show ?case by simp
next
  case (Cons p ps)
  have "length (box k n p) \<le> MAX_FRAME"
    using assms(1) Cons.prems(1) [of p] by (simp add: box_law_def fits_def NOISE_MAX_def MAX_FRAME_eq)
  with Cons show ?case by auto
qed

text \<open>The frames of a stream that holds them.\<close>

lemma frames_of_boxes:
  assumes "snow_laws (e_snow env) view box" and "\<And>msg. msg \<in> set msgs \<Longrightarrow> sendable env msg"
    and "cts = boxes box k n (map (plaintext_of env) msgs)"
    and "frames_until_error (concat (map write_framed cts)) = (frames, err)"
  shows "frames = cts"
proof -
  have "length ct \<le> MAX_FRAME" if "ct \<in> set cts" for ct
    using that length_boxes_le [of box "map (plaintext_of env) msgs"] assms(1-3) sendable_plaintext
    by (fastforce simp: snow_laws_def)
  then show ?thesis
    using frames_until_error_frames [of cts "[]"] assms(4)
    by (simp add: frames_until_error_stop read_framed_def read_exact_short)
qed

text \<open>A control stream that holds the ciphertexts of such messages, read to its end.\<close>

lemma reader_delivers:
  assumes "snow_laws (e_snow env) view box" and "m_noise mb b = Transport tb" and "in_step view ta tb"
    and "n_out (view ta) + length msgs < 2 ^ 64"
    and "\<forall>msg \<in> set msgs. sendable env msg \<and> notice alice msg \<noteq> None"
    and "cts = boxes box (key_out (view ta)) (n_out (view ta)) (map (plaintext_of env) msgs)"
    and "frames_until_error (concat (map write_framed cts)) = (frames, err)" and "length instants = length msgs"
  shows "\<exists>tb'. control_reader env alice b (zip instants frames) mb =
    emit (OnPeerDisconnected alice) ((after_read b tb' (concat (map (the \<circ> notice alice) msgs)) mb)
      \<lparr>m_sessions := (m_sessions mb)(alice := None)\<rparr>)"
proof -
  have frames: "frames = cts" using frames_of_boxes [OF assms(1) _ assms(6,7)] assms(5) by blast
  have step: "key_out (view ta) = key_in (view tb)" "n_out (view ta) = n_in (view tb)"
    using assms(3) by (simp_all add: in_step_def)
  obtain tb' where "read_frames env alice b (zip instants cts) mb =
      after_read b tb' (concat (map (the \<circ> notice alice) msgs)) mb"
    using read_frames_notices [OF assms(1,2), of msgs instants alice] assms(4-6,8) step by auto
  then show ?thesis by (intro exI [of _ tb']) (simp add: frames control_reader_def Let_def after_read_def)
qed


text \<open>Two devices for the witness: an encoder for presence messages, and managers with one session each.\<close>

definition presence_wire :: wire where
  "presence_wire =
     \<lparr>to_vec = (\<lambda>m. case m of Presence online t \<Rightarrow> Inr [if online then 1 else 0] | _ \<Rightarrow> Inl ''unsupported''),
      from_slice = (\<lambda>b. Inr (Presence (b = [1]) 0))\<rparr>"

definition toy_env :: "(bytes, noise_view) env" where
  "toy_env = \<lparr>e_wire = presence_wire, e_snow = toy_snow, e_crypto = toy_crypto, e_sig = toy_sig,
     e_wall = (\<lambda>now. int (now div 10 ^ 9))\<rparr>"

definition toy_manager :: "(bytes, noise_view) manager" where
  "toy_manager = \<lparr>m_identity = generate toy_crypto [5], m_storage = empty_storage,
     m_fs = \<lparr>files = Map.empty, creatable = (\<lambda>_. True)\<rparr>, m_downloads_dir = ''/d'',
     m_sessions = [''peer'' \<mapsto> \<lparr>ps_device_id = ''peer'', ps_noise = 0, ps_outbound = Quic 0\<rparr>],
     m_outgoing = Map.empty, m_incoming = Map.empty, m_folder_offers = Map.empty, m_signaling = None,
     m_tracker = tracker_new, m_relay_waiters = Map.empty, m_noise = (\<lambda>_. Transport toy_view),
     m_handles = (\<lambda>_. handle_new 0 [] [] 0), m_answers = (\<lambda>_. Waiting),
     m_clients = (\<lambda>_. \<lparr>outbound = [], outbound_open = True\<rparr>), m_control = (\<lambda>_. []),
     m_control_open = (\<lambda>_. True), m_streams = Map.empty, m_next = 1, m_events = []\<rparr>"

lemma toy_env_laws [simp]: "snow_laws (e_snow toy_env) (\<lambda>t. t) toy_box"
  by (simp add: toy_env_def)

lemma toy_presence_sendable [simp]: "sendable toy_env (Presence online 0)"
  by (simp add: sendable_def toy_env_def presence_wire_def encode_plaintext_def decode_plaintext_def fits_def
      NOISE_MAX_def)


end
