(* ===== verification/Stun.thy ===== *)
theory Stun
  imports Prelude "HOL-Library.Monad_Syntax"
begin

unbundle bit_operations_syntax

text \<open>
  The STUN client of core/src/stun_client.rs: the binding request, the response parser with its
  attribute walk, the two address attributes, and the query of the servers in turn.  Indexing and
  slicing are partial here as they are in the code: the outer \<open>option\<close> of a parser is \<open>None\<close>
  where the code would panic.  The network (DNS, UDP, the clock) is a parameter.
\<close>

section \<open>Constants and addresses\<close>

definition DEFAULT_STUN_SERVERS :: "string list" where
  "DEFAULT_STUN_SERVERS = [''stun.l.google.com:19302'', ''stun1.l.google.com:19302'']"

definition STUN_MAGIC_COOKIE :: u32 where "STUN_MAGIC_COOKIE = 0x2112A442"
definition STUN_BINDING_REQUEST :: u16 where "STUN_BINDING_REQUEST = 0x0001"
definition STUN_BINDING_RESPONSE :: u16 where "STUN_BINDING_RESPONSE = 0x0101"
definition ATTR_XOR_MAPPED_ADDRESS :: u16 where "ATTR_XOR_MAPPED_ADDRESS = 0x0020"
definition ATTR_MAPPED_ADDRESS :: u16 where "ATTR_MAPPED_ADDRESS = 0x0001"

text \<open>A \<open>SocketAddr\<close> of the IPv4 family: the four address bytes and the port.\<close>

datatype socket_addr = SocketAddrV4 u8 u8 u8 u8 u16

section \<open>Indexing that may panic\<close>

definition at :: "bytes \<Rightarrow> nat \<Rightarrow> u8 option" where
  "at d i = (if i < length d then Some (d ! i) else None)"

definition slice :: "bytes \<Rightarrow> nat \<Rightarrow> nat \<Rightarrow> bytes option" where
  "slice d a b = (if a \<le> b \<and> b \<le> length d then Some (take (b - a) (drop a d)) else None)"

definition u16_at :: "bytes \<Rightarrow> nat \<Rightarrow> u16 option" where
  "u16_at d i = do { a \<leftarrow> at d i; b \<leftarrow> at d (i + 1); Some (u16_from_be [a, b]) }"

lemma at_Some [simp]: "i < length d \<Longrightarrow> at d i = Some (d ! i)"
  by (simp add: at_def)

lemma slice_Some [simp]: "a \<le> b \<Longrightarrow> b \<le> length d \<Longrightarrow> slice d a b = Some (take (b - a) (drop a d))"
  by (simp add: slice_def)

lemma u16_at_Some [simp]: "i + 1 < length d \<Longrightarrow> u16_at d i = Some (u16_from_be [d ! i, d ! (i + 1)])"
  by (simp add: u16_at_def)

section \<open>Request\<close>

definition build_binding_request :: "bytes \<Rightarrow> bytes" where
  "build_binding_request tid =
     u16_to_be STUN_BINDING_REQUEST @ u16_to_be 0 @ u32_to_be STUN_MAGIC_COOKIE @ tid"

section \<open>Address attributes\<close>

definition cookie_bytes :: bytes where
  "cookie_bytes = u32_to_be STUN_MAGIC_COOKIE"

text \<open>The loop over the four address bytes also has a branch for bytes past the cookie, which it never
  takes; the transaction id is therefore not used.\<close>

definition xor_byte :: "bytes \<Rightarrow> nat \<Rightarrow> u8 option" where
  "xor_byte tid i = (if i < 4 then at cookie_bytes i else at tid (i - 4))"

definition addr_byte :: "bytes \<Rightarrow> bytes \<Rightarrow> nat \<Rightarrow> u8 option" where
  "addr_byte value tid i = do { x \<leftarrow> xor_byte tid i; v \<leftarrow> at value (4 + i); Some (v XOR x) }"

definition parse_xor_mapped_address :: "bytes \<Rightarrow> bytes \<Rightarrow> socket_addr option option" where
  "parse_xor_mapped_address value tid =
     (if length value < 8 then Some None
      else do {
        family \<leftarrow> at value 1;
        if family \<noteq> 0x01 then Some None
        else do {
          xport \<leftarrow> u16_at value 2;
          cookie_port \<leftarrow> u16_at cookie_bytes 0;
          let port = xport XOR cookie_port;
          a \<leftarrow> addr_byte value tid 0;
          b \<leftarrow> addr_byte value tid 1;
          c \<leftarrow> addr_byte value tid 2;
          d \<leftarrow> addr_byte value tid 3;
          Some (Some (SocketAddrV4 a b c d port))
        }
      })"

definition parse_mapped_address :: "bytes \<Rightarrow> socket_addr option option" where
  "parse_mapped_address value =
     (if length value < 8 then Some None
      else do {
        family \<leftarrow> at value 1;
        if family \<noteq> 0x01 then Some None
        else do {
          port \<leftarrow> u16_at value 2;
          a \<leftarrow> at value 4;
          b \<leftarrow> at value 5;
          c \<leftarrow> at value 6;
          d \<leftarrow> at value 7;
          Some (Some (SocketAddrV4 a b c d port))
        }
      })"

section \<open>The attribute walk\<close>

text \<open>The last address of each kind wins.  \<open>found\<close> is (mapped, xor-mapped).\<close>

type_synonym found = "socket_addr option \<times> socket_addr option"

fun or_keep :: "'a option \<Rightarrow> 'a option \<Rightarrow> 'a option" where
  "or_keep (Some a) old = Some a"
| "or_keep None old = old"

definition attr_value :: "u16 \<Rightarrow> bytes \<Rightarrow> bytes \<Rightarrow> found \<Rightarrow> found option" where
  "attr_value attr_type value tid found =
     (if attr_type = ATTR_XOR_MAPPED_ADDRESS then do {
        a \<leftarrow> parse_xor_mapped_address value tid;
        Some (fst found, or_keep a (snd found)) }
      else if attr_type = ATTR_MAPPED_ADDRESS then do {
        a \<leftarrow> parse_mapped_address value;
        Some (or_keep a (fst found), snd found) }
      else Some found)"

definition padded :: "nat \<Rightarrow> nat" where
  "padded n = (n + 3) div 4 * 4"

function parse_attrs :: "bytes \<Rightarrow> bytes \<Rightarrow> nat \<Rightarrow> nat \<Rightarrow> found \<Rightarrow> found option" where
  "parse_attrs data tid attrs_end offset found =
     (if offset + 4 \<le> attrs_end then do {
        attr_type \<leftarrow> u16_at data offset;
        len \<leftarrow> u16_at data (offset + 2);
        let attr_len = unat len;
        let value_start = offset + 4;
        let value_end = value_start + attr_len;
        if value_end > length data then Some found
        else do {
          value \<leftarrow> slice data value_start value_end;
          found' \<leftarrow> attr_value attr_type value tid found;
          parse_attrs data tid attrs_end (value_start + padded attr_len) found'
        }
      }
      else Some found)"
  by pat_completeness auto
termination
  by (relation "measure (\<lambda>(data, tid, attrs_end, offset, found). attrs_end - offset)") auto

declare parse_attrs.simps [simp del]

section \<open>The response\<close>

fun hex_digits :: "nat \<Rightarrow> nat \<Rightarrow> string" where
  "hex_digits 0 n = []"
| "hex_digits (Suc k) n = hex_digits k (n div 16) @ [''0123456789abcdef'' ! (n mod 16)]"

definition parse_binding_response :: "bytes \<Rightarrow> bytes \<Rightarrow> socket_addr res option" where
  "parse_binding_response data expected_tid =
     (if length data < 20 then Some (Inl (InvalidState ''STUN response too short''))
      else do {
        message_type \<leftarrow> u16_at data 0;
        if message_type \<noteq> STUN_BINDING_RESPONSE then
          Some (Inl (InvalidState (''unexpected STUN message type: 0x'' @ hex_digits 4 (unat message_type))))
        else do {
          message_length \<leftarrow> u16_at data 2;
          a \<leftarrow> at data 4; b \<leftarrow> at data 5; c \<leftarrow> at data 6; d \<leftarrow> at data 7;
          if u32_from_be [a, b, c, d] \<noteq> STUN_MAGIC_COOKIE then
            Some (Inl (InvalidState ''STUN magic cookie mismatch''))
          else do {
            tid \<leftarrow> slice data 8 20;
            if tid \<noteq> expected_tid then
              Some (Inl (InvalidState ''STUN transaction ID mismatch (response to a different request?)''))
            else do {
              let attrs_end = min (20 + unat message_length) (length data);
              found \<leftarrow> parse_attrs data expected_tid attrs_end 20 (None, None);
              Some (ok_or (InvalidState ''STUN response had no mapped address'')
                (case snd found of Some x \<Rightarrow> Some x | None \<Rightarrow> fst found))
            }
          }
        }
      })"

section \<open>Queries\<close>

datatype recv_outcome = TimedOut | RecvFailed string | Datagram bytes

text \<open>The network as seen by one query: name resolution, the send, and what comes back.\<close>

record stun_net =
  resolve :: "string \<Rightarrow> string + socket_addr list"
  send_request :: "socket_addr \<Rightarrow> bytes \<Rightarrow> string + unit"
  receive :: "socket_addr \<Rightarrow> bytes \<Rightarrow> recv_outcome"

text \<open>The receive buffer has 512 bytes; the rest of a longer datagram is lost.  The transaction id is
  drawn by the caller of the model.\<close>

definition query_stun_server :: "stun_net \<Rightarrow> bytes \<Rightarrow> string \<Rightarrow> socket_addr res option" where
  "query_stun_server net tid server =
     (case resolve net server of
        Inl e \<Rightarrow> Some (Inl (InvalidState (''STUN DNS lookup failed: '' @ e)))
      | Inr [] \<Rightarrow> Some (Inl (InvalidState (''no address resolved for '' @ server)))
      | Inr (addr # _) \<Rightarrow>
          let request = build_binding_request tid in
          (case send_request net addr request of
             Inl e \<Rightarrow> Some (Inl (Io e))
           | Inr _ \<Rightarrow>
               (case receive net addr request of
                  TimedOut \<Rightarrow> Some (Inl (InvalidState ''STUN request timed out''))
                | RecvFailed e \<Rightarrow> Some (Inl (Io e))
                | Datagram d \<Rightarrow> parse_binding_response (take 512 d) tid)))"

text \<open>The loop over the servers, with the error of the last failed one.\<close>

fun try_servers ::
    "(string \<Rightarrow> socket_addr res option) \<Rightarrow> core_error option \<Rightarrow> string list \<Rightarrow> socket_addr res option" where
  "try_servers query last_error [] =
     Some (Inl (case last_error of Some e \<Rightarrow> e | None \<Rightarrow> InvalidState ''no STUN servers configured''))"
| "try_servers query last_error (server # rest) =
     do {
       r \<leftarrow> query server;
       (case r of
          Inr addr \<Rightarrow> Some (Inr addr)
        | Inl e \<Rightarrow> try_servers query (Some e) rest)
     }"

definition discover_public_address :: "(string \<Rightarrow> stun_net) \<Rightarrow> (string \<Rightarrow> bytes) \<Rightarrow> socket_addr res option" where
  "discover_public_address net tid =
     try_servers (\<lambda>server. query_stun_server (net server) (tid server) server) None DEFAULT_STUN_SERVERS"

section \<open>The parser does not panic\<close>

lemma length_cookie_bytes [simp]: "length cookie_bytes = 4"
  by (simp add: cookie_bytes_def)

lemma addr_byte_Some:
  "i < 4 \<Longrightarrow> 8 \<le> length value \<Longrightarrow> addr_byte value tid i = Some (value ! (4 + i) XOR cookie_bytes ! i)"
  by (simp add: addr_byte_def xor_byte_def)

lemma parse_xor_mapped_address_eq:
  "8 \<le> length v \<Longrightarrow> parse_xor_mapped_address v tid =
     Some (if v ! 1 \<noteq> 0x01 then None
           else Some (SocketAddrV4 (v ! 4 XOR cookie_bytes ! 0) (v ! 5 XOR cookie_bytes ! 1)
             (v ! 6 XOR cookie_bytes ! 2) (v ! 7 XOR cookie_bytes ! 3)
             (u16_from_be [v ! 2, v ! 3] XOR u16_from_be [cookie_bytes ! 0, cookie_bytes ! 1])))"
  by (simp add: parse_xor_mapped_address_def addr_byte_Some Let_def)

lemma parse_mapped_address_eq:
  "8 \<le> length v \<Longrightarrow> parse_mapped_address v =
     Some (if v ! 1 \<noteq> 0x01 then None
           else Some (SocketAddrV4 (v ! 4) (v ! 5) (v ! 6) (v ! 7) (u16_from_be [v ! 2, v ! 3])))"
  by (simp add: parse_mapped_address_def)

lemma parse_address_short:
  "length v < 8 \<Longrightarrow> parse_xor_mapped_address v tid = Some None"
  "length v < 8 \<Longrightarrow> parse_mapped_address v = Some None"
  by (simp_all add: parse_xor_mapped_address_def parse_mapped_address_def)

lemma attr_value_total: "\<exists>f. attr_value t v tid found = Some f"
proof -
  have "\<exists>a. parse_xor_mapped_address v tid = Some a"
    by (cases "length v < 8") (auto simp only: parse_address_short parse_xor_mapped_address_eq not_less)
  moreover have "\<exists>a. parse_mapped_address v = Some a"
    by (cases "length v < 8") (auto simp only: parse_address_short parse_mapped_address_eq not_less)
  ultimately show ?thesis by (auto simp: attr_value_def)
qed

lemma parse_attrs_total:
  "attrs_end \<le> length data \<Longrightarrow> \<exists>f. parse_attrs data tid attrs_end offset found = Some f"
proof (induction data tid attrs_end offset found rule: parse_attrs.induct)
  case (1 data tid attrs_end offset found)
  show ?case
  proof (cases "offset + 4 \<le> attrs_end")
    case False
    then show ?thesis by (simp add: parse_attrs.simps)
  next
    case True
    define t where "t = u16_from_be [data ! offset, data ! (offset + 1)]"
    define l where "l = u16_from_be [data ! (offset + 2), data ! (offset + 3)]"
    have t: "u16_at data offset = Some t" and l: "u16_at data (offset + 2) = Some l"
      using True 1(2) by (simp_all add: t_def l_def numeral_3_eq_3 add.commute)
    show ?thesis
    proof (cases "offset + 4 + unat l > length data")
      case True
      then show ?thesis using t l by (subst parse_attrs.simps) (simp add: Let_def)
    next
      case False
      define v where "v = take (unat l) (drop (offset + 4) data)"
      have v: "slice data (offset + 4) (offset + 4 + unat l) = Some v"
        using False by (simp add: v_def)
      obtain f where f: "attr_value t v tid found = Some f" using attr_value_total by blast
      from 1(1) [OF \<open>offset + 4 \<le> attrs_end\<close> t l refl refl refl False v f 1(2)]
      show ?thesis using t l v f False by (subst parse_attrs.simps) (simp add: Let_def)
    qed
  qed
qed

lemma parse_binding_response_total:
  "\<exists>r. parse_binding_response data tid = Some r"
proof (cases "length data < 20")
  case True
  then show ?thesis by (simp add: parse_binding_response_def)
next
  case False
  obtain f where f: "parse_attrs data tid
      (min (20 + unat (u16_from_be [data ! 2, data ! 3])) (length data)) 20 (None, None) = Some f"
    using parse_attrs_total [of "min (20 + unat (u16_from_be [data ! 2, data ! 3])) (length data)" data
        tid 20 "(None, None)"]
    by (metis min.cobounded2)
  with False show ?thesis by (simp add: parse_binding_response_def Let_def numeral_3_eq_3)
qed

text \<open>No datagram and no failure of the network makes a query panic: every index and slice the
  parser takes is in range whatever bytes a server sends, and the attribute walk ends.\<close>

lemma query_never_panics:
  "\<exists>r. query_stun_server net tid server = Some r"
proof -
  have "\<exists>r. parse_binding_response (take 512 d) tid = Some r" for d
    by (rule parse_binding_response_total)
  then show ?thesis
    by (auto simp: query_stun_server_def Let_def split: sum.splits list.splits recv_outcome.splits)
qed

section \<open>Responses of a server\<close>

text \<open>The attributes of a well-formed response, as RFC 5389 lays them out: type, length, value, padding
  to four bytes; the XOR-mapped address is masked with the cookie.\<close>

datatype stun_attr = XorMapped socket_addr | Mapped socket_addr | OtherAttr u16 bytes

definition cookie_port :: u16 where
  "cookie_port = u16_from_be [cookie_bytes ! 0, cookie_bytes ! 1]"

fun attr_type :: "stun_attr \<Rightarrow> u16" where
  "attr_type (XorMapped _) = ATTR_XOR_MAPPED_ADDRESS"
| "attr_type (Mapped _) = ATTR_MAPPED_ADDRESS"
| "attr_type (OtherAttr t _) = t"

fun attr_bytes :: "stun_attr \<Rightarrow> bytes" where
  "attr_bytes (XorMapped (SocketAddrV4 a b c d p)) =
     [0, 1] @ u16_to_be (p XOR cookie_port) @
     [a XOR cookie_bytes ! 0, b XOR cookie_bytes ! 1, c XOR cookie_bytes ! 2, d XOR cookie_bytes ! 3]"
| "attr_bytes (Mapped (SocketAddrV4 a b c d p)) = [0, 1] @ u16_to_be p @ [a, b, c, d]"
| "attr_bytes (OtherAttr _ v) = v"

fun attr_wf :: "stun_attr \<Rightarrow> bool" where
  "attr_wf (OtherAttr t v) \<longleftrightarrow>
     t \<noteq> ATTR_XOR_MAPPED_ADDRESS \<and> t \<noteq> ATTR_MAPPED_ADDRESS \<and> length v < 2 ^ 16"
| "attr_wf _ \<longleftrightarrow> True"

definition attr_encode :: "stun_attr \<Rightarrow> bytes" where
  "attr_encode a =
     (let v = attr_bytes a in
      u16_to_be (attr_type a) @ u16_to_be (of_nat (length v)) @ v @ replicate (padded (length v) - length v) 0)"

definition binding_response :: "bytes \<Rightarrow> stun_attr list \<Rightarrow> bytes" where
  "binding_response tid attrs =
     (let body = concat (map attr_encode attrs) in
      u16_to_be STUN_BINDING_RESPONSE @ u16_to_be (of_nat (length body)) @
      u32_to_be STUN_MAGIC_COOKIE @ tid @ body)"

fun found_in :: "found \<Rightarrow> stun_attr \<Rightarrow> found" where
  "found_in (m, x) (XorMapped a) = (m, Some a)"
| "found_in (m, x) (Mapped a) = (Some a, x)"
| "found_in (m, x) (OtherAttr _ _) = (m, x)"

lemma list_of_two: "length xs = 2 \<Longrightarrow> \<exists>a b. xs = [a, b]"
  by (auto simp: length_Suc_conv numeral_2_eq_2)

lemma list_of_four: "length xs = 4 \<Longrightarrow> \<exists>a b c d. xs = [a, b, c, d]"
  by (auto simp: length_Suc_conv eval_nat_numeral)

lemma u16_to_be_pair:
  obtains a b where "u16_to_be w = [a, b]" and "u16_from_be [a, b] = w"
proof -
  obtain a b where ab: "u16_to_be w = [a, b]" using list_of_two [of "u16_to_be w"] by auto
  moreover have "u16_from_be [a, b] = w" using u16_be_roundtrip [of w] ab by simp
  ultimately show ?thesis by (rule that)
qed

lemma u16_at_append [simp]: "u16_at (p @ u16_to_be w @ s) (length p) = Some w"
proof -
  obtain a b where "u16_to_be w = [a, b]" "u16_from_be [a, b] = w" by (rule u16_to_be_pair)
  then show ?thesis by (simp add: u16_at_def at_def nth_append)
qed

lemma slice_append: "slice (p @ v @ s) (length p) (length p + length v) = Some v"
  by (simp add: slice_def)

lemma xor_cancel [simp]: "((x :: 'a::len word) XOR y) XOR y = x"
  by (simp add: xor.assoc)

lemma length_attr_bytes:
  "attr_wf a \<Longrightarrow> length (attr_bytes a) < 2 ^ 16"
  by (cases a rule: attr_bytes.cases) auto

lemma padded_ge: "n \<le> padded n"
  unfolding padded_def by linarith

lemma length_attr_encode: "length (attr_encode a) = 4 + padded (length (attr_bytes a))"
  using padded_ge by (simp add: attr_encode_def Let_def)

lemma attr_value_encode:
  assumes "attr_wf a"
  shows "attr_value (attr_type a) (attr_bytes a) tid found = Some (found_in found a)"
proof (cases a)
  case (XorMapped x)
  obtain i j k l q where x: "x = SocketAddrV4 i j k l q" by (cases x)
  obtain e f where ef: "u16_to_be (q XOR cookie_port) = [e, f]" "u16_from_be [e, f] = q XOR cookie_port"
    by (rule u16_to_be_pair)
  have "parse_xor_mapped_address (attr_bytes a) tid = Some (Some x)"
    using ef by (simp add: XorMapped x parse_xor_mapped_address_eq nth_Cons' flip: cookie_port_def)
      (simp add: cookie_port_def)
  then show ?thesis by (cases found) (simp add: XorMapped attr_value_def)
next
  case (Mapped x)
  obtain i j k l q where x: "x = SocketAddrV4 i j k l q" by (cases x)
  obtain e f where ef: "u16_to_be q = [e, f]" "u16_from_be [e, f] = q" by (rule u16_to_be_pair)
  have "parse_mapped_address (attr_bytes a) = Some (Some x)"
    using ef by (simp add: Mapped x parse_mapped_address_eq nth_Cons')
  moreover have "ATTR_MAPPED_ADDRESS \<noteq> ATTR_XOR_MAPPED_ADDRESS"
    by (simp add: ATTR_MAPPED_ADDRESS_def ATTR_XOR_MAPPED_ADDRESS_def)
  ultimately show ?thesis by (cases found) (simp add: Mapped attr_value_def)
next
  case (OtherAttr t v)
  with assms show ?thesis by (cases found) (simp add: attr_value_def)
qed

lemma parse_attrs_encode:
  assumes "attr_wf a" and "length (pre @ attr_encode a) \<le> attrs_end"
    and "attrs_end \<le> length (pre @ attr_encode a @ rest)"
  shows "parse_attrs (pre @ attr_encode a @ rest) tid attrs_end (length pre) found =
         parse_attrs (pre @ attr_encode a @ rest) tid attrs_end (length (pre @ attr_encode a)) (found_in found a)"
proof -
  let ?v = "attr_bytes a" and ?d = "pre @ attr_encode a @ rest"
  let ?pad = "replicate (padded (length ?v) - length ?v) (0 :: u8)"
  have d: "?d = pre @ u16_to_be (attr_type a) @ u16_to_be (of_nat (length ?v)) @ ?v @ ?pad @ rest"
    by (simp add: attr_encode_def Let_def)
  have t: "u16_at ?d (length pre) = Some (attr_type a)" unfolding d by simp
  have l: "u16_at ?d (length pre + 2) = Some (of_nat (length ?v))"
    using u16_at_append [of "pre @ u16_to_be (attr_type a)" "of_nat (length ?v)" "?v @ ?pad @ rest"]
    unfolding d by simp
  have n: "unat (of_nat (length ?v) :: u16) = length ?v"
    using length_attr_bytes [OF assms(1)] by (simp add: unat_of_nat)
  have v: "slice ?d (length pre + 4) (length pre + 4 + length ?v) = Some ?v"
    using slice_append [of "pre @ u16_to_be (attr_type a) @ u16_to_be (of_nat (length ?v))" ?v "?pad @ rest"]
    unfolding d by (simp add: add.assoc)
  have "\<not> length pre + 4 + length ?v > length ?d"
    using padded_ge [of "length ?v"] by (simp add: length_attr_encode)
  moreover have "length pre + 4 \<le> attrs_end" using assms(2) by (simp add: length_attr_encode)
  moreover have e: "length (pre @ attr_encode a) = length pre + 4 + padded (length ?v)"
    by (simp add: length_attr_encode)
  ultimately show ?thesis
    unfolding e
    using t l n v attr_value_encode [OF assms(1), of tid found]
    by (subst parse_attrs.simps) (simp add: Let_def del: u16_at_Some slice_Some)
qed

lemma parse_attrs_list:
  "(\<And>a. a \<in> set attrs \<Longrightarrow> attr_wf a) \<Longrightarrow>
    parse_attrs (pre @ concat (map attr_encode attrs) @ junk) tid
      (length (pre @ concat (map attr_encode attrs))) (length pre) found =
    Some (foldl found_in found attrs)"
proof (induction attrs arbitrary: pre found)
  case Nil
  then show ?case by (simp add: parse_attrs.simps)
next
  case (Cons a attrs)
  let ?rest = "concat (map attr_encode attrs)"
  have "parse_attrs (pre @ attr_encode a @ ?rest @ junk) tid (length (pre @ attr_encode a @ ?rest))
        (length pre) found =
      parse_attrs ((pre @ attr_encode a) @ ?rest @ junk) tid (length ((pre @ attr_encode a) @ ?rest))
        (length (pre @ attr_encode a)) (found_in found a)"
    using Cons.prems parse_attrs_encode [of a pre "length (pre @ attr_encode a @ ?rest)" "?rest @ junk"]
    by simp
  also have "\<dots> = Some (foldl found_in (found_in found a) attrs)"
    using Cons.prems by (intro Cons.IH) simp
  finally show ?case by simp
qed

text \<open>The parser on the bytes of a well-formed response.\<close>

fun response_result :: "found \<Rightarrow> socket_addr res" where
  "response_result (_, Some x) = Inr x"
| "response_result (Some m, None) = Inr m"
| "response_result (None, None) = Inl (InvalidState ''STUN response had no mapped address'')"

lemma parse_binding_response_encoded:
  assumes "length tid = 12" and "\<forall>a \<in> set attrs. attr_wf a"
    and "length (concat (map attr_encode attrs)) < 2 ^ 16"
  shows "parse_binding_response (binding_response tid attrs @ junk) tid =
    Some (response_result (foldl found_in (None, None) attrs))"
proof -
  let ?body = "concat (map attr_encode attrs)"
  let ?n = "of_nat (length ?body) :: u16"
  obtain a b where ab: "u16_to_be STUN_BINDING_RESPONSE = [a, b]" "u16_from_be [a, b] = STUN_BINDING_RESPONSE"
    by (rule u16_to_be_pair)
  obtain c d where cd: "u16_to_be ?n = [c, d]" "u16_from_be [c, d] = ?n" by (rule u16_to_be_pair)
  obtain e f g h where eh: "u32_to_be STUN_MAGIC_COOKIE = [e, f, g, h]"
    using list_of_four [of "u32_to_be STUN_MAGIC_COOKIE"] by auto
  then have ck: "u32_from_be [e, f, g, h] = STUN_MAGIC_COOKIE"
    using u32_be_roundtrip [of STUN_MAGIC_COOKIE] by simp
  let ?pre = "[a, b, c, d, e, f, g, h] @ tid"
  have data: "binding_response tid attrs @ junk = ?pre @ ?body @ junk"
    by (simp add: binding_response_def Let_def ab cd eh)
  have n: "unat ?n = length ?body" using assms(3) by (simp add: unat_of_nat)
  have len: "length ?pre = 20" using assms(1) by simp
  have attrs: "parse_attrs (?pre @ ?body @ junk) tid (20 + length ?body) 20 (None, None) =
      Some (foldl found_in (None, None) attrs)"
    using parse_attrs_list [of attrs ?pre junk tid "(None, None)"] assms(2) len by simp
  have tid: "slice (?pre @ ?body @ junk) 8 20 = Some tid"
    using slice_append [of "[a, b, c, d, e, f, g, h]" tid "?body @ junk"] assms(1) by simp
  have m: "min (20 + length ?body) (length (?pre @ ?body @ junk)) = 20 + length ?body"
    using assms(1) by simp
  show ?thesis
    unfolding data
    using attrs tid n ab(2) cd(2) ck assms(1) m
    by (cases "foldl found_in (None, None) attrs" rule: response_result.cases)
      (simp_all add: parse_binding_response_def Let_def nth_append nth_Cons')
qed

text \<open>C40: when the server resolves and the datagram that comes back is a well-formed binding response
  to this request that fits the buffer, the query returns the last XOR-mapped address in it,
  unmasked, or else the last plain mapped address, or else fails.\<close>

theorem query_returns_mapped_address:
  assumes "length tid = 12" and "\<forall>a \<in> set attrs. attr_wf a"
    and "length (binding_response tid attrs) \<le> 512"
    and "resolve net server = Inr (addr # others)"
    and "send_request net addr (build_binding_request tid) = Inr ()"
    and "receive net addr (build_binding_request tid) = Datagram (binding_response tid attrs)"
  shows "query_stun_server net tid server =
    Some (response_result (foldl found_in (None, None) attrs))"
proof -
  have "length (concat (map attr_encode attrs)) < 2 ^ 16"
    using assms(1,3) by (simp add: binding_response_def Let_def)
  from parse_binding_response_encoded [OF assms(1,2) this, of "[]"] assms(3-6) show ?thesis
    by (simp add: query_stun_server_def Let_def)
qed

theorem query_returns_mapped_address_witness:
  "query_stun_server
     \<lparr>resolve = (\<lambda>_. Inr [SocketAddrV4 8 8 8 8 19302]), send_request = (\<lambda>_ _. Inr ()),
      receive = (\<lambda>_ _. Datagram (binding_response (replicate 12 7)
        [OtherAttr 0x8022 [1, 2, 3], XorMapped (SocketAddrV4 192 0 2 1 12345)]))\<rparr>
     (replicate 12 7) ''stun.l.google.com:19302'' =
   Some (response_result (foldl found_in (None, None)
     [OtherAttr 0x8022 [1, 2, 3], XorMapped (SocketAddrV4 192 0 2 1 12345)]))"
  by (rule query_returns_mapped_address [where addr = "SocketAddrV4 8 8 8 8 19302" and others = "[]"])
    (simp_all add: ATTR_MAPPED_ADDRESS_def ATTR_XOR_MAPPED_ADDRESS_def attr_encode_def Let_def
      padded_def binding_response_def)

section \<open>What a successful query says\<close>

text \<open>The header fields of the 20-byte header, for a datagram that has one.\<close>

lemma u32_be_of_bytes:
  assumes "u32_from_be [a, b, c, d] = w"
  shows "[a, b, c, d] = u32_to_be w"
proof -
  have "nat_of_be [a, b, c, d] < 2 ^ 32"
    using nat_of_le_bound [of "rev [a, b, c, d]"] by (simp add: nat_of_be_def)
  then have "unat w = nat_of_be [a, b, c, d]" using assms by (auto simp: u32_from_be_def unat_of_nat)
  then show ?thesis using be_of_nat_of_be [of "[a, b, c, d]"] by (simp add: u32_to_be_def eval_nat_numeral)
qed

lemma u16_be_of_bytes:
  assumes "u16_from_be [a, b] = w"
  shows "[a, b] = u16_to_be w"
proof -
  have "nat_of_be [a, b] < 2 ^ 16"
    using nat_of_le_bound [of "rev [a, b]"] by (simp add: nat_of_be_def)
  then have "unat w = nat_of_be [a, b]" using assms by (auto simp: u16_from_be_def unat_of_nat)
  then show ?thesis using be_of_nat_of_be [of "[a, b]"] by (simp add: u16_to_be_def eval_nat_numeral)
qed

lemma take_nths: "i + 2 \<le> length xs \<Longrightarrow> take 2 (drop i xs) = [xs ! i, xs ! (i + 1)]"
  by (rule nth_equalityI) (auto simp: less_Suc_eq numeral_2_eq_2)

lemma take_nths4:
  "i + 4 \<le> length xs \<Longrightarrow> take 4 (drop i xs) = [xs ! i, xs ! (i + 1), xs ! (i + 2), xs ! (i + 3)]"
  by (rule nth_equalityI) (auto simp: less_Suc_eq eval_nat_numeral)

text \<open>An address is accepted only from a binding response that carries the magic cookie and the
  transaction id of this client's own request, in the places where the request carries them.\<close>

lemma accepted_response_matches_request:
  assumes "parse_binding_response data tid = Some (Inr addr)" and "length tid = 12"
  shows "20 \<le> length data \<and> take 2 data = u16_to_be STUN_BINDING_RESPONSE \<and>
         take 16 (drop 4 data) = drop 4 (build_binding_request tid) \<and>
         length (build_binding_request tid) = 20"
proof -
  from assms(1) have l: "20 \<le> length data" by (auto simp: parse_binding_response_def split: if_splits)
  from assms(1) l have t: "u16_from_be [data ! 0, data ! 1] = STUN_BINDING_RESPONSE"
    by (auto simp: parse_binding_response_def split: if_splits)
  from assms(1) l t have c: "u32_from_be [data ! 4, data ! 5, data ! 6, data ! 7] = STUN_MAGIC_COOKIE"
    by (auto simp: parse_binding_response_def split: if_splits)
  from assms(1) l t c have i: "take 12 (drop 8 data) = tid"
    by (auto simp: parse_binding_response_def split: if_splits)
  have "take 2 data = u16_to_be STUN_BINDING_RESPONSE"
    using take_nths [of 0 data] u16_be_of_bytes [OF t] l by simp
  moreover have "take 16 (drop 4 data) = take 4 (drop 4 data) @ take 12 (drop 8 data)"
    using take_add [of 4 12 "drop 4 data"] by simp
  moreover have "take 4 (drop 4 data) = u32_to_be STUN_MAGIC_COOKIE"
    using take_nths4 [of 4 data] u32_be_of_bytes [OF c] l by simp
  ultimately show ?thesis using l i assms(2) by (simp add: build_binding_request_def)
qed

theorem accepted_response_matches_request_witness:
  "let data = binding_response (replicate 12 7) [Mapped (SocketAddrV4 10 0 0 5 80)] in
     20 \<le> length data \<and> take 2 data = u16_to_be STUN_BINDING_RESPONSE \<and>
     take 16 (drop 4 data) = drop 4 (build_binding_request (replicate 12 7)) \<and>
     length (build_binding_request (replicate 12 7)) = 20"
proof -
  have "parse_binding_response (binding_response (replicate 12 7) [Mapped (SocketAddrV4 10 0 0 5 80)])
      (replicate 12 7) = Some (Inr (SocketAddrV4 10 0 0 5 80))"
    using parse_binding_response_encoded [of "replicate 12 7" "[Mapped (SocketAddrV4 10 0 0 5 80)]" "[]"]
    by (simp add: attr_encode_def Let_def padded_def)
  from accepted_response_matches_request [OF this] show ?thesis by (simp add: Let_def)
qed

text \<open>The servers are asked in their order until one answers: the result is that answer, whatever
  comes later in the list; if none answers it is the error of the last one.\<close>

lemma servers_asked_in_order:
  assumes "\<forall>s \<in> set failing. \<exists>e. query s = Some (Inl e)"
  shows "(query s = Some (Inr addr) \<longrightarrow> try_servers query last_error (failing @ s # rest) = Some (Inr addr)) \<and>
         (failing \<noteq> [] \<longrightarrow> try_servers query last_error failing = query (last failing))"
  using assms
proof (induction failing arbitrary: last_error)
  case Nil
  then show ?case by simp
next
  case (Cons f fs)
  then obtain e where "query f = Some (Inl e)" by auto
  with Cons show ?case by (cases fs) auto
qed

theorem servers_asked_in_order_witness:
  "try_servers (\<lambda>s. if s = hd DEFAULT_STUN_SERVERS then Some (Inl (Io ''x'')) else Some (Inr (SocketAddrV4 1 2 3 4 5)))
     None ([hd DEFAULT_STUN_SERVERS] @ last DEFAULT_STUN_SERVERS # []) = Some (Inr (SocketAddrV4 1 2 3 4 5))"
  by (rule mp [OF conjunct1 [OF servers_asked_in_order]]) (simp_all add: DEFAULT_STUN_SERVERS_def)

end
