(* ===== verification/Transport.thy ===== *)
theory Transport
  imports Identity
begin

text \<open>
  core/src/transport.rs: binding the QUIC endpoint, dialling, accepting, opening streams, and the TLS configuration
  that verifies nothing.  What quinn, rustls and rcgen answer is the record \<open>quic_lib\<close> and, for connections and
  streams, an argument; an error of theirs is its text.
\<close>

section \<open>TLS\<close>

text \<open>The verifier of server certificates and its three checks, each over the certificate, the name or the message and
  the signature it is handed.\<close>

datatype cert_verifier = SkipServerVerification

fun verify_server_cert ::
    "cert_verifier \<Rightarrow> bytes \<Rightarrow> bytes list \<Rightarrow> string \<Rightarrow> bytes \<Rightarrow> nat \<Rightarrow> string + unit" where
  "verify_server_cert SkipServerVerification end_entity intermediates server_name ocsp_response now = Inr ()"

fun verify_tls12_signature :: "cert_verifier \<Rightarrow> bytes \<Rightarrow> bytes \<Rightarrow> bytes \<Rightarrow> string + unit" where
  "verify_tls12_signature SkipServerVerification message cert dss = Inr ()"

fun verify_tls13_signature :: "cert_verifier \<Rightarrow> bytes \<Rightarrow> bytes \<Rightarrow> bytes \<Rightarrow> string + unit" where
  "verify_tls13_signature SkipServerVerification message cert dss = Inr ()"

text \<open>What the libraries answer: an address parsed, a certificate with its key (both as DER), the key read back, a
  server configuration, an endpoint with its address, and the QUIC configuration of a client that uses a verifier and
  speaks these protocols.\<close>

record ('addr, 'srv, 'ep, 'cli) quic_lib =
  parse_socket_addr :: "string \<Rightarrow> string + 'addr"
  self_signed :: "string list \<Rightarrow> string + bytes \<times> bytes"
  private_key :: "bytes \<Rightarrow> string + bytes"
  single_cert :: "bytes list \<Rightarrow> bytes \<Rightarrow> string + 'srv"
  endpoint_server :: "'srv \<Rightarrow> 'addr \<Rightarrow> string + 'ep"
  endpoint_addr :: "'ep \<Rightarrow> string + 'addr"
  quic_client :: "cert_verifier \<Rightarrow> string list \<Rightarrow> string + 'cli"

definition build_self_signed_server_config :: "('addr, 'srv, 'ep, 'cli) quic_lib \<Rightarrow> ('srv \<times> bytes) res" where
  "build_self_signed_server_config lib =
     andThen (map_err (\<lambda>e. Crypto (''cert gen failed: '' @ e)) (self_signed lib [''zaop2p.local''])) (\<lambda>(cert_der, key_der).
     andThen (map_err (\<lambda>e. Crypto (''key parse failed: '' @ e)) (private_key lib key_der)) (\<lambda>priv_key.
     andThen (map_err (\<lambda>e. Crypto (''server config failed: '' @ e)) (single_cert lib [cert_der] priv_key)) (\<lambda>server_config.
     Inr (server_config, cert_der))))"

definition build_insecure_client_config :: "('addr, 'srv, 'ep, 'cli) quic_lib \<Rightarrow> 'cli res" where
  "build_insecure_client_config lib =
     map_err (\<lambda>e. Crypto (''quic client config failed: '' @ e)) (quic_client lib SkipServerVerification [''zaop2p''])"

section \<open>The endpoint\<close>

text \<open>The default client configuration belongs to the endpoint.\<close>

record ('addr, 'ep, 'cli) quic_transport =
  qt_endpoint :: 'ep
  qt_client_config :: 'cli
  qt_local_addr :: 'addr

definition quic_bind :: "('addr, 'srv, 'ep, 'cli) quic_lib \<Rightarrow> string \<Rightarrow> ('addr, 'ep, 'cli) quic_transport res" where
  "quic_bind lib bind_addr =
     andThen (map_err (\<lambda>e. InvalidState (''invalid bind addr: '' @ e)) (parse_socket_addr lib bind_addr)) (\<lambda>addr.
     andThen (build_self_signed_server_config lib) (\<lambda>(server_config, _).
     andThen (map_err (\<lambda>e. InvalidState (''quic endpoint bind failed: '' @ e)) (endpoint_server lib server_config addr)) (\<lambda>ep.
     andThen (build_insecure_client_config lib) (\<lambda>client_config.
     andThen (map_err (\<lambda>e. InvalidState (''could not read local addr: '' @ e)) (endpoint_addr lib ep)) (\<lambda>local_addr.
     Inr \<lparr>qt_endpoint = ep, qt_client_config = client_config, qt_local_addr = local_addr\<rparr>)))))"

text \<open>\<open>connecting\<close> is \<open>Endpoint::connect\<close> for the address as a function of the server name: it fails at once or gives
  the connection, or why there is none, when it is awaited.\<close>

definition quic_connect :: "(string \<Rightarrow> string + (string + 'conn)) \<Rightarrow> string \<Rightarrow> 'conn res" where
  "quic_connect connecting peer_device_id =
     andThen (map_err (\<lambda>e. InvalidState (''quic connect setup failed: '' @ e)) (connecting peer_device_id))
       (map_err (\<lambda>e. InvalidState (''quic connect failed: '' @ e)))"

text \<open>No incoming connection means that the endpoint is closed.\<close>

definition quic_accept :: "(string + 'conn) option \<Rightarrow> 'conn res option" where
  "quic_accept = map_option (map_err (\<lambda>e. InvalidState (''quic accept failed: '' @ e)))"

definition open_stream :: "string + 'stream \<Rightarrow> 'stream res" where
  "open_stream = map_err (\<lambda>e. InvalidState (''failed to open stream: '' @ e))"

definition accept_stream :: "string + 'stream \<Rightarrow> 'stream res" where
  "accept_stream = map_err (\<lambda>e. InvalidState (''failed to accept stream: '' @ e))"

text \<open>Dialling a peer: the connection, then its first stream.\<close>

definition dial_peer :: "(string \<Rightarrow> string + (string + 'conn)) \<Rightarrow> ('conn \<Rightarrow> string + 'stream) \<Rightarrow> string \<Rightarrow> ('conn \<times> 'stream) res" where
  "dial_peer connecting streams peer_device_id =
     andThen (quic_connect connecting peer_device_id) (\<lambda>conn.
     andThen (open_stream (streams conn)) (\<lambda>st. Inr (conn, st)))"

section \<open>Server names\<close>

text \<open>rustls takes a server name only if it is an IP address or a DNS name, whose labels have at most 63 bytes (RFC 1035);
  \<open>Endpoint::connect\<close> refuses any other.  A text without a dot or a colon is a single label.\<close>

definition names_checked :: "(string \<Rightarrow> string + 'a) \<Rightarrow> bool" where
  "names_checked connecting \<longleftrightarrow>
     (\<forall>name. 63 < length name \<and> CHR ''.'' \<notin> set name \<and> CHR '':'' \<notin> set name \<longrightarrow> (\<exists>e. connecting name = Inl e))"

text \<open>Both ways to compute a device id give 64 hexadecimal digits.\<close>

lemma device_id_long:
  assumes "hex_law c" and "digest_32 c" and "did = device_id_from_public_key c key \<or> did = di_device_id (generate c seed)"
  shows "length did = 64 \<and> CHR ''.'' \<notin> set did \<and> CHR '':'' \<notin> set did"
proof -
  obtain b where did: "did = hex_encode c (sha256 c b)"
    using assms(3) by (auto simp: device_id_from_public_key_def generate_def derive_device_id_def)
  have "set did \<subseteq> set hex_alphabet" "length did = 64"
    using assms(1,2) by (auto simp: did hex_law_def digest_32_def)
  then show ?thesis by (auto simp: hex_alphabet_def)
qed

lemma device_id_not_dialled:
  assumes "names_checked connecting" and "hex_law c" and "digest_32 c"
    and "did = device_id_from_public_key c key \<or> did = di_device_id (generate c seed)"
  shows "\<exists>e. dial_peer connecting streams did = Inl (InvalidState (''quic connect setup failed: '' @ e))"
proof -
  obtain e where "connecting did = Inl e"
    using assms(1) [unfolded names_checked_def, rule_format, of did] device_id_long [OF assms(2-4)] by auto
  then show ?thesis by (simp add: dial_peer_def quic_connect_def)
qed

end
