(* ===== verification/Connect.thy ===== *)
theory Connect
  imports Operations Delivery Stun Transport
begin

text \<open>
  How sessions come about, from core/src/connection_manager.rs: the two sides of the Noise handshake over a
  QUIC stream, dialling the candidates of a peer, the events of the signaling server, and the handshake
  over the relay.  What a peer answers on a stream is a function of what it was sent; each wait of the
  relay handshake is a state of its task.
\<close>

section \<open>The handshake, one message at a time\<close>

text \<open>A step that fails ends the handshake, so the session it leaves is dropped with it.\<close>

definition handshake_write :: "('h, 't) env \<Rightarrow> ('h, 't) noise_session \<Rightarrow> (bytes \<times> ('h, 't) noise_session) res" where
  "handshake_write env s =
     (let (r, s') = write_handshake_message (e_snow env) s [] in andThen r (\<lambda>msg. Inr (msg, s')))"

definition handshake_read :: "('h, 't) env \<Rightarrow> bytes \<Rightarrow> ('h, 't) noise_session \<Rightarrow> ('h, 't) noise_session res" where
  "handshake_read env msg s =
     (let (r, s') = read_handshake_message (e_snow env) s msg in andThen r (\<lambda>_. Inr s'))"

text \<open>A stream to a peer: whether a frame can be written, and the frame that is read after the frame \<open>msg\<close> was
  written, or why none is.\<close>

record peer_stream =
  ps_write :: "bytes \<Rightarrow> unit res"
  ps_reply :: "bytes \<Rightarrow> bytes res"

definition initiator_handshake ::
    "('h, 't) env \<Rightarrow> device_identity \<Rightarrow> peer_stream \<Rightarrow> ('h, 't) noise_session res" where
  "initiator_handshake env identity st =
     andThen (noise_new (e_snow env) identity Initiator) (\<lambda>s0.
     andThen (handshake_write env s0) (\<lambda>(msg1, s1).
     andThen (ps_write st msg1) (\<lambda>_.
     andThen (ps_reply st msg1) (\<lambda>msg2.
     andThen (handshake_read env msg2 s1) (\<lambda>s2.
     andThen (handshake_write env s2) (\<lambda>(msg3, s3).
     andThen (ps_write st msg3) (\<lambda>_. Inr s3)))))))"

text \<open>\<open>first\<close> is the frame the dialling side opens with.\<close>

definition responder_handshake ::
    "('h, 't) env \<Rightarrow> device_identity \<Rightarrow> bytes res \<Rightarrow> peer_stream \<Rightarrow> ('h, 't) noise_session res" where
  "responder_handshake env identity first st =
     andThen (noise_new (e_snow env) identity Responder) (\<lambda>s0.
     andThen first (\<lambda>msg1.
     andThen (handshake_read env msg1 s0) (\<lambda>s1.
     andThen (handshake_write env s1) (\<lambda>(msg2, s2).
     andThen (ps_write st msg2) (\<lambda>_.
     andThen (ps_reply st msg2) (\<lambda>msg3.
     handshake_read env msg3 s2))))))"

text \<open>The static key the peer showed, once the handshake is over.\<close>

definition shown_key :: "('h, 't) env \<Rightarrow> string \<Rightarrow> ('h, 't) noise_session \<Rightarrow> bytes res" where
  "shown_key env what s = ok_or (Crypto (''no remote static key after '' @ what)) (peer_static_key (e_snow env) s)"

section \<open>Connections\<close>

text \<open>\<open>dial\<close> is what dialling the address gives (\<open>dial_peer\<close>): the connection and its first stream.\<close>

definition connect_to_peer ::
    "('h, 't) env \<Rightarrow> nat \<Rightarrow> (nat \<times> peer_stream) res \<Rightarrow> string \<Rightarrow> ('h, 't) manager \<Rightarrow> unit res \<times> ('h, 't) manager" where
  "connect_to_peer env now dial expected m =
     (if m_sessions m expected \<noteq> None then (Inr (), m)
      else
        case andThen dial (\<lambda>(conn, st).
             andThen (initiator_handshake env (m_identity m) st) (\<lambda>s.
             andThen (shown_key env ''handshake'' s) (\<lambda>key.
               let actual = device_id_from_public_key (e_crypto env) key in
               if actual \<noteq> expected
               then Inl (InvalidState (''peer identity mismatch: expected '' @ expected @ '', got '' @ actual))
               else andThen (into_transport_mode (e_snow env) s) (\<lambda>s'. Inr (conn, key, s'))))) of
          Inl e \<Rightarrow> (Inl e, m)
        | Inr (conn, key, s') \<Rightarrow> (Inr (), register_session env now expected key conn s' m))"

definition handle_inbound_connection ::
    "('h, 't) env \<Rightarrow> nat \<Rightarrow> nat \<Rightarrow> bytes res \<Rightarrow> peer_stream \<Rightarrow> ('h, 't) manager \<Rightarrow> unit res \<times> ('h, 't) manager" where
  "handle_inbound_connection env now conn first st m =
     (case andThen (responder_handshake env (m_identity m) first st) (\<lambda>s.
           andThen (shown_key env ''handshake'' s) (\<lambda>key.
           andThen (into_transport_mode (e_snow env) s) (\<lambda>s'. Inr (key, s')))) of
        Inl e \<Rightarrow> (Inl e, m)
      | Inr (key, s') \<Rightarrow>
          (Inr (), register_session env now (device_id_from_public_key (e_crypto env) key) key conn s' m))"

text \<open>\<open>spawn_accept_loop\<close>: what \<open>accept\<close> gives, each time with the instant, the opening frame and the stream of a
  connection, until the endpoint is closed.  A connection that fails is logged.  Each is handled in a task of its own;
  this is the order in which they end.\<close>

fun accept_loop ::
    "('h, 't) env \<Rightarrow> (nat \<times> (nat \<times> bytes res \<times> peer_stream) res option) list \<Rightarrow> ('h, 't) manager \<Rightarrow> ('h, 't) manager" where
  "accept_loop env [] m = m"
| "accept_loop env ((now, accepted) # later) m =
     (case accepted of
        Some (Inr (conn, first, st)) \<Rightarrow> accept_loop env later (snd (handle_inbound_connection env now conn first st m))
      | Some (Inl e) \<Rightarrow> accept_loop env later m
      | None \<Rightarrow> m)"

text \<open>The candidates one after another; \<open>parse\<close> is \<open>str::parse\<close> for socket addresses.\<close>

fun try_candidates ::
    "('h, 't) env \<Rightarrow> nat \<Rightarrow> (string \<Rightarrow> 'a option) \<Rightarrow> ('a \<Rightarrow> (nat \<times> peer_stream) res) \<Rightarrow> string \<Rightarrow> string list \<Rightarrow>
      ('h, 't) manager \<Rightarrow> unit res \<times> ('h, 't) manager" where
  "try_candidates env now parse dial peer [] m =
     (Inl (InvalidState (''no candidate reachable for peer '' @ peer)), m)"
| "try_candidates env now parse dial peer (c # cs) m =
     (case parse c of
        None \<Rightarrow> try_candidates env now parse dial peer cs m
      | Some addr \<Rightarrow>
          (case connect_to_peer env now (dial addr) peer m of
             (Inr _, m') \<Rightarrow> (Inr (), m')
           | (Inl _, m') \<Rightarrow> try_candidates env now parse dial peer cs m'))"

section \<open>The signaling server\<close>

text \<open>A call on a signaling client, at its address.\<close>

definition with_client ::
    "nat \<Rightarrow> (signaling_client \<Rightarrow> unit res \<times> signaling_client) \<Rightarrow> ('h, 't) manager \<Rightarrow> unit res \<times> ('h, 't) manager" where
  "with_client a f m = (let (r, cl) = f (m_clients m a) in (r, m\<lparr>m_clients := (m_clients m)(a := cl)\<rparr>))"

definition connect_signaling_server ::
    "('h, 't) env \<Rightarrow> string + unit \<Rightarrow> ('h, 't) manager \<Rightarrow> unit res \<times> ('h, 't) manager" where
  "connect_signaling_server env ws m =
     (case sig_connect (e_sig env) ws (di_device_id (m_identity m)) of
        Inl e \<Rightarrow> (Inl e, m)
      | Inr cl \<Rightarrow>
          (Inr (), m\<lparr>m_clients := (m_clients m)(m_next m := cl), m_signaling := Some (m_next m),
             m_next := Suc (m_next m)\<rparr>))"

fun show_v4 :: "socket_addr \<Rightarrow> string" where
  "show_v4 (SocketAddrV4 a b c d port) =
     show_nat (unat a) @ ''.'' @ show_nat (unat b) @ ''.'' @ show_nat (unat c) @ ''.'' @ show_nat (unat d) @
       '':'' @ show_nat (unat port)"

text \<open>\<open>probe\<close> is what binding the probe socket and \<open>discover_public_address\<close> give, \<open>local_addr\<close> the text of the
  listener's address, \<open>sid\<close> the fresh session id.\<close>

definition connect_to_peer_via_internet ::
    "('h, 't) env \<Rightarrow> socket_addr res \<Rightarrow> string \<Rightarrow> string \<Rightarrow> string \<Rightarrow> ('h, 't) manager \<Rightarrow> unit res \<times> ('h, 't) manager"
where
  "connect_to_peer_via_internet env probe local_addr sid peer m =
     (case m_signaling m of
        None \<Rightarrow> (Inl (InvalidState ''signaling server not connected''), m)
      | Some a \<Rightarrow>
          (case probe of
             Inl e \<Rightarrow> (Inl e, m)
           | Inr public_addr \<Rightarrow>
               with_client a (\<lambda>cl. offer_candidates (e_sig env) cl peer sid [show_v4 public_addr, local_addr])
                 (m\<lparr>m_tracker := tracker_register sid peer (m_tracker m)\<rparr>)))"

text \<open>The order of device ids: that of their bytes.\<close>

fun string_less :: "string \<Rightarrow> string \<Rightarrow> bool" where
  "string_less s [] = False"
| "string_less [] (d # ds) = True"
| "string_less (c # cs) (d # ds) =
     (if (of_char c :: nat) < of_char d then True else if c = d then string_less cs ds else False)"

text \<open>The relay handshake to spawn for a session that is ready, as the peer and whether this side leads.\<close>

definition activate_relay_session :: "string \<Rightarrow> ('h, 't) manager \<Rightarrow> (string \<times> bool) option" where
  "activate_relay_session sid m =
     (case peer_for_session sid (m_tracker m) of
        None \<Rightarrow> None
      | Some peer \<Rightarrow>
          if m_sessions m peer \<noteq> None then None
          else Some (peer, string_less (di_device_id (m_identity m)) peer))"

definition handle_relay_data :: "('h, 't) env \<Rightarrow> nat \<Rightarrow> string \<Rightarrow> bytes \<Rightarrow> ('h, 't) manager \<Rightarrow> ('h, 't) manager" where
  "handle_relay_data env now sid d m =
     (case m_relay_waiters m sid of
        Some q \<Rightarrow> m\<lparr>m_relay_waiters := (m_relay_waiters m)(sid \<mapsto> q @ [d])\<rparr>
      | None \<Rightarrow>
          (case peer_for_session sid (m_tracker m) of
             None \<Rightarrow> m
           | Some peer \<Rightarrow>
               (case m_sessions m peer of
                  None \<Rightarrow> m
                | Some ps \<Rightarrow> snd (decrypt_and_dispatch env now peer (ps_noise ps) d m))))"

text \<open>One event of the client at address \<open>a\<close>: the relay handshake it spawns, if any, and the state.\<close>

fun handle_signaling_event ::
    "('h, 't) env \<Rightarrow> nat \<Rightarrow> (string \<Rightarrow> 'a option) \<Rightarrow> ('a \<Rightarrow> (nat \<times> peer_stream) res) \<Rightarrow> nat \<Rightarrow> signaling_event \<Rightarrow>
      ('h, 't) manager \<Rightarrow> (string \<times> string \<times> bool) option \<times> ('h, 't) manager" where
  "handle_signaling_event env now parse dial a Registered m = (None, m)"
| "handle_signaling_event env now parse dial a (RegisterFailed err) m = (None, m)"
| "handle_signaling_event env now parse dial a (IncomingCandidates src sid cands) m =
     (let m1 = m\<lparr>m_tracker := tracker_register sid src (m_tracker m)\<rparr>;
          (r, m2) = try_candidates env now parse dial src cands m1;
          (_, m3) = with_client a (\<lambda>cl. sig_send (e_sig env) cl (CandidateResultMsg sid (is_ok r))) m2
      in (None, m3))"
| "handle_signaling_event env now parse dial a (CandidateResult sid likely) m =
     (None, if likely then m else snd (with_client a (\<lambda>cl. request_relay (e_sig env) cl sid) m))"
| "handle_signaling_event env now parse dial a (RelayReady sid) m =
     (map_option (\<lambda>(peer, leads). (sid, peer, leads)) (activate_relay_session sid m), m)"
| "handle_signaling_event env now parse dial a (RelayData sid d) m = (None, handle_relay_data env now sid d m)"
| "handle_signaling_event env now parse dial a (RelayClosed sid) m =
     (None, m\<lparr>m_tracker := tracker_remove sid (m_tracker m)\<rparr>)"
| "handle_signaling_event env now parse dial a Disconnected m = (None, m\<lparr>m_signaling := None\<rparr>)"

text \<open>The task that \<open>connect_signaling_server\<close> spawns: it handles the events of its client until there are no more.  The
  instant of each is an argument.\<close>

fun signaling_loop ::
    "('h, 't) env \<Rightarrow> (string \<Rightarrow> 'a option) \<Rightarrow> ('a \<Rightarrow> (nat \<times> peer_stream) res) \<Rightarrow> nat \<Rightarrow> (nat \<times> signaling_event) list \<Rightarrow>
      ('h, 't) manager \<Rightarrow> (string \<times> string \<times> bool) list \<times> ('h, 't) manager" where
  "signaling_loop env parse dial a [] m = ([], m)"
| "signaling_loop env parse dial a ((now, ev) # evs) m =
     (let (spawned, m1) = handle_signaling_event env now parse dial a ev m;
          (later, m2) = signaling_loop env parse dial a evs m1
      in (case spawned of None \<Rightarrow> later | Some h \<Rightarrow> h # later, m2))"

section \<open>The handshake over the relay\<close>

text \<open>The task of \<open>run_relay_handshake\<close>: the message it waits for next, or its result.\<close>

datatype ('h, 't) relay_task =
    AwaitMsg1 "('h, 't) noise_session"
  | AwaitMsg2 "('h, 't) noise_session"
  | AwaitMsg3 "('h, 't) noise_session"
  | RelayEnded "unit res"

text \<open>Write a handshake message and hand it to the relay.\<close>

definition relay_write ::
    "('h, 't) env \<Rightarrow> nat \<Rightarrow> string \<Rightarrow> ('h, 't) noise_session \<Rightarrow> ('h, 't) manager \<Rightarrow>
      ('h, 't) noise_session res \<times> ('h, 't) manager" where
  "relay_write env a sid s m =
     (case handshake_write env s of
        Inl e \<Rightarrow> (Inl e, m)
      | Inr (msg, s') \<Rightarrow>
          let (r, m') = with_client a (\<lambda>cl. send_relay_data (e_sig env) cl sid msg) m
          in (andThen r (\<lambda>_. Inr s'), m'))"

definition relay_begin ::
    "('h, 't) env \<Rightarrow> nat \<Rightarrow> string \<Rightarrow> bool \<Rightarrow> ('h, 't) manager \<Rightarrow> ('h, 't) relay_task \<times> ('h, 't) manager" where
  "relay_begin env a sid leads m =
     (let m1 = m\<lparr>m_relay_waiters := (m_relay_waiters m)(sid \<mapsto> [])\<rparr> in
      case noise_new (e_snow env) (m_identity m) (if leads then Initiator else Responder) of
        Inl e \<Rightarrow> (RelayEnded (Inl e), m1)
      | Inr s \<Rightarrow>
          if leads then
            (case relay_write env a sid s m1 of
               (Inl e, m2) \<Rightarrow> (RelayEnded (Inl e), m2)
             | (Inr s', m2) \<Rightarrow> (AwaitMsg2 s', m2))
          else (AwaitMsg1 s, m1))"

text \<open>The new session over the relay.\<close>

definition relay_session_up ::
    "('h, 't) env \<Rightarrow> nat \<Rightarrow> nat \<Rightarrow> string \<Rightarrow> string \<Rightarrow> bytes \<Rightarrow> ('h, 't) noise_session \<Rightarrow> ('h, 't) manager \<Rightarrow>
      ('h, 't) manager" where
  "relay_session_up env now a sid did key noise m =
     emit (OnPeerConnected did) (m\<lparr>
       m_storage := snd (upsert_known_device (e_wall env now) did did key True (m_storage m)),
       m_noise := (m_noise m)(m_next m := noise), m_next := Suc (m_next m),
       m_sessions := (m_sessions m)(did \<mapsto>
         \<lparr>ps_device_id = did, ps_noise = m_next m, ps_outbound = Relay a sid\<rparr>)\<rparr>)"

text \<open>After the last message: the identity check and the session.  A failed check leaves the waiter behind.\<close>

definition relay_finish ::
    "('h, 't) env \<Rightarrow> nat \<Rightarrow> nat \<Rightarrow> string \<Rightarrow> string \<Rightarrow> ('h, 't) noise_session \<Rightarrow> ('h, 't) manager \<Rightarrow>
      unit res \<times> ('h, 't) manager" where
  "relay_finish env now a sid peer s m =
     (case shown_key env ''relay handshake'' s of
        Inl e \<Rightarrow> (Inl e, m)
      | Inr key \<Rightarrow>
          let verified = device_id_from_public_key (e_crypto env) key in
          if verified \<noteq> peer
          then (Inl (InvalidState (''relay peer identity mismatch: expected '' @ peer @ '', got '' @ verified)), m)
          else
            let m1 = m\<lparr>m_relay_waiters := (m_relay_waiters m)(sid := None)\<rparr> in
            case into_transport_mode (e_snow env) s of
              Inl e \<Rightarrow> (Inl e, m1)
            | Inr s' \<Rightarrow>
                (Inr (), relay_session_up env now a sid verified key s' m1))"

text \<open>The task goes on with the message it waited for.\<close>

fun relay_resume ::
    "('h, 't) env \<Rightarrow> nat \<Rightarrow> nat \<Rightarrow> string \<Rightarrow> string \<Rightarrow> bytes \<Rightarrow> ('h, 't) relay_task \<Rightarrow> ('h, 't) manager \<Rightarrow>
      ('h, 't) relay_task \<times> ('h, 't) manager" where
  "relay_resume env now a sid peer msg (AwaitMsg1 s) m =
     (case handshake_read env msg s of
        Inl e \<Rightarrow> (RelayEnded (Inl e), m)
      | Inr s1 \<Rightarrow>
          (case relay_write env a sid s1 m of
             (Inl e, m1) \<Rightarrow> (RelayEnded (Inl e), m1)
           | (Inr s2, m1) \<Rightarrow> (AwaitMsg3 s2, m1)))"
| "relay_resume env now a sid peer msg (AwaitMsg2 s) m =
     (case handshake_read env msg s of
        Inl e \<Rightarrow> (RelayEnded (Inl e), m)
      | Inr s1 \<Rightarrow>
          (case relay_write env a sid s1 m of
             (Inl e, m1) \<Rightarrow> (RelayEnded (Inl e), m1)
           | (Inr s2, m1) \<Rightarrow> let (r, m2) = relay_finish env now a sid peer s2 m1 in (RelayEnded r, m2)))"
| "relay_resume env now a sid peer msg (AwaitMsg3 s) m =
     (case handshake_read env msg s of
        Inl e \<Rightarrow> (RelayEnded (Inl e), m)
      | Inr s1 \<Rightarrow> let (r, m1) = relay_finish env now a sid peer s1 m in (RelayEnded r, m1))"
| "relay_resume env now a sid peer msg (RelayEnded r) m = (RelayEnded r, m)"

text \<open>A turn of a task that waits: nothing while its channel is empty, the error when nobody can send on it any
  more.\<close>

definition relay_turn ::
    "('h, 't) env \<Rightarrow> nat \<Rightarrow> nat \<Rightarrow> string \<Rightarrow> string \<Rightarrow> ('h, 't) relay_task \<Rightarrow> ('h, 't) manager \<Rightarrow>
      ('h, 't) relay_task \<times> ('h, 't) manager" where
  "relay_turn env now a sid peer task m =
     (case task of
        RelayEnded r \<Rightarrow> (task, m)
      | _ \<Rightarrow>
          (case m_relay_waiters m sid of
             None \<Rightarrow> (RelayEnded (Inl (InvalidState ''relay closed during handshake'')), m)
           | Some [] \<Rightarrow> (task, m)
           | Some (msg # q) \<Rightarrow>
               relay_resume env now a sid peer msg task (m\<lparr>m_relay_waiters := (m_relay_waiters m)(sid \<mapsto> q)\<rparr>)))"

end
