(* ===== verification/Manager_Invariant.thy ===== *)
theory Manager_Invariant
  imports Operations Delivery
begin

text \<open>
  What every operation of the connection manager keeps: the database is consistent, a session stands under
  its device, no two transfers share a handle and no two offers share an answer channel, and a channel that is
  still held has not been answered.  The operations are the steps of \<open>local_step\<close>.
\<close>

section \<open>Addresses that are owned once\<close>

text \<open>Every owner has an address of its own, below the next free one.\<close>

definition owned :: "('k \<rightharpoonup> nat) \<Rightarrow> nat \<Rightarrow> bool" where
  "owned f n \<longleftrightarrow> inj_on f (dom f) \<and> ran f \<subseteq> {..<n}"

lemma owned_empty [simp]: "owned Map.empty n"
  by (simp add: owned_def)

lemma owned_mono: "owned f n \<Longrightarrow> n \<le> n' \<Longrightarrow> owned f n'"
  by (auto simp: owned_def)

lemma owned_None: "owned f n \<Longrightarrow> owned (f(x := None)) n"
  by (auto simp: owned_def inj_on_def ran_def)

lemma owned_fresh:
  assumes "owned f n" and "n \<le> b" and "b < n'"
  shows "owned (f(x \<mapsto> b)) n'"
proof -
  have less: "a < n" if "f y = Some a" for y a
    using assms(1) that by (auto simp: owned_def ran_def)
  have "inj_on (f(x \<mapsto> b)) (dom (f(x \<mapsto> b)))"
  proof (rule inj_onI)
    fix y z assume *: "y \<in> dom (f(x \<mapsto> b))" "z \<in> dom (f(x \<mapsto> b))" "(f(x \<mapsto> b)) y = (f(x \<mapsto> b)) z"
    consider "y = x" "z = x" | "y = x" "z \<noteq> x" | "y \<noteq> x" "z = x" | "y \<noteq> x" "z \<noteq> x" by blast
    then show "y = z"
    proof cases
      case 2
      then show ?thesis using * less [of z b] assms(2) by auto
    next
      case 3
      then show ?thesis using * less [of y b] assms(2) by auto
    next
      case 4
      then show ?thesis using * assms(1) by (auto simp: owned_def inj_on_def dom_def)
    qed simp
  qed
  moreover have "a < n'" if "a \<in> ran (f(x \<mapsto> b))" for a
    using that less assms(2,3) by (fastforce simp: ran_def split: if_splits)
  ultimately show ?thesis by (auto simp: owned_def)
qed

lemma owned_inj: "owned f n \<Longrightarrow> f x = Some a \<Longrightarrow> f y = Some a \<Longrightarrow> x = y"
  by (auto simp: owned_def inj_on_def dom_def)

section \<open>Channels and handles\<close>

text \<open>Who holds the sending half of an answer channel, and who holds a handle.\<close>

definition channel_of :: "(string \<rightharpoonup> outgoing_transfer) \<Rightarrow> (string \<rightharpoonup> nat option) \<Rightarrow> (string + string) \<rightharpoonup> nat" where
  "channel_of out fo = (\<lambda>k. case k of
     Inl tid \<Rightarrow> Option.bind (out tid) ot_accept_tx
   | Inr batch \<Rightarrow> Option.bind (fo batch) (\<lambda>tx. tx))"

definition handle_of :: "(string \<rightharpoonup> outgoing_transfer) \<Rightarrow> (string \<rightharpoonup> incoming_transfer) \<Rightarrow> (string + string) \<rightharpoonup> nat" where
  "handle_of out inc = (\<lambda>k. case k of
     Inl tid \<Rightarrow> map_option ot_handle (out tid)
   | Inr tid \<Rightarrow> map_option it_handle (inc tid))"

lemma channel_of_simps [simp]:
  "channel_of out fo (Inl tid) = Option.bind (out tid) ot_accept_tx"
  "channel_of out fo (Inr batch) = Option.bind (fo batch) (\<lambda>tx. tx)"
  "channel_of (out(tid := t)) fo = (channel_of out fo)(Inl tid := Option.bind t ot_accept_tx)"
  "channel_of out (fo(batch := tx)) = (channel_of out fo)(Inr batch := Option.bind tx (\<lambda>tx. tx))"
  by (auto simp: channel_of_def split: sum.splits)

lemma handle_of_simps [simp]:
  "handle_of out inc (Inl tid) = map_option ot_handle (out tid)"
  "handle_of out inc (Inr tid) = map_option it_handle (inc tid)"
  "handle_of (out(tid := t)) inc = (handle_of out inc)(Inl tid := map_option ot_handle t)"
  "handle_of out (inc(tid := i)) = (handle_of out inc)(Inr tid := map_option it_handle i)"
  by (auto simp: handle_of_def split: sum.splits)

definition channels_ok :: "((string + string) \<rightharpoonup> nat) \<Rightarrow> (nat \<Rightarrow> answer) \<Rightarrow> nat \<Rightarrow> bool" where
  "channels_ok f ans n \<longleftrightarrow> owned f n \<and> (\<forall>a \<in> ran f. ans a = Waiting)"

lemma channels_mono: "channels_ok f ans n \<Longrightarrow> n \<le> n' \<Longrightarrow> channels_ok f ans n'"
  by (auto simp: channels_ok_def intro: owned_mono)

lemma ran_None_subset: "b \<in> ran (f(x := None)) \<Longrightarrow> b \<in> ran f"
  by (auto simp: ran_def split: if_splits)

lemma channels_released:
  assumes "channels_ok f ans n" and "f x = Some a"
  shows "channels_ok (f(x := None)) (ans(a := v)) n"
proof -
  have o: "owned f n" and w: "\<forall>b \<in> ran f. ans b = Waiting" using assms(1) by (simp_all add: channels_ok_def)
  have "(ans(a := v)) b = Waiting" if b: "b \<in> ran (f(x := None))" for b
  proof -
    obtain y where "y \<noteq> x" "f y = Some b" using b by (auto simp: ran_def split: if_splits)
    then have "b \<noteq> a" using owned_inj [OF o, of y a x] assms(2) by blast
    then show ?thesis using w ran_None_subset [OF b] by simp
  qed
  then show ?thesis using owned_None [OF o] by (simp add: channels_ok_def)
qed

lemma channels_None: "channels_ok f ans n \<Longrightarrow> channels_ok (f(x := None)) ans n"
  using owned_None ran_None_subset by (fastforce simp: channels_ok_def)

lemma channels_fresh:
  assumes "channels_ok f ans n" and "n \<le> b" and "b < n'"
  shows "channels_ok (f(x \<mapsto> b)) (ans(b := Waiting)) n'"
  using assms owned_fresh [of f n b n' x] by (auto simp: channels_ok_def ran_def)

section \<open>The invariant\<close>

definition manager_ok :: "('h, 't) manager \<Rightarrow> bool" where
  "manager_ok m \<longleftrightarrow>
     storage_wf (m_storage m) \<and>
     (\<forall>did ps. m_sessions m did = Some ps \<longrightarrow> ps_device_id ps = did) \<and>
     owned (handle_of (m_outgoing m) (m_incoming m)) (m_next m) \<and>
     channels_ok (channel_of (m_outgoing m) (m_folder_offers m)) (m_answers m) (m_next m)"

lemma manager_ok_cong:
  "m_storage m' = m_storage m \<Longrightarrow> m_sessions m' = m_sessions m \<Longrightarrow> m_outgoing m' = m_outgoing m \<Longrightarrow>
    m_incoming m' = m_incoming m \<Longrightarrow> m_folder_offers m' = m_folder_offers m \<Longrightarrow> m_answers m' = m_answers m \<Longrightarrow>
    m_next m' = m_next m \<Longrightarrow> manager_ok m' \<longleftrightarrow> manager_ok m"
  by (simp add: manager_ok_def)

lemma manager_ok_frame: "send_frame m m' \<Longrightarrow> manager_ok m' \<longleftrightarrow> manager_ok m"
  by (rule manager_ok_cong) (simp_all add: send_frame_def)

text \<open>Updates of what the invariant does not look at.\<close>

lemma manager_ok_updates [simp]:
  "manager_ok (m\<lparr>m_noise := a\<rparr>) \<longleftrightarrow> manager_ok m"
  "manager_ok (m\<lparr>m_streams := b\<rparr>) \<longleftrightarrow> manager_ok m"
  "manager_ok (m\<lparr>m_handles := c\<rparr>) \<longleftrightarrow> manager_ok m"
  "manager_ok (m\<lparr>m_fs := d\<rparr>) \<longleftrightarrow> manager_ok m"
  "manager_ok (m\<lparr>m_events := e\<rparr>) \<longleftrightarrow> manager_ok m"
  "manager_ok (emit ev m) \<longleftrightarrow> manager_ok m"
  "manager_ok (update_handle h f m) \<longleftrightarrow> manager_ok m"
  by (simp_all add: manager_ok_def emit_def update_handle_def)

lemma manager_ok_storage:
  "manager_ok m \<Longrightarrow> storage_wf (m_storage m) \<and> (storage_wf db \<longrightarrow> manager_ok (m\<lparr>m_storage := db\<rparr>))"
  by (simp add: manager_ok_def)

lemmas manager_ok_db = manager_ok_storage [THEN conjunct2, rule_format]
  and manager_ok_wf = manager_ok_storage [THEN conjunct1]

lemma manager_ok_incoming_None: "manager_ok m \<Longrightarrow> manager_ok (m\<lparr>m_incoming := (m_incoming m)(tid := None)\<rparr>)"
  by (simp add: manager_ok_def owned_None)

lemma manager_ok_session_None: "manager_ok m \<Longrightarrow> manager_ok (m\<lparr>m_sessions := (m_sessions m)(did := None)\<rparr>)"
  by (simp add: manager_ok_def)

lemma manager_ok_send [preserves]:
  "manager_ok m \<Longrightarrow> manager_ok (snd (send_to env did msg m))"
  "manager_ok m \<Longrightarrow> manager_ok (snd (send_message env ps msg m))"
  "manager_ok m \<Longrightarrow> manager_ok (try_send env did msg m)"
  by (simp_all add: manager_ok_frame [OF send_to_frame] manager_ok_frame [OF send_message_frame] try_send_def
      split: option.split)

section \<open>Answers\<close>

lemma channel_waiting:
  "channels_ok f ans n \<Longrightarrow> f x = Some a \<Longrightarrow> ans a = Waiting"
  by (auto simp: channels_ok_def ran_def)

lemma same_handle [simp]:
  "m_outgoing m tid = Some t \<Longrightarrow> (handle_of (m_outgoing m) (m_incoming m))(Inl tid \<mapsto> ot_handle t) =
    handle_of (m_outgoing m) (m_incoming m)"
  by (auto simp: handle_of_def)

lemma answer_file_ok [preserves]: "manager_ok m \<Longrightarrow> manager_ok (answer_file b tid m)"
  by (auto simp: answer_file_def answer_with_def manager_ok_def channel_waiting channels_None
      split: option.split intro!: channels_released)

lemma answer_folder_ok [preserves]: "manager_ok m \<Longrightarrow> manager_ok (answer_folder b batch m)"
  by (auto simp: answer_folder_def answer_with_def manager_ok_def channels_None
      split: option.split intro!: channels_released)

lemma remove_outgoing_ok [preserves]: "manager_ok m \<Longrightarrow> manager_ok (remove_outgoing tid m)"
  by (auto simp: remove_outgoing_def drop_sender_def manager_ok_def owned_None channels_None
      split: option.split intro!: channels_released)

lemma remove_folder_offer_ok [preserves]: "manager_ok m \<Longrightarrow> manager_ok (remove_folder_offer batch m)"
  by (auto simp: remove_folder_offer_def drop_sender_def manager_ok_def channels_None
      split: option.split intro!: channels_released)

section \<open>Every operation keeps it\<close>

lemma manager_ok_decrypted: "manager_ok m \<Longrightarrow> manager_ok (run_stream_writer env can_write a c tid m)"
  by (simp add: run_stream_writer_def Let_def manager_ok_def split: option.split prod.split)

lemma manager_ok_forwarded: "manager_ok m \<Longrightarrow> manager_ok (run_relay_forwarder env ps n tid m)"
  by (auto simp: run_relay_forwarder_def Let_def manager_ok_def split: option.split outbound_path.split prod.split)

lemma manager_ok_address: "manager_ok m \<Longrightarrow> manager_ok (m\<lparr>m_next := Suc (m_next m)\<rparr>)"
  by (auto simp: manager_ok_def intro: owned_mono channels_mono)

lemma manager_ok_added:
  "manager_ok m \<Longrightarrow> manager_ok (add_incoming tid dest m)" "manager_ok m \<Longrightarrow> manager_ok (add_offer tid src m)"
  "manager_ok m \<Longrightarrow> manager_ok (add_resumed tid src m)" "manager_ok m \<Longrightarrow> manager_ok (add_folder_offer batch m)"
  by (auto simp: add_incoming_def add_offer_def add_resumed_def add_folder_offer_def manager_ok_def
      intro: owned_fresh owned_mono channels_fresh channels_mono channels_None)

interpretation ok: operations_keep manager_ok env for env
proof
  show "manager_ok m \<Longrightarrow> transfers_only (m_storage m) db \<Longrightarrow> manager_ok (m\<lparr>m_storage := db\<rparr>)"
    for m :: "('a, 'b) manager" and db
    using manager_ok_db manager_ok_wf by (auto simp: transfers_only_def)
qed (simp_all add: preserves manager_ok_decrypted manager_ok_forwarded manager_ok_address manager_ok_added manager_ok_incoming_None
    manager_ok_session_None)

lemma register_session_ok [preserves]: "manager_ok m \<Longrightarrow> manager_ok (register_session env now did key conn noise m)"
  by (auto simp: register_session_def emit_def Let_def manager_ok_def preserves owned_mono channels_mono)

definition manager_start :: "('h, 't) manager \<Rightarrow> bool" where
  "manager_start m \<longleftrightarrow> (\<exists>identity dir db fs unused. storage_wf db \<and> m = manager_new identity dir db fs unused)"

lemma new_manager_ok: "manager_start m \<Longrightarrow> manager_ok m"
proof -
  have "channel_of Map.empty Map.empty = Map.empty" and "handle_of Map.empty Map.empty = Map.empty"
    by (auto simp: channel_of_def handle_of_def split: sum.split)
  then show "manager_start m \<Longrightarrow> manager_ok m"
    by (auto simp: manager_start_def manager_new_def manager_ok_def channels_ok_def)
qed

definition small_info :: file_info where
  "small_info = \<lparr>fi_name = ''f'', fi_size = 3, fi_mime = ''x'', fi_message_id = ''m'', fi_conversation_id = ''c'',
     fi_relative_path = ''f'', fi_folder_batch_id = None\<rparr>"

definition new_toy :: "(bytes, noise_view) manager" where
  "new_toy = manager_new (generate toy_crypto [5]) ''/d'' empty_storage
     \<lparr>files = Map.empty, creatable = (\<lambda>_. True)\<rparr> (Transport toy_view)"

definition offered_toy :: "(bytes, noise_view) manager" where
  "offered_toy = snd (send_file toy_env 0 ''t'' ''peer'' (Path ''/f'') small_info new_toy)"

lemma offered_toy_entry:
  "m_outgoing offered_toy ''t'' = Some \<lparr>ot_source = Path ''/f'', ot_handle = 0, ot_accept_tx = Some 1\<rparr>"
proof -
  have "snd (send_to toy_env ''peer'' msg m) = m" if "m_sessions m ''peer'' = None" for msg m
    using that by (simp add: send_to_def)
  then show ?thesis
    by (simp add: offered_toy_def send_file_def Let_def case_prod_beta new_toy_def manager_new_def)
qed

section \<open>The answer to an offer\<close>

fun dispatch_all ::
    "('h, 't) env \<Rightarrow> (nat \<times> string \<times> protocol_message) list \<Rightarrow> ('h, 't) manager \<Rightarrow> ('h, 't) manager" where
  "dispatch_all env [] m = m"
| "dispatch_all env ((now, src, msg) # arrivals) m = dispatch_all env arrivals (dispatch_incoming env now src msg m)"

fun answers_file :: "string \<Rightarrow> protocol_message \<Rightarrow> bool option" where
  "answers_file tid (FileAccept tid') = (if tid' = tid then Some True else None)"
| "answers_file tid (FileReject tid' reason) = (if tid' = tid then Some False else None)"
| "answers_file tid _ = None"

fun first_answer :: "string \<Rightarrow> (nat \<times> string \<times> protocol_message) list \<Rightarrow> bool option" where
  "first_answer tid [] = None"
| "first_answer tid ((now, src, msg) # arrivals) =
     (case answers_file tid msg of Some b \<Rightarrow> Some b | None \<Rightarrow> first_answer tid arrivals)"

lemma send_answers [simp]:
  "m_answers (try_send env did msg m) = m_answers m" "m_outgoing (try_send env did msg m) = m_outgoing m"
  "m_folder_offers (try_send env did msg m) = m_folder_offers m"
  using send_message_frame [of m env _ msg]
  by (auto simp: try_send_def send_frame_def split: option.split)

lemma chunk_answers [simp]:
  "m_answers (handle_incoming_chunk env now src c m) = m_answers m"
  "m_outgoing (handle_incoming_chunk env now src c m) = m_outgoing m"
  by (simp_all add: handle_incoming_chunk_def record_chunk_def complete_incoming_def update_handle_def emit_def Let_def
      split: option.split sum.split)

lemma cancel_answers [simp]:
  "m_answers (cancel_handles tid m) = m_answers m" "m_outgoing (cancel_handles tid m) = m_outgoing m"
  by (simp_all add: cancel_handles_def update_handle_def Let_def split: option.split)

lemma emit_answers [simp]:
  "m_answers (emit ev m) = m_answers m" "m_outgoing (emit ev m) = m_outgoing m"
  by (simp_all add: emit_def)

lemma answered_stays:
  assumes "m_answers m tx = Answered b"
  shows "m_answers (dispatch_incoming env now src msg m) tx = Answered b"
  using assms
  by (cases msg)
    (auto simp: handle_file_accept_def handle_file_reject_def handle_folder_accept_def handle_folder_reject_def
      answer_file_def answer_folder_def remove_outgoing_def remove_folder_offer_def answer_with_def drop_sender_def
      split: option.split)

lemma answered_stays_all: "m_answers m tx = Answered b \<Longrightarrow> m_answers (dispatch_all env arrivals m) tx = Answered b"
  by (induction env arrivals m rule: dispatch_all.induct) (auto intro: answered_stays)

lemma held_channel_waits:
  "manager_ok m \<Longrightarrow> m_outgoing m tid = Some t \<Longrightarrow> ot_accept_tx t = Some tx \<Longrightarrow> m_answers m tx = Waiting"
  using channel_waiting [of "channel_of (m_outgoing m) (m_folder_offers m)" _ _ "Inl tid" tx]
  by (auto simp: manager_ok_def)

lemma other_offers_untouched:
  "answers_file tid msg = None \<Longrightarrow> m_outgoing (dispatch_incoming env now src msg m) tid = m_outgoing m tid"
  by (cases msg)
    (auto simp: handle_file_accept_def handle_file_reject_def handle_folder_accept_def handle_folder_reject_def
      answer_file_def answer_folder_def remove_outgoing_def remove_folder_offer_def answer_with_def drop_sender_def
      split: option.split if_splits)

lemma answer_reaches_task:
  assumes "manager_ok m" and "m_outgoing m tid = Some t" and "ot_accept_tx t = Some tx"
    and "answers_file tid msg = Some b"
  shows "m_answers (dispatch_incoming env now src msg m) tx = Answered b"
proof -
  have w: "m_answers m tx = Waiting" by (rule held_channel_waits [OF assms(1-3)])
  from assms(4) consider "msg = FileAccept tid" "b" | reason where "msg = FileReject tid reason" "\<not> b"
    by (cases msg) (auto split: if_splits)
  then show ?thesis
    by cases (use w assms(2,3) in \<open>simp_all add: handle_file_accept_def handle_file_reject_def answer_file_def
      answer_with_def remove_outgoing_def drop_sender_def\<close>)
qed

lemma dispatch_all_answer:
  assumes "manager_ok m" and "m_outgoing m tid = Some t" and "ot_accept_tx t = Some tx"
  shows "m_answers (dispatch_all env arrivals m) tx =
    (case first_answer tid arrivals of None \<Rightarrow> Waiting | Some b \<Rightarrow> Answered b)"
  using assms(1,2)
proof (induction arrivals arbitrary: m)
  case Nil
  then show ?case using held_channel_waits assms(3) by simp
next
  case (Cons x arrivals)
  obtain now src msg where x: "x = (now, src, msg)" by (rule prod_cases3)
  show ?case
  proof (cases "answers_file tid msg")
    case None
    then show ?thesis
      using Cons(1) [OF ok.dispatched [OF Cons(2)]] other_offers_untouched [OF None, of env now src m] Cons(3) by (simp add: x)
  next
    case (Some b)
    then show ?thesis
      using answered_stays_all [OF answer_reaches_task [OF Cons(2,3) assms(3) Some]] by (simp add: x)
  qed
qed

section \<open>A session that was replaced\<close>

text \<open>C36: a device that connects again replaces its session, and when the stream of the old connection then ends,
  its reader removes the new session: the device counts as disconnected although the new connection is open, and a
  message to it fails.\<close>

theorem old_reader_removes_new_session:
  assumes "m1 = register_session env now1 did key1 conn1 noise1 m"
    and "m2 = register_session env now2 did key2 conn2 noise2 m1"
    and "m3 = control_reader env did (ps_noise (the (m_sessions m1 did))) [] m2"
  shows "is_connected did m2 \<and> m_control_open m3 conn2 \<and> \<not> is_connected did m3 \<and>
    send_to env did msg m3 = (Inl (NotFound (''no active session with '' @ did)), m3)"
  by (simp add: assms register_session_def control_reader_def emit_def is_connected_def send_to_def Let_def)

theorem old_reader_removes_new_session_witness:
  "fst (send_to toy_env ''peer'' Ping (control_reader toy_env ''peer'' 0 []
     (register_session toy_env 2 ''peer'' [2] 1 (Transport toy_view)
       (register_session toy_env 1 ''peer'' [1] 0 (Transport toy_view) new_toy)))) =
   Inl (NotFound ''no active session with peer'')"
  using old_reader_removes_new_session [OF refl refl refl, where env = toy_env and ?now1.0 = 1 and ?now2.0 = 2 and
      did = "''peer''" and ?key1.0 = "[1]" and ?key2.0 = "[2]" and ?conn1.0 = 0 and ?conn2.0 = 1 and
      ?noise1.0 = "Transport toy_view" and ?noise2.0 = "Transport toy_view" and m = new_toy and msg = Ping]
  by (simp add: register_session_def Let_def emit_def new_toy_def manager_new_def)

end
