(* ===== verification/Network.thy ===== *)
theory Network
  imports Connect Manager_Invariant
begin

text \<open>
  The connection manager on the network: its operations together with the ways a session comes about are the
  steps of \<open>node_step\<close>.  What holds in every state a node can reach, what a handshake between two nodes
  gives, over QUIC and over the relay, and who ends up with which device id.
\<close>

section \<open>The steps of a node\<close>

text \<open>A parsed socket address is named by a text.\<close>

inductive node_step :: "('h, 't) env \<Rightarrow> ('h, 't) manager \<Rightarrow> ('h, 't) manager \<Rightarrow> bool" for env where
  operation: "local_step env m m' \<Longrightarrow> node_step env m m'"
| dialling: "node_step env m (snd (connect_to_peer env now dial expected m))"
| accepting: "node_step env m (snd (handle_inbound_connection env now conn frame1 st m))"
| signaling_up: "node_step env m (snd (connect_signaling_server env ws m))"
| offering_candidates: "node_step env m (snd (connect_to_peer_via_internet env probe local_addr sid peer m))"
| signaling_event: "node_step env m (snd (handle_signaling_event env now (parse :: string \<Rightarrow> string option) dial_addr a ev m))"
| relay_starts: "node_step env m (snd (relay_begin env a sid leads m))"
| relay_turns: "node_step env m (snd (relay_turn env now a sid peer task m))"

section \<open>The contract of a step\<close>

text \<open>A predicate that the operations keep is kept by every step of a node if it survives what the network adds: a
  session under the id computed from the key its handshake showed, and the bookkeeping of the signaling.\<close>

locale node_keeps = operations_keep P env for P :: "('h, 't) manager \<Rightarrow> bool" and env :: "('h, 't) env" +
  fixes start :: "('h, 't) manager \<Rightarrow> bool"
  assumes started: "start m \<Longrightarrow> P m"
    and session_up: "P m \<Longrightarrow> shown_key env what s = Inr key \<Longrightarrow> into_transport_mode (e_snow env) s = Inr s' \<Longrightarrow>
      did = device_id_from_public_key (e_crypto env) key \<Longrightarrow> P (register_session env now did key conn s' m)"
    and relay_up: "P m \<Longrightarrow> shown_key env what s = Inr key \<Longrightarrow> into_transport_mode (e_snow env) s = Inr s' \<Longrightarrow>
      did = device_id_from_public_key (e_crypto env) key \<Longrightarrow> P (relay_session_up env now a sid did key s' m)"
    and clients: "P m \<Longrightarrow> P (m\<lparr>m_clients := cls\<rparr>)"
    and tracked: "P m \<Longrightarrow> P (m\<lparr>m_tracker := tr\<rparr>)"
    and waiters: "P m \<Longrightarrow> P (m\<lparr>m_relay_waiters := w\<rparr>)"
    and signaling: "P m \<Longrightarrow> P (m\<lparr>m_signaling := sg\<rparr>)"
    and allocated: "P m \<Longrightarrow> P (m\<lparr>m_next := Suc (m_next m)\<rparr>)"
begin

lemma dialled: "P m \<Longrightarrow> P (snd (connect_to_peer env now dial expected m))"
proof -
  assume m: "P m"
  have "P (register_session env now expected key conn s' m)"
    if "andThen dial (\<lambda>(conn, st).
             andThen (initiator_handshake env (m_identity m) st) (\<lambda>s.
             andThen (shown_key env ''handshake'' s) (\<lambda>key.
               let actual = device_id_from_public_key (e_crypto env) key in
               if actual \<noteq> expected
               then Inl (InvalidState (''peer identity mismatch: expected '' @ expected @ '', got '' @ actual))
               else andThen (into_transport_mode (e_snow env) s) (\<lambda>s'. Inr (conn, key, s'))))) = Inr (conn, key, s')"
    for conn key s'
    using that session_up [OF m] by (auto simp: andThen_Inr_iff Let_def split: if_splits)
  then show ?thesis using m by (auto simp: connect_to_peer_def split: sum.split)
qed

lemma inbound: "P m \<Longrightarrow> P (snd (handle_inbound_connection env now conn frame1 st m))"
  by (auto simp: handle_inbound_connection_def andThen_Inr_iff intro: session_up split: sum.split)

lemma tried_candidates: "P m \<Longrightarrow> P (snd (try_candidates env now parse dial_addr peer cs m))"
proof (induction cs arbitrary: m)
  case (Cons c cs)
  have "P m'" if "connect_to_peer env now (dial_addr addr) peer m = (r, m')" for addr r m'
    using that dialled [OF Cons(2)] by (metis snd_conv)
  then show ?case using Cons by (auto split: option.split sum.split prod.split)
qed simp

lemma client_used: "P m \<Longrightarrow> P (snd (with_client a f m))"
  by (simp add: with_client_def clients split: prod.split)

lemma relay_data_handled: "P m \<Longrightarrow> P (handle_relay_data env now sid d m)"
  by (simp add: handle_relay_data_def waiters decrypted_and_dispatched split: option.split)

lemma signaling_connected: "P m \<Longrightarrow> P (snd (connect_signaling_server env ws m))"
proof -
  assume m: "P m"
  have "P (m\<lparr>m_clients := cls, m_signaling := sg, m_next := Suc (m_next m)\<rparr>)" for cls sg
  proof -
    have "P (m\<lparr>m_next := Suc (m_next m), m_clients := cls, m_signaling := sg\<rparr>)"
      by (intro signaling clients allocated m)
    then show ?thesis by (cases m) simp
  qed
  then show ?thesis using m by (simp add: connect_signaling_server_def split: sum.split)
qed

lemma candidates_offered: "P m \<Longrightarrow> P (snd (connect_to_peer_via_internet env probe local_addr sid peer m))"
  by (simp add: connect_to_peer_via_internet_def tracked client_used split: option.split sum.split)

lemma event_handled: "P m \<Longrightarrow> P (snd (handle_signaling_event env now parse dial_addr a ev m))"
  by (cases ev) (simp_all add: Let_def case_prod_beta tracked tried_candidates client_used relay_data_handled signaling)

lemma relay_written: "P m \<Longrightarrow> P (snd (relay_write env a sid s m))"
  by (simp add: relay_write_def Let_def case_prod_beta client_used split: sum.split)

lemma relay_begun: "P m \<Longrightarrow> P (snd (relay_begin env a sid leads m))"
proof -
  assume m: "P m"
  have "P m2" if "relay_write env a sid s (m\<lparr>m_relay_waiters := w\<rparr>) = (r, m2)" for s w r m2
    using that relay_written [OF waiters [OF m]] by (metis snd_conv)
  then show ?thesis using m by (auto simp: relay_begin_def Let_def waiters split: sum.split prod.split)
qed

lemma relay_finished: "P m \<Longrightarrow> P (snd (relay_finish env now a sid peer s m))"
  by (auto simp: relay_finish_def Let_def waiters intro: relay_up split: sum.split)

lemma relay_resumed: "P m \<Longrightarrow> P (snd (relay_resume env now a sid peer msg task m))"
  by (cases task) (auto simp: Let_def case_prod_beta relay_written relay_finished split: sum.split)

lemma relay_turned: "P m \<Longrightarrow> P (snd (relay_turn env now a sid peer task m))"
  by (simp add: relay_turn_def relay_resumed waiters split: relay_task.split option.split list.split)

lemma node_step_keeps: "node_step env m m' \<Longrightarrow> P m \<Longrightarrow> P m'"
  by (induction rule: node_step.induct)
    (simp_all add: local_step_keeps dialled inbound signaling_connected candidates_offered event_handled
      relay_begun relay_turned)

end

sublocale node_keeps \<subseteq> machine start "node_step env" P
  by unfold_locales (auto intro: started node_step_keeps)

section \<open>The invariant of the manager\<close>

lemma relay_session_up_ok: "manager_ok m \<Longrightarrow> manager_ok (relay_session_up env now a sid did key s' m)"
  by (auto simp: relay_session_up_def emit_def manager_ok_def preserves intro: owned_mono channels_mono)

lemma manager_ok_network:
  "manager_ok m \<Longrightarrow> manager_ok (m\<lparr>m_clients := cls\<rparr>)" "manager_ok m \<Longrightarrow> manager_ok (m\<lparr>m_tracker := tr\<rparr>)"
  "manager_ok m \<Longrightarrow> manager_ok (m\<lparr>m_relay_waiters := w\<rparr>)" "manager_ok m \<Longrightarrow> manager_ok (m\<lparr>m_signaling := sg\<rparr>)"
  "manager_ok m \<Longrightarrow> manager_ok (m\<lparr>m_next := Suc (m_next m)\<rparr>)"
  by (auto simp: manager_ok_def intro: owned_mono channels_mono)

interpretation node: node_keeps manager_ok env manager_start for env
  by unfold_locales (simp_all add: new_manager_ok preserves relay_session_up_ok manager_ok_network)

lemma new_toy_start: "manager_start new_toy"
  unfolding manager_start_def new_toy_def by (intro exI conjI) (rule empty_storage_wf, rule refl)

lemma offered_toy_step: "(node_step toy_env)\<^sup>*\<^sup>* new_toy offered_toy"
  unfolding offered_toy_def by (intro r_into_rtranclp operation offering_file)

text \<open>C2: whatever operations run on a new manager, in whatever order, the database keeps its keys and
  references, every session stands under the id of its device, no two transfers on either side share a handle,
  and no two offers share an answer channel: each offer that still holds a channel is unanswered.\<close>

theorem manager_invariant:
  assumes "manager_start m0" and "(node_step env)\<^sup>*\<^sup>* m0 m"
  shows "keys_unique (m_storage m) \<and> references_ok (m_storage m) \<and>
    (m_sessions m did = Some ps \<longrightarrow> ps_device_id ps = did) \<and>
    inj_on (handle_of (m_outgoing m) (m_incoming m)) (dom (handle_of (m_outgoing m) (m_incoming m))) \<and>
    inj_on (channel_of (m_outgoing m) (m_folder_offers m)) (dom (channel_of (m_outgoing m) (m_folder_offers m))) \<and>
    (m_outgoing m tid = Some t \<and> ot_accept_tx t = Some tx \<longrightarrow> m_answers m tx = Waiting)"
proof -
  have ok: "manager_ok m" by (rule node.reachable_inv [OF assms])
  have "m_answers m tx = Waiting" if "m_outgoing m tid = Some t" "ot_accept_tx t = Some tx"
    using ok that channel_waiting [of "channel_of (m_outgoing m) (m_folder_offers m)" _ _ "Inl tid" tx]
    by (auto simp: manager_ok_def)
  then show ?thesis using ok by (simp add: manager_ok_def storage_wf_def channels_ok_def owned_def)
qed

theorem manager_invariant_witness:
  "keys_unique (m_storage offered_toy) \<and> m_answers offered_toy 1 = Waiting"
proof -
  have start: "manager_start new_toy"
    by (rule new_toy_start)
  have run: "(node_step toy_env)\<^sup>*\<^sup>* new_toy offered_toy"
    by (rule offered_toy_step)
  show ?thesis
    using manager_invariant [OF start run, where tid = "''t''" and tx = 1 and
      t = "\<lparr>ot_source = Path ''/f'', ot_handle = 0, ot_accept_tx = Some 1\<rparr>"] offered_toy_entry by simp
qed

text \<open>C20: the task that waits for the answer to a file offer gets the first \<open>FileAccept\<close> or \<open>FileReject\<close> for
  the transfer among everything that arrives, and the transfer starts exactly if that one is an accept that came in time.
  It is not looked at which device sent it.\<close>

theorem first_answer_counts:
  assumes "manager_start m0" and "(node_step env)\<^sup>*\<^sup>* m0 m"
    and "m_outgoing m tid = Some t" and "ot_accept_tx t = Some tx"
  shows "m_answers (dispatch_all env arrivals m) tx =
      (case first_answer tid arrivals of None \<Rightarrow> Waiting | Some b \<Rightarrow> Answered b) \<and>
    (fst (offer_answered timed_out tx tid (dispatch_all env arrivals m)) \<longleftrightarrow>
      \<not> timed_out \<and> first_answer tid arrivals = Some True)"
  using dispatch_all_answer [OF node.reachable_inv [OF assms(1,2)] assms(3,4), of env arrivals]
  by (auto simp: offer_answered_def split: option.split)

theorem first_answer_counts_witness:
  "fst (offer_answered False 1 ''t'' (dispatch_all toy_env
     [(1, ''stranger'', FileAccept ''t''), (2, ''peer'', FileReject ''t'' ''no'')] offered_toy))"
proof -
  have start: "manager_start new_toy"
    by (rule new_toy_start)
  have run: "(node_step toy_env)\<^sup>*\<^sup>* new_toy offered_toy"
    by (rule offered_toy_step)
  show ?thesis
    using first_answer_counts [OF start run offered_toy_entry, of 1 "[(1, ''stranger'', FileAccept ''t''), (2, ''peer'', FileReject ''t'' ''no'')]" False]
    by simp
qed

end
