(* ===== verification/Authentication.thy ===== *)
theory Authentication
  imports Network
begin

text \<open>
  Which device a session is with.  In every reachable state the id a session stands under is the one computed
  from the static key its Noise handshake showed, over QUIC and over the relay; and two honest nodes that
  dial, or meet at the relay, finish the handshake with transport states in step.  The id computed from the
  static key is not the id a device announces, so the check of the dialling side refuses an honest peer.
\<close>

section \<open>Every session is authenticated\<close>

text \<open>The static key the crate reports for the other side does not change once the handshake is over.\<close>

definition static_kept :: "('h, 't) snow \<Rightarrow> bool" where
  "static_kept sn \<longleftrightarrow>
     (\<forall>hs ts. hs_into_transport sn hs = Inr ts \<longrightarrow> ts_remote_static sn ts = hs_remote_static sn hs) \<and>
     (\<forall>ts p n. ts_remote_static sn (snd (ts_write sn ts p n)) = ts_remote_static sn ts) \<and>
     (\<forall>ts c n. ts_remote_static sn (snd (ts_read sn ts c n)) = ts_remote_static sn ts)"

text \<open>The id of the key that a transport state was set up with.\<close>

fun shown_id :: "('h, 't) env \<Rightarrow> ('h, 't) noise_session \<Rightarrow> string option" where
  "shown_id env (Transport ts) =
     map_option (device_id_from_public_key (e_crypto env)) (ts_remote_static (e_snow env) ts)"
| "shown_id env (Handshaking hs) = None"

definition authenticated :: "('h, 't) env \<Rightarrow> ('h, 't) manager \<Rightarrow> bool" where
  "authenticated env m \<longleftrightarrow>
     (\<forall>did ps. m_sessions m did = Some ps \<longrightarrow>
        ps_noise ps < m_next m \<and> shown_id env (m_noise m (ps_noise ps)) = Some did)"

lemma shown_id_kept:
  assumes "static_kept (e_snow env)"
  shows "shown_id env (snd (encrypt (e_snow env) s p)) = shown_id env s"
    and "shown_id env (snd (decrypt (e_snow env) s c)) = shown_id env s"
proof -
  show "shown_id env (snd (encrypt (e_snow env) s p)) = shown_id env s"
    using assms by (cases s) (auto simp: static_kept_def Let_def case_prod_beta)
  show "shown_id env (snd (decrypt (e_snow env) s c)) = shown_id env s"
    using assms by (cases s) (auto simp: static_kept_def Let_def case_prod_beta)
qed

lemma stream_writer_shown_id:
  assumes "static_kept (e_snow env)"
  shows "shown_id env (snd (snd (stream_writer env can_write s msgs))) = shown_id env s"
proof (induction msgs arbitrary: s)
  case (Cons msg msgs)
  then show ?case
    by (auto simp: Let_def case_prod_beta shown_id_kept(1) [OF assms] split: sum.split)
qed simp

text \<open>Only the state of a session and the table of sessions matter.\<close>

lemma authenticated_same:
  "m_noise m' = m_noise m \<Longrightarrow> m_sessions m' = m_sessions m \<Longrightarrow> m_next m \<le> m_next m' \<Longrightarrow>
    authenticated env m \<Longrightarrow> authenticated env m'"
  by (fastforce simp: authenticated_def)

lemma authenticated_noise:
  assumes "authenticated env m" and "\<And>b. shown_id env (m_noise m' b) = shown_id env (m_noise m b)"
    and "m_sessions m' = m_sessions m" and "m_next m' = m_next m"
  shows "authenticated env m'"
  using assms by (simp add: authenticated_def)

lemma authenticated_sent:
  assumes "static_kept (e_snow env)" and "authenticated env m"
  shows "authenticated env (snd (send_message env ps msg m))"
proof (rule authenticated_noise [OF assms(2)])
  show "shown_id env (m_noise (snd (send_message env ps msg m)) b) = shown_id env (m_noise m b)" for b
    by (cases "ps_outbound ps")
      (auto simp: send_message_def encrypt_with_def Let_def case_prod_beta shown_id_kept(1) [OF assms(1)]
        split: sum.split)
qed (use send_message_frame [of m env ps msg] in \<open>simp_all add: send_frame_def\<close>)

lemma authenticated_written:
  assumes "static_kept (e_snow env)" and "authenticated env m"
  shows "authenticated env (run_stream_writer env can_write a c tid m)"
proof (rule authenticated_noise [OF assms(2)])
  have keep: "shown_id env s' = shown_id env s"
    if "stream_writer env can_write s msgs = (ws, alive, s')" for s msgs ws alive s'
    using that stream_writer_shown_id [OF assms(1), of can_write s msgs] by simp
  show "shown_id env (m_noise (run_stream_writer env can_write a c tid m) b) = shown_id env (m_noise m b)" for b
    using keep by (auto simp: run_stream_writer_def Let_def split: option.split prod.split)
qed (simp_all add: run_stream_writer_def Let_def split: option.split prod.split)

lemma relay_forwarder_shown_id:
  assumes "static_kept (e_snow env)"
  shows "shown_id env (fst (snd (relay_forwarder env sid s cl msgs))) = shown_id env s"
proof (induction msgs arbitrary: s cl)
  case (Cons msg msgs)
  then show ?case
    by (auto simp: Let_def case_prod_beta shown_id_kept(1) [OF assms] split: sum.split)
qed simp

lemma authenticated_forwarded:
  assumes "static_kept (e_snow env)" and "authenticated env m"
  shows "authenticated env (run_relay_forwarder env ps n tid m)"
proof (rule authenticated_noise [OF assms(2)])
  have keep: "shown_id env s' = shown_id env s"
    if "relay_forwarder env sid s cl msgs = (alive, s', cl')" for sid s cl msgs alive s' cl'
    using that relay_forwarder_shown_id [OF assms(1), of sid s cl msgs] by simp
  show "shown_id env (m_noise (run_relay_forwarder env ps n tid m) b) = shown_id env (m_noise m b)" for b
    using keep by (auto simp: run_relay_forwarder_def Let_def split: option.split outbound_path.split prod.split)
qed (auto simp: run_relay_forwarder_def Let_def split: option.split outbound_path.split prod.split)

lemma authenticated_new_session:
  assumes "static_kept (e_snow env)" and "authenticated env m"
    and "shown_key env what s = Inr key" and "into_transport_mode (e_snow env) s = Inr s'"
    and "did = device_id_from_public_key (e_crypto env) key"
    and "m_noise m' = (m_noise m)(m_next m := s')" and "m_next m' = Suc (m_next m)"
    and "m_sessions m' = (m_sessions m)(did \<mapsto> ps)" and "ps_noise ps = m_next m"
  shows "authenticated env m'"
proof -
  have "shown_id env s' = Some did"
    using assms(1,3-5)
    by (cases s) (auto simp: shown_key_def ok_or_def static_kept_def andThen_Inr_iff map_err_def split: option.splits sum.splits)
  moreover have "ps_noise q < m_next m" if "m_sessions m d = Some q" for d q
    using that assms(2) by (auto simp: authenticated_def)
  ultimately show ?thesis using assms(2,6-9) by (auto simp: authenticated_def less_Suc_eq split: if_splits) (metis less_irrefl_nat)
qed

section \<open>Authentication is kept\<close>

lemma authenticated_decrypted:
  assumes "static_kept (e_snow env)" and "authenticated env m"
  shows "authenticated env (m\<lparr>m_noise := (m_noise m)(a := snd (decrypt (e_snow env) (m_noise m a) ct))\<rparr>)"
  by (rule authenticated_noise [OF assms(2)]) (simp_all add: shown_id_kept(2) [OF assms(1)])

lemma authenticated_session_gone:
  "authenticated env m \<Longrightarrow> authenticated env (m\<lparr>m_sessions := (m_sessions m)(did := None)\<rparr>)"
  by (simp add: authenticated_def)

text \<open>Operations that touch neither sessions nor their states.\<close>

lemma untouched [simp]:
  "m_noise (answer_file b tid m) = m_noise m" "m_sessions (answer_file b tid m) = m_sessions m"
  "m_next (answer_file b tid m) = m_next m"
  "m_noise (answer_folder b batch m) = m_noise m" "m_sessions (answer_folder b batch m) = m_sessions m"
  "m_next (answer_folder b batch m) = m_next m"
  "m_noise (remove_outgoing tid m) = m_noise m" "m_sessions (remove_outgoing tid m) = m_sessions m"
  "m_next (remove_outgoing tid m) = m_next m"
  "m_noise (remove_folder_offer batch m) = m_noise m" "m_sessions (remove_folder_offer batch m) = m_sessions m"
  "m_next (remove_folder_offer batch m) = m_next m"
  by (simp_all add: answer_file_def answer_folder_def remove_outgoing_def remove_folder_offer_def answer_with_def
      drop_sender_def split: option.split)

lemma authenticated_register:
  assumes "static_kept (e_snow env)" and "authenticated env m"
    and "shown_key env what s = Inr key" and "into_transport_mode (e_snow env) s = Inr s'"
    and "did = device_id_from_public_key (e_crypto env) key"
  shows "authenticated env (register_session env now did key conn s' m)"
    and "authenticated env (relay_session_up env now a sid did key s' m)"
  using assms by (auto intro!: authenticated_new_session [OF assms] simp: register_session_def relay_session_up_def emit_def Let_def)

lemma authenticated_elsewhere:
  assumes "authenticated env m"
  shows "authenticated env (m\<lparr>m_streams := st\<rparr>)" "authenticated env (m\<lparr>m_handles := hs\<rparr>)"
    "authenticated env (m\<lparr>m_fs := fs\<rparr>)" "authenticated env (emit ev m)"
    "authenticated env (m\<lparr>m_storage := db\<rparr>)" "authenticated env (m\<lparr>m_incoming := inc\<rparr>)"
    "authenticated env (m\<lparr>m_clients := cls\<rparr>)" "authenticated env (m\<lparr>m_tracker := tr\<rparr>)"
    "authenticated env (m\<lparr>m_relay_waiters := w\<rparr>)" "authenticated env (m\<lparr>m_signaling := sg\<rparr>)"
    "authenticated env (answer_file b tid m)" "authenticated env (answer_folder b batch m)"
    "authenticated env (remove_outgoing tid m)" "authenticated env (remove_folder_offer batch m)"
    "authenticated env (m\<lparr>m_next := Suc (m_next m)\<rparr>)" "authenticated env (add_incoming tid dest m)"
    "authenticated env (add_offer tid src m)" "authenticated env (add_resumed tid src m)"
    "authenticated env (add_folder_offer batch m)"
  by (rule authenticated_same [OF _ _ _ assms];
      simp add: add_incoming_def add_offer_def add_resumed_def add_folder_offer_def emit_def)+

lemma authenticated_start: "manager_start m \<Longrightarrow> authenticated env m"
  by (auto simp: manager_start_def manager_new_def authenticated_def)

interpretation auth: node_keeps "\<lambda>m. static_kept (e_snow env) \<longrightarrow> authenticated env m" env manager_start for env
  by unfold_locales
    (auto simp: authenticated_elsewhere authenticated_start authenticated_session_gone
      intro: authenticated_sent authenticated_decrypted authenticated_written authenticated_forwarded
      authenticated_register)

text \<open>C3: whatever a node does and whatever it is sent, a session in its table stands under the id computed from the
  static key its Noise session was set up with, and that session is in transport mode.\<close>

theorem sessions_authenticated:
  assumes "static_kept (e_snow env)" and "manager_start m0" and "(node_step env)\<^sup>*\<^sup>* m0 m"
    and "m_sessions m did = Some ps"
  shows "\<exists>ts key. m_noise m (ps_noise ps) = Transport ts \<and> ts_remote_static (e_snow env) ts = Some key \<and>
    did = device_id_from_public_key (e_crypto env) key \<and> ps_device_id ps = did"
proof -
  have "authenticated env m" using auth.reachable_inv [OF assms(2,3)] assms(1) by blast
  then have "shown_id env (m_noise m (ps_noise ps)) = Some did"
    using assms(4) by (auto simp: authenticated_def)
  moreover have "ps_device_id ps = did"
    using node.reachable_inv [OF assms(2,3)] assms(4) by (auto simp: manager_ok_def)
  ultimately show ?thesis by (cases "m_noise m (ps_noise ps)") auto
qed

section \<open>Two honest nodes\<close>

text \<open>What the Noise specification promises of an XX handshake whose messages arrive as they were sent, \<open>pub\<close> being
  the public half of a static key: it ends, each side sees the other's static key, and the transport states
  are in step in both directions.\<close>

definition xx_law :: "('h, 't) snow \<Rightarrow> ('t \<Rightarrow> noise_view) \<Rightarrow> (bytes \<Rightarrow> bytes) \<Rightarrow> bool" where
  "xx_law sn view pub \<longleftrightarrow> parse_params sn NOISE_PARAMS = Inr () \<and>
     (\<forall>a b. \<exists>i0 i1 i2 i3 r0 r1 r2 r3 m1 m2 m3 p1 p2 p3 ti tr.
        build_initiator sn a = Inr i0 \<and> build_responder sn b = Inr r0 \<and>
        hs_write sn i0 [] 4096 = (Inr m1, i1) \<and> hs_read sn r0 m1 4096 = (Inr p1, r1) \<and>
        hs_write sn r1 [] 4096 = (Inr m2, r2) \<and> hs_read sn i1 m2 4096 = (Inr p2, i2) \<and>
        hs_write sn i2 [] 4096 = (Inr m3, i3) \<and> hs_read sn r2 m3 4096 = (Inr p3, r3) \<and>
        hs_remote_static sn i3 = Some (pub b) \<and> hs_remote_static sn r3 = Some (pub a) \<and>
        hs_into_transport sn i3 = Inr ti \<and> hs_into_transport sn r3 = Inr tr \<and>
        in_step view ti tr \<and> in_step view tr ti)"

text \<open>The three messages as each side computes them from what it received.\<close>

definition first_message :: "('h, 't) env \<Rightarrow> device_identity \<Rightarrow> bytes res" where
  "first_message env identity =
     andThen (noise_new (e_snow env) identity Initiator) (\<lambda>s. andThen (handshake_write env s) (\<lambda>(msg, _). Inr msg))"

definition second_message :: "('h, 't) env \<Rightarrow> device_identity \<Rightarrow> bytes \<Rightarrow> bytes res" where
  "second_message env identity msg1 =
     andThen (noise_new (e_snow env) identity Responder) (\<lambda>s.
     andThen (handshake_read env msg1 s) (\<lambda>s1. andThen (handshake_write env s1) (\<lambda>(msg, _). Inr msg)))"

definition third_message :: "('h, 't) env \<Rightarrow> device_identity \<Rightarrow> bytes \<Rightarrow> bytes res" where
  "third_message env identity msg2 =
     andThen (noise_new (e_snow env) identity Initiator) (\<lambda>s.
     andThen (handshake_write env s) (\<lambda>(_, s1).
     andThen (handshake_read env msg2 s1) (\<lambda>s2. andThen (handshake_write env s2) (\<lambda>(msg, _). Inr msg))))"

text \<open>A stream to a peer that computes its answers with \<open>answer\<close>.\<close>

definition honest_stream :: "(bytes \<Rightarrow> bytes res) \<Rightarrow> peer_stream" where
  "honest_stream answer = \<lparr>ps_write = (\<lambda>_. Inr ()), ps_reply = answer\<rparr>"

lemma honest_stream_simps [simp]:
  "ps_write (honest_stream answer) b = Inr ()" "ps_reply (honest_stream answer) = answer"
  by (simp_all add: honest_stream_def)

text \<open>The run of an honest handshake: the states of the two sides and the messages between them.\<close>

lemma xx_messages:
  assumes "xx_law (e_snow env) view pub"
  shows "\<exists>s0 s1 s2 s3 t0 t1 t2 t3 m1 m2 m3 ti tr.
    noise_new (e_snow env) alice Initiator = Inr s0 \<and> noise_new (e_snow env) bob Responder = Inr t0 \<and>
    handshake_write env s0 = Inr (m1, s1) \<and> handshake_read env m1 t0 = Inr t1 \<and>
    handshake_write env t1 = Inr (m2, t2) \<and> handshake_read env m2 s1 = Inr s2 \<and>
    handshake_write env s2 = Inr (m3, s3) \<and> handshake_read env m3 t2 = Inr t3 \<and>
    peer_static_key (e_snow env) s3 = Some (pub (di_noise_static bob)) \<and>
    peer_static_key (e_snow env) t3 = Some (pub (di_noise_static alice)) \<and>
    into_transport_mode (e_snow env) s3 = Inr (Transport ti) \<and> into_transport_mode (e_snow env) t3 = Inr (Transport tr) \<and>
    in_step view ti tr \<and> in_step view tr ti"
proof -
  let ?sn = "e_snow env"
  obtain i0 i1 i2 i3 r0 r1 r2 r3 m1 m2 m3 p1 p2 p3 ti tr where
    b: "build_initiator ?sn (di_noise_static alice) = Inr i0" "build_responder ?sn (di_noise_static bob) = Inr r0"
    and h: "hs_write ?sn i0 [] 4096 = (Inr m1, i1)" "hs_read ?sn r0 m1 4096 = (Inr p1, r1)"
      "hs_write ?sn r1 [] 4096 = (Inr m2, r2)" "hs_read ?sn i1 m2 4096 = (Inr p2, i2)"
      "hs_write ?sn i2 [] 4096 = (Inr m3, i3)" "hs_read ?sn r2 m3 4096 = (Inr p3, r3)"
    and e: "hs_remote_static ?sn i3 = Some (pub (di_noise_static bob))"
      "hs_remote_static ?sn r3 = Some (pub (di_noise_static alice))"
      "hs_into_transport ?sn i3 = Inr ti" "hs_into_transport ?sn r3 = Inr tr" "in_step view ti tr" "in_step view tr ti"
    and p: "parse_params ?sn NOISE_PARAMS = Inr ()"
    using assms unfolding xx_law_def by meson
  show ?thesis
    by (rule exI [of _ "Handshaking i0"], rule exI [of _ "Handshaking i1"], rule exI [of _ "Handshaking i2"],
        rule exI [of _ "Handshaking i3"], rule exI [of _ "Handshaking r0"], rule exI [of _ "Handshaking r1"],
        rule exI [of _ "Handshaking r2"], rule exI [of _ "Handshaking r3"], rule exI [of _ m1], rule exI [of _ m2], rule exI [of _ m3], rule exI [of _ ti], rule exI [of _ tr],
      simp add: noise_new_def handshake_write_def handshake_read_def b h e p)
qed

lemma honest_handshake:
  assumes "xx_law (e_snow env) view pub"
  shows "\<exists>si sr ti tr.
    initiator_handshake env alice (honest_stream (second_message env bob)) = Inr si \<and>
    responder_handshake env bob (first_message env alice) (honest_stream (third_message env alice)) = Inr sr \<and>
    peer_static_key (e_snow env) si = Some (pub (di_noise_static bob)) \<and>
    peer_static_key (e_snow env) sr = Some (pub (di_noise_static alice)) \<and>
    into_transport_mode (e_snow env) si = Inr (Transport ti) \<and> into_transport_mode (e_snow env) sr = Inr (Transport tr) \<and>
    in_step view ti tr \<and> in_step view tr ti"
proof -
  obtain s0 s1 s2 s3 t0 t1 t2 t3 m1 m2 m3 ti tr where x:
    "noise_new (e_snow env) alice Initiator = Inr s0" "noise_new (e_snow env) bob Responder = Inr t0"
    "handshake_write env s0 = Inr (m1, s1)" "handshake_read env m1 t0 = Inr t1"
    "handshake_write env t1 = Inr (m2, t2)" "handshake_read env m2 s1 = Inr s2"
    "handshake_write env s2 = Inr (m3, s3)" "handshake_read env m3 t2 = Inr t3"
    "peer_static_key (e_snow env) s3 = Some (pub (di_noise_static bob))"
    "peer_static_key (e_snow env) t3 = Some (pub (di_noise_static alice))"
    "into_transport_mode (e_snow env) s3 = Inr (Transport ti)" "into_transport_mode (e_snow env) t3 = Inr (Transport tr)"
    "in_step view ti tr" "in_step view tr ti"
    using xx_messages [OF assms, of alice bob] by (elim exE conjE) (rule that; assumption)
  show ?thesis
    by (rule exI [of _ s3], rule exI [of _ t3], rule exI [of _ ti], rule exI [of _ tr],
      simp add: first_message_def second_message_def third_message_def initiator_handshake_def
        responder_handshake_def x)
qed

lemma honest_dial:
  assumes "xx_law (e_snow env) view (x_public (e_crypto env))" and "m_sessions ma expected = None"
    and "ida = device_id_from_public_key (e_crypto env) (noise_public (e_crypto env) (m_identity ma))"
    and "idb = device_id_from_public_key (e_crypto env) (noise_public (e_crypto env) (m_identity mb))"
  shows "\<exists>ti tr. in_step view ti tr \<and> in_step view tr ti \<and>
    connect_to_peer env now (Inr (c, honest_stream (second_message env (m_identity mb)))) expected ma =
      (if idb \<noteq> expected
       then (Inl (InvalidState (''peer identity mismatch: expected '' @ expected @ '', got '' @ idb)), ma)
       else (Inr (), register_session env now expected (noise_public (e_crypto env) (m_identity mb)) c (Transport ti) ma)) \<and>
    handle_inbound_connection env now d (first_message env (m_identity ma))
        (honest_stream (third_message env (m_identity ma))) mb =
      (Inr (), register_session env now ida (noise_public (e_crypto env) (m_identity ma)) d (Transport tr) mb)"
proof -
  let ?a = "m_identity ma" and ?b = "m_identity mb"
  obtain si sr ti tr where
    h: "initiator_handshake env ?a (honest_stream (second_message env ?b)) = Inr si"
      "responder_handshake env ?b (first_message env ?a) (honest_stream (third_message env ?a)) = Inr sr"
      "peer_static_key (e_snow env) si = Some (x_public (e_crypto env) (di_noise_static ?b))"
      "peer_static_key (e_snow env) sr = Some (x_public (e_crypto env) (di_noise_static ?a))"
      "into_transport_mode (e_snow env) si = Inr (Transport ti)" "into_transport_mode (e_snow env) sr = Inr (Transport tr)"
      "in_step view ti tr" "in_step view tr ti"
    using honest_handshake [OF assms(1), of ?a ?b] by blast
  have "handle_inbound_connection env now d (first_message env ?a) (honest_stream (third_message env ?a)) mb =
      (Inr (), register_session env now ida (noise_public (e_crypto env) ?a) d (Transport tr) mb)"
    by (simp add: handle_inbound_connection_def h shown_key_def assms(3) noise_public_def)
  moreover have "connect_to_peer env now (Inr (c, honest_stream (second_message env ?b))) expected ma = (if idb \<noteq> expected
      then (Inl (InvalidState (''peer identity mismatch: expected '' @ expected @ '', got '' @ idb)), ma)
      else (Inr (), register_session env now expected (noise_public (e_crypto env) ?b) c (Transport ti) ma))"
    using assms(2)
    by (cases "idb = expected") (simp_all add: connect_to_peer_def h shown_key_def assms(4) noise_public_def Let_def)
  ultimately show ?thesis using h(7,8) by blast
qed

lemma registered:
  "is_connected i (register_session env now i k n s m)"
  "m_noise (register_session env now i k n s m) (ps_noise (the (m_sessions (register_session env now i k n s m) i))) = s"
  by (simp_all add: register_session_def emit_def is_connected_def Let_def)

text \<open>C4: an honest node dials an honest node.  The accepting side always ends with a session under the id of the
  dialling side's static key.  The dialling side ends with a session exactly if it asked for the id of the
  accepting side's static key, and the two sessions are then in step in both directions; otherwise it
  refuses with the mismatch and nothing changes on its side.\<close>

theorem dial_meets_accept:
  assumes "xx_law (e_snow env) view (x_public (e_crypto env))"
    and "m_sessions ma expected = None"
    and "connect_to_peer env now (Inr (c, honest_stream (second_message env (m_identity mb)))) expected ma = (ra, ma')"
    and "handle_inbound_connection env now d (first_message env (m_identity ma))
      (honest_stream (third_message env (m_identity ma))) mb = (rb, mb')"
    and "ida = device_id_from_public_key (e_crypto env) (noise_public (e_crypto env) (m_identity ma))"
    and "idb = device_id_from_public_key (e_crypto env) (noise_public (e_crypto env) (m_identity mb))"
  shows "rb = Inr () \<and> is_connected ida mb' \<and>
    (if expected = idb
     then \<exists>ti tr. ra = Inr () \<and> is_connected expected ma' \<and>
       m_noise ma' (ps_noise (the (m_sessions ma' expected))) = Transport ti \<and>
       m_noise mb' (ps_noise (the (m_sessions mb' ida))) = Transport tr \<and>
       in_step view ti tr \<and> in_step view tr ti
     else ra = Inl (InvalidState (''peer identity mismatch: expected '' @ expected @ '', got '' @ idb)) \<and> ma' = ma)"
proof -
  obtain ti tr where o: "in_step view ti tr" "in_step view tr ti"
    "(ra, ma') = (if idb \<noteq> expected
      then (Inl (InvalidState (''peer identity mismatch: expected '' @ expected @ '', got '' @ idb)), ma)
      else (Inr (), register_session env now expected (noise_public (e_crypto env) (m_identity mb)) c (Transport ti) ma))"
    "(rb, mb') = (Inr (), register_session env now ida (noise_public (e_crypto env) (m_identity ma)) d (Transport tr) mb)"
    using honest_dial [OF assms(1,2,5,6), of now c d] unfolding assms(3,4) by blast
  then show ?thesis by (cases "expected = idb") (simp_all add: registered)
qed


section \<open>An instance\<close>

text \<open>Handshakes in which each side sends its public key; the key of a direction is the sender's public key.\<close>

definition toy_xx :: "(bytes \<times> bytes option, noise_view) snow" where
  "toy_xx =
     \<lparr>parse_params = (\<lambda>_. Inr ()), build_initiator = (\<lambda>s. Inr (x_public toy_crypto s, None)),
      build_responder = (\<lambda>s. Inr (x_public toy_crypto s, None)),
      hs_write = (\<lambda>h p _. (Inr (fst h), h)), hs_read = (\<lambda>h m _. (Inr [], (fst h, Some m))),
      hs_finished = (\<lambda>h. snd h \<noteq> None), hs_remote_static = snd,
      hs_into_transport = (\<lambda>h. case snd h of None \<Rightarrow> Inl ''handshake not finished''
        | Some r \<Rightarrow> Inr \<lparr>key_out = fst h, key_in = r, n_out = 0, n_in = 0\<rparr>),
      ts_write = ts_write toy_snow, ts_read = ts_read toy_snow, ts_remote_static = (\<lambda>t. Some (key_in t))\<rparr>"

definition xx_env :: "(bytes \<times> bytes option, noise_view) env" where
  "xx_env = \<lparr>e_wire = presence_wire, e_snow = toy_xx, e_crypto = toy_crypto, e_sig = toy_sig,
     e_wall = (\<lambda>now. int (now div 10 ^ 9))\<rparr>"

definition xx_node :: "u8 \<Rightarrow> (bytes \<times> bytes option, noise_view) manager" where
  "xx_node k = manager_new (generate toy_crypto [k]) ''/d'' empty_storage
     \<lparr>files = Map.empty, creatable = (\<lambda>_. True)\<rparr> (Transport toy_view)"

lemma toy_xx_law [simp]: "xx_law (e_snow xx_env) (\<lambda>t. t) (x_public (e_crypto xx_env))"
  by (simp add: xx_law_def xx_env_def toy_xx_def in_step_def)

lemma toy_xx_static [simp]: "static_kept (e_snow xx_env)"
  by (auto simp: static_kept_def xx_env_def toy_xx_def toy_snow_def Let_def split: option.splits)

lemma xx_node_fields [simp]:
  "m_identity (xx_node k) = generate toy_crypto [k]" "m_sessions (xx_node k) = Map.empty"
  by (simp_all add: xx_node_def manager_new_def)

lemma xx_node_start: "manager_start (xx_node k)"
  unfolding manager_start_def xx_node_def by (intro exI conjI) (rule empty_storage_wf, rule refl)

definition xx_id :: "u8 \<Rightarrow> string" where
  "xx_id k = device_id_from_public_key toy_crypto (noise_public toy_crypto (generate toy_crypto [k]))"

theorem dial_meets_accept_witness:
  "let (ra, ma) = connect_to_peer xx_env 1 (Inr (0, honest_stream (second_message xx_env (generate toy_crypto [6]))))
         (xx_id 6) (xx_node 5);
       (rb, mb) = handle_inbound_connection xx_env 1 0 (first_message xx_env (generate toy_crypto [5]))
         (honest_stream (third_message xx_env (generate toy_crypto [5]))) (xx_node 6)
   in ra = Inr () \<and> rb = Inr () \<and> is_connected (xx_id 6) ma \<and> is_connected (xx_id 5) mb"
proof -
  obtain ra ma where a: "connect_to_peer xx_env 1 (Inr (0, honest_stream (second_message xx_env (m_identity (xx_node 6)))))
      (xx_id 6) (xx_node 5) = (ra, ma)" by (rule prod.exhaust)
  obtain rb mb where b: "handle_inbound_connection xx_env 1 0 (first_message xx_env (m_identity (xx_node 5)))
      (honest_stream (third_message xx_env (m_identity (xx_node 5)))) (xx_node 6) = (rb, mb)" by (rule prod.exhaust)
  have i: "xx_id k = device_id_from_public_key (e_crypto xx_env) (noise_public (e_crypto xx_env) (m_identity (xx_node k)))"
    for k by (simp add: xx_id_def xx_env_def)
  show ?thesis
    using dial_meets_accept [OF toy_xx_law _ a b i i] a b by auto
qed


theorem sessions_authenticated_witness:
  "\<exists>ts key. m_noise (snd (handle_inbound_connection xx_env 1 0 (first_message xx_env (generate toy_crypto [5]))
        (honest_stream (third_message xx_env (generate toy_crypto [5]))) (xx_node 6))) 0 = Transport ts \<and>
    ts_remote_static toy_xx ts = Some key \<and> xx_id 5 = device_id_from_public_key toy_crypto key"
proof -
  let ?m = "snd (handle_inbound_connection xx_env 1 0 (first_message xx_env (m_identity (xx_node 5)))
      (honest_stream (third_message xx_env (m_identity (xx_node 5)))) (xx_node 6))"
  have run: "(node_step xx_env)\<^sup>*\<^sup>* (xx_node 6) ?m" by (intro r_into_rtranclp accepting)
  have i: "xx_id 5 = device_id_from_public_key (e_crypto xx_env) (noise_public (e_crypto xx_env) (m_identity (xx_node 5)))"
    by (simp add: xx_id_def xx_env_def)
  obtain tr where h: "handle_inbound_connection xx_env 1 0 (first_message xx_env (m_identity (xx_node 5)))
      (honest_stream (third_message xx_env (m_identity (xx_node 5)))) (xx_node 6) =
      (Inr (), register_session xx_env 1 (xx_id 5) (noise_public (e_crypto xx_env) (m_identity (xx_node 5))) 0
        (Transport tr) (xx_node 6))"
    using honest_dial [OF toy_xx_law _ i refl, where expected = "''nobody''" and now = 1 and c = 0 and
        mb = "xx_node 6" and d = 0] by auto
  have s: "m_sessions ?m (xx_id 5) = Some \<lparr>ps_device_id = xx_id 5, ps_noise = 0, ps_outbound = Quic 0\<rparr>"
    unfolding h by (simp add: register_session_def emit_def Let_def xx_node_def manager_new_def)
  show ?thesis using sessions_authenticated [OF toy_xx_static xx_node_start run s] by (simp add: xx_env_def)
qed

end
