(* ===== verification/Relay.thy ===== *)
theory Relay
  imports Authentication
begin

text \<open>
  Meeting through the signaling server: the answer to an offer of candidates, who leads the handshake over the
  relay, the run of that handshake between two honest nodes with the server forwarding their messages, and
  what happens to a message that arrives before the handshake has begun.
\<close>

section \<open>Who leads\<close>

lemma string_less_irrefl [simp]: "\<not> string_less s s"
  by (induction s) auto

lemma string_less_total: "s \<noteq> t \<Longrightarrow> string_less s t \<longleftrightarrow> \<not> string_less t s"
proof (induction s t rule: string_less.induct)
  case (1 s)
  then show ?case by (cases s) auto
next
  case (3 c cs d ds)
  show ?case
  proof (cases "c = d")
    case True
    then show ?thesis using 3 by simp
  next
    case False
    then have "(of_char c :: nat) \<noteq> of_char d" by (simp add: of_char_eq_iff)
    then show ?thesis using False by auto
  qed
qed simp

text \<open>Two devices that track each other under one relay session and have no session yet both start a
  handshake with the other, and exactly one of them leads.\<close>

lemma relay_roles:
  assumes "m_tracker ma sid = Some (di_device_id (m_identity mb))"
    and "m_tracker mb sid = Some (di_device_id (m_identity ma))"
    and "\<not> is_connected (di_device_id (m_identity mb)) ma" and "\<not> is_connected (di_device_id (m_identity ma)) mb"
    and "di_device_id (m_identity ma) \<noteq> di_device_id (m_identity mb)"
  shows "\<exists>leads. activate_relay_session sid ma = Some (di_device_id (m_identity mb), leads) \<and>
    activate_relay_session sid mb = Some (di_device_id (m_identity ma), \<not> leads)"
  using assms string_less_total [OF assms(5)]
  by (simp add: activate_relay_session_def peer_for_session_def is_connected_def)

section \<open>An offer of candidates\<close>

lemma connect_to_peer_clients:
  "m_clients (snd (connect_to_peer env now dial expected m)) = m_clients m \<and>
    (is_ok (fst (connect_to_peer env now dial expected m)) \<longrightarrow>
      is_connected expected (snd (connect_to_peer env now dial expected m))) \<and>
    (\<not> is_ok (fst (connect_to_peer env now dial expected m)) \<longrightarrow> snd (connect_to_peer env now dial expected m) = m)"
  by (auto simp: connect_to_peer_def register_session_def is_connected_def emit_def Let_def split: sum.split prod.split)

lemma try_candidates_clients:
  "try_candidates env now parse dial peer cs m = (r, m') \<Longrightarrow>
    m_clients m' = m_clients m \<and> (if is_ok r then is_connected peer m' else m' = m)"
proof (induction cs)
  case (Cons c cs)
  show ?case
  proof (cases "parse c")
    case (Some addr)
    obtain r1 m1 where c: "connect_to_peer env now (dial addr) peer m = (r1, m1)" by (rule prod.exhaust)
    show ?thesis
      using Cons Some c connect_to_peer_clients [of env now "dial addr" peer m] by (cases r1) auto
  qed (use Cons in auto)
qed auto


section \<open>The handshake over the relay\<close>

text \<open>The server takes the last message the client at \<open>a\<close> queued and forwards it, if it is relay data, to the other
  side of the session.\<close>

definition relay_forward ::
    "('h, 't) env \<Rightarrow> nat \<Rightarrow> nat \<Rightarrow> ('h, 't) manager \<Rightarrow> ('h, 't) manager \<Rightarrow> ('h, 't) manager" where
  "relay_forward env now a src dst =
     (case from_json (e_sig env) (last (outbound (m_clients src a))) of
        Inr (RelayDataMsg sid d) \<Rightarrow> handle_relay_data env now sid d dst
      | _ \<Rightarrow> dst)"

text \<open>Both sides begin, then their three messages are forwarded one after the other and each side takes its
  turn when one has arrived.  The first node leads; \<open>pa\<close> and \<open>pb\<close> are whom each takes the other to be.\<close>

definition relay_meeting ::
    "('h, 't) env \<Rightarrow> nat \<Rightarrow> string \<Rightarrow> nat \<Rightarrow> nat \<Rightarrow> string \<Rightarrow> string \<Rightarrow> ('h, 't) manager \<Rightarrow> ('h, 't) manager \<Rightarrow>
      (('h, 't) relay_task \<times> ('h, 't) manager) \<times> (('h, 't) relay_task \<times> ('h, 't) manager)" where
  "relay_meeting env now sid a b pa pb ma mb =
     (let (ta0, ma0) = relay_begin env a sid True ma;
          (tb0, mb0) = relay_begin env b sid False mb;
          (tb1, mb1) = relay_turn env now b sid pb tb0 (relay_forward env now a ma0 mb0);
          (ta1, ma1) = relay_turn env now a sid pa ta0 (relay_forward env now b mb1 ma0);
          (tb2, mb2) = relay_turn env now b sid pb tb1 (relay_forward env now a ma1 mb1)
      in ((ta1, ma1), (tb2, mb2)))"

text \<open>A node in the middle of a relay handshake: what waits in its channel, what its client has queued, and the rest
  of its state.\<close>

definition mid ::
    "string \<Rightarrow> bytes list \<Rightarrow> nat \<Rightarrow> string list \<Rightarrow> ('h, 't) manager \<Rightarrow> ('h, 't) manager" where
  "mid sid q a js m =
     m\<lparr>m_relay_waiters := (m_relay_waiters m)(sid \<mapsto> q),
       m_clients := (m_clients m)(a := (m_clients m a)\<lparr>outbound := outbound (m_clients m a) @ js\<rparr>)\<rparr>"

lemma mid_simps [simp]:
  "m_relay_waiters (mid sid q a js m) sid = Some q"
  "(mid sid q a js m)\<lparr>m_relay_waiters := (m_relay_waiters (mid sid q a js m))(sid \<mapsto> q')\<rparr> = mid sid q' a js m"
  "m_identity (mid sid q a js m) = m_identity m"
  "js \<noteq> [] \<Longrightarrow> last (outbound (m_clients (mid sid q a js m) a)) = last js"
  by (simp_all add: mid_def)

lemma relay_write_mid:
  assumes "handshake_write env s = Inr (msg, s')" and "\<And>d. sig_roundtrips (e_sig env) (RelayDataMsg sid d)"
    and "outbound_open (m_clients m a)"
  shows "\<exists>j. relay_write env a sid s (mid sid q a js m) = (Inr s', mid sid q a (js @ [j]) m) \<and>
    from_json (e_sig env) j = Inr (RelayDataMsg sid msg)"
proof -
  obtain j where "sig_send (e_sig env) (m_clients (mid sid q a js m) a) (RelayDataMsg sid msg) =
      (Inr (), (m_clients (mid sid q a js m) a)\<lparr>outbound := outbound (m_clients (mid sid q a js m) a) @ [j]\<rparr>)"
      "from_json (e_sig env) j = Inr (RelayDataMsg sid msg)"
    using sig_send_open [OF assms(2), of "m_clients (mid sid q a js m) a"] assms(3) by (auto simp: mid_def)
  then show ?thesis
    using assms(1) by (intro exI [of _ j]) (simp add: relay_write_def with_client_def send_relay_data_def, simp add: mid_def)
qed

lemma relay_forward_mid:
  assumes "from_json (e_sig env) j = Inr (RelayDataMsg sid d)"
  shows "relay_forward env now a (mid sid q a (js @ [j]) m) (mid sid [] b js' m') = mid sid [d] b js' m'"
  using assms by (simp add: relay_forward_def handle_relay_data_def)

lemma relay_begin_mid:
  "noise_new (e_snow env) (m_identity m) Initiator = Inr s \<Longrightarrow>
    relay_begin env a sid True m = (case relay_write env a sid s (mid sid [] a [] m) of
      (Inl e, m2) \<Rightarrow> (RelayEnded (Inl e), m2) | (Inr s', m2) \<Rightarrow> (AwaitMsg2 s', m2))"
  "noise_new (e_snow env) (m_identity m) Responder = Inr s \<Longrightarrow>
    relay_begin env a sid False m = (AwaitMsg1 s, mid sid [] a [] m)"
  by (simp_all add: relay_begin_def mid_def)

lemma relay_finish_mid:
  assumes "peer_static_key (e_snow env) s = Some key" and "into_transport_mode (e_snow env) s = Inr s'"
    and "did = device_id_from_public_key (e_crypto env) key"
    and "relay_finish env now a sid peer s (mid sid q a js m) = (r, m')"
  shows "if peer = did
    then r = Inr () \<and> m_relay_waiters m' sid = None \<and>
      (\<exists>ps. m_sessions m' peer = Some ps \<and> ps_outbound ps = Relay a sid \<and> m_noise m' (ps_noise ps) = s')
    else r = Inl (InvalidState (''relay peer identity mismatch: expected '' @ peer @ '', got '' @ did)) \<and>
      m' = mid sid q a js m"
  using assms
  by (auto simp: relay_finish_def shown_key_def relay_session_up_def emit_def Let_def)

text \<open>C5: two honest nodes that meet at the relay both finish their handshake once their three messages have been
  forwarded.  A node gets a relayed session exactly if the device it tracks for the session is the id of the
  other's static key; if both do, the sessions are in step in both directions.  A node that refuses the other
  leaves its channel behind, so that later data of the session is swallowed.\<close>

theorem relay_handshake_finishes:
  assumes "xx_law (e_snow env) view (x_public (e_crypto env))"
    and "\<And>d. sig_roundtrips (e_sig env) (RelayDataMsg sid d)"
    and "outbound_open (m_clients ma a)" and "outbound_open (m_clients mb b)"
    and "ida = device_id_from_public_key (e_crypto env) (noise_public (e_crypto env) (m_identity ma))"
    and "idb = device_id_from_public_key (e_crypto env) (noise_public (e_crypto env) (m_identity mb))"
    and "relay_meeting env now sid a b pa pb ma mb = ((ta, ma'), (tb, mb'))"
  shows "\<exists>ra rb. ta = RelayEnded ra \<and> tb = RelayEnded rb \<and>
    (is_ok ra \<longleftrightarrow> pa = idb) \<and> (is_ok rb \<longleftrightarrow> pb = ida) \<and>
    m_relay_waiters ma' sid = (if is_ok ra then None else Some []) \<and>
    m_relay_waiters mb' sid = (if is_ok rb then None else Some []) \<and>
    (is_ok ra \<and> is_ok rb \<longrightarrow>
      (\<exists>psa psb ti tr. m_sessions ma' pa = Some psa \<and> m_sessions mb' pb = Some psb \<and>
        ps_outbound psa = Relay a sid \<and> ps_outbound psb = Relay b sid \<and>
        m_noise ma' (ps_noise psa) = Transport ti \<and> m_noise mb' (ps_noise psb) = Transport tr \<and>
        in_step view ti tr \<and> in_step view tr ti))"
proof -
  obtain s0 s1 s2 s3 t0 t1 t2 t3 m1 m2 m3 ti tr where x:
    "noise_new (e_snow env) (m_identity ma) Initiator = Inr s0" "noise_new (e_snow env) (m_identity mb) Responder = Inr t0"
    "handshake_write env s0 = Inr (m1, s1)" "handshake_read env m1 t0 = Inr t1"
    "handshake_write env t1 = Inr (m2, t2)" "handshake_read env m2 s1 = Inr s2"
    "handshake_write env s2 = Inr (m3, s3)" "handshake_read env m3 t2 = Inr t3"
    "peer_static_key (e_snow env) s3 = Some (x_public (e_crypto env) (di_noise_static (m_identity mb)))"
    "peer_static_key (e_snow env) t3 = Some (x_public (e_crypto env) (di_noise_static (m_identity ma)))"
    "into_transport_mode (e_snow env) s3 = Inr (Transport ti)" "into_transport_mode (e_snow env) t3 = Inr (Transport tr)"
    "in_step view ti tr" "in_step view tr ti"
    using xx_messages [OF assms(1), of "m_identity ma" "m_identity mb"] by (elim exE conjE) (rule that; assumption)
  obtain j1 where j1: "relay_write env a sid s0 (mid sid [] a [] ma) = (Inr s1, mid sid [] a ([] @ [j1]) ma)"
      "from_json (e_sig env) j1 = Inr (RelayDataMsg sid m1)"
    using relay_write_mid [OF x(3) assms(2,3)] by blast
  obtain j2 where j2: "relay_write env b sid t1 (mid sid [] b [] mb) = (Inr t2, mid sid [] b ([] @ [j2]) mb)"
      "from_json (e_sig env) j2 = Inr (RelayDataMsg sid m2)"
    using relay_write_mid [OF x(5) assms(2,4)] by blast
  obtain j3 where j3: "relay_write env a sid s2 (mid sid [] a [j1] ma) = (Inr s3, mid sid [] a ([j1] @ [j3]) ma)"
      "from_json (e_sig env) j3 = Inr (RelayDataMsg sid m3)"
    using relay_write_mid [OF x(7) assms(2,3)] by blast
  obtain ra ma1 where fa: "relay_finish env now a sid pa s3 (mid sid [] a [j1, j3] ma) = (ra, ma1)" by (rule prod.exhaust)
  note ga = relay_finish_mid [OF x(9,11) assms(6) [unfolded noise_public_def] fa]
  have keep: "m_clients ma1 a = m_clients (mid sid [] a [j1, j3] ma) a"
    using fa by (auto simp: relay_finish_def relay_session_up_def emit_def Let_def split: sum.splits if_splits)
  obtain rb mb1 where fb: "relay_finish env now b sid pb t3 (mid sid [] b [j2] mb) = (rb, mb1)" by (rule prod.exhaust)
  note gb = relay_finish_mid [OF x(10,12) assms(5) [unfolded noise_public_def] fb]
  have f3: "relay_forward env now a ma1 (mid sid [] b [j2] mb) = mid sid [m3] b [j2] mb"
    using j3(2) by (simp add: relay_forward_def keep handle_relay_data_def)
  have "relay_meeting env now sid a b pa pb ma mb = ((RelayEnded ra, ma1), (RelayEnded rb, mb1))"
    using relay_forward_mid [OF j1(2), where js = "[]"] relay_forward_mid [OF j2(2), where js = "[]"] j1(1) j2(1) j3(1) f3 fa fb
    by (simp add: relay_meeting_def relay_begin_mid(1) [OF x(1)] relay_begin_mid(2) [OF x(2)] relay_turn_def x Let_def)
  then have o: "ta = RelayEnded ra" "ma' = ma1" "tb = RelayEnded rb" "mb' = mb1" using assms(7) by simp_all
  show ?thesis
    using ga gb x(13,14) by (intro exI [of _ ra] exI [of _ rb]) (auto simp: o split: if_splits)
qed

text \<open>When the first message of the leading side reaches the other side before that has begun its handshake, it is
  dropped: nothing of it is kept, and the handshake that begins then waits for a message that was already sent.\<close>

lemma early_relay_data_lost:
  assumes "m_relay_waiters m sid = None" and "m_tracker m sid = Some peer" and "\<not> is_connected peer m"
    and "noise_new (e_snow env) (m_identity m) Responder = Inr s"
    and "relay_begin env a sid False (handle_relay_data env now sid msg1 m) = (task, m1)"
  shows "handle_relay_data env now sid msg1 m = m \<and> task = AwaitMsg1 s \<and>
    relay_turn env later a sid peer task m1 = (task, m1)"
proof -
  have "handle_relay_data env now sid msg1 m = m"
    using assms(1-3) by (simp add: handle_relay_data_def peer_for_session_def is_connected_def)
  then show ?thesis using assms(5) by (auto simp: relay_begin_mid(2) [OF assms(4)] relay_turn_def)
qed

section \<open>Witnesses\<close>

text \<open>A codec for the messages of one relay session, \<open>s\<close>.\<close>

definition relay_sig :: sig_codec where
  "relay_sig =
     \<lparr>sig_encode = (\<lambda>m. case m of
          RelayDataMsg sid d \<Rightarrow> Inr (CHR ''D'' # map (\<lambda>b. char_of (unat b)) d)
        | CandidateResultMsg sid ok \<Rightarrow> Inr [CHR ''C'', if ok then CHR ''t'' else CHR ''f'']
        | _ \<Rightarrow> Inl ''unsupported''),
      sig_decode = (\<lambda>s. case s of [] \<Rightarrow> Inl ''eof''
        | c # r \<Rightarrow> if c = CHR ''D'' then Inr (RelayDataMsg ''s'' (map (\<lambda>ch. of_nat (of_char ch)) r))
          else Inr (CandidateResultMsg ''s'' (r = ''t'')))\<rparr>"

lemma relay_sig_roundtrips: "sig_roundtrips relay_sig (RelayDataMsg ''s'' d)"
  "sig_roundtrips relay_sig (CandidateResultMsg ''s'' ok)"
proof -
  have "unat b mod 256 = unat b" for b :: u8
    using unat_less_2p [of b] by simp
  then show "sig_roundtrips relay_sig (RelayDataMsg ''s'' d)"
    by (simp add: sig_roundtrips_def relay_sig_def o_def)
qed (simp add: sig_roundtrips_def relay_sig_def)

definition relay_env :: "(bytes \<times> bytes option, noise_view) env" where
  "relay_env = xx_env\<lparr>e_sig := relay_sig\<rparr>"

definition relay_node :: "u8 \<Rightarrow> string \<Rightarrow> (bytes \<times> bytes option, noise_view) manager" where
  "relay_node k peer = (xx_node k)\<lparr>m_clients := (\<lambda>_. \<lparr>outbound = [], outbound_open = True\<rparr>), m_tracker := [''s'' \<mapsto> peer]\<rparr>"

lemma relay_env_simps [simp]:
  "e_sig relay_env = relay_sig" "e_crypto relay_env = toy_crypto" "e_snow relay_env = toy_xx"
  by (simp_all add: relay_env_def xx_env_def)

lemma relay_node_simps [simp]:
  "m_identity (relay_node k p) = generate toy_crypto [k]" "m_sessions (relay_node k p) = Map.empty"
  "outbound_open (m_clients (relay_node k p) a)" "m_tracker (relay_node k p) = [''s'' \<mapsto> p]"
  "m_relay_waiters (relay_node k p) = Map.empty"
  by (simp_all add: relay_node_def xx_node_def manager_new_def)

lemma toy_ids_differ: "di_device_id (generate toy_crypto [5]) \<noteq> di_device_id (generate toy_crypto [6])"
proof
  assume "di_device_id (generate toy_crypto [5]) = di_device_id (generate toy_crypto [6])"
  then have "ed_public toy_crypto [5] = ed_public toy_crypto [6]"
    using toy_no_collision [of "ed_public toy_crypto [5]" "ed_public toy_crypto [6]"]
    by (simp add: generate_def derive_device_id_def no_collision_def)
  then show False by (simp add: toy_ed_public)
qed

lemma is_ok_unit: "is_ok (r :: 'e + unit) \<longleftrightarrow> r = Inr ()"
  by (cases r) auto

theorem relay_roles_witness:
  "\<exists>leads. activate_relay_session ''s'' (relay_node 5 (di_device_id (generate toy_crypto [6]))) =
      Some (di_device_id (generate toy_crypto [6]), leads) \<and>
    activate_relay_session ''s'' (relay_node 6 (di_device_id (generate toy_crypto [5]))) =
      Some (di_device_id (generate toy_crypto [5]), \<not> leads)"
  using relay_roles [of "relay_node 5 (di_device_id (generate toy_crypto [6]))" "''s''"
      "relay_node 6 (di_device_id (generate toy_crypto [5]))"] toy_ids_differ
  by (simp add: is_connected_def)


theorem relay_handshake_finishes_witness:
  "\<exists>ma' mb'. relay_meeting relay_env 1 ''s'' 0 0 (xx_id 6) (xx_id 5) (relay_node 5 (xx_id 6)) (relay_node 6 (xx_id 5)) =
     ((RelayEnded (Inr ()), ma'), (RelayEnded (Inr ()), mb')) \<and> is_connected (xx_id 6) ma' \<and> is_connected (xx_id 5) mb'"
proof -
  obtain ta ma' tb mb' where r: "relay_meeting relay_env 1 ''s'' 0 0 (xx_id 6) (xx_id 5) (relay_node 5 (xx_id 6))
      (relay_node 6 (xx_id 5)) = ((ta, ma'), (tb, mb'))" by (metis prod.exhaust)
  have law: "xx_law (e_snow relay_env) (\<lambda>t. t) (x_public (e_crypto relay_env))"
    using toy_xx_law by (simp add: xx_env_def)
  have ids: "device_id_from_public_key (e_crypto relay_env) (noise_public (e_crypto relay_env) (m_identity (relay_node k p))) =
      xx_id k" for k p by (simp add: xx_id_def)
  have open0: "outbound_open (m_clients (relay_node k p) 0)" for k p by simp
  have codec: "sig_roundtrips (e_sig relay_env) (RelayDataMsg ''s'' d)" for d using relay_sig_roundtrips by simp
  obtain ra rb where o: "ta = RelayEnded ra" "tb = RelayEnded rb" "is_ok ra" "is_ok rb"
      "is_connected (xx_id 6) ma'" "is_connected (xx_id 5) mb'"
    using relay_handshake_finishes [OF law codec open0 open0 refl refl r] unfolding ids by (auto simp: is_connected_def)
  have "ra = Inr ()" "rb = Inr ()" using o(3,4) by (simp_all add: is_ok_unit)
  then show ?thesis using o r by auto
qed

theorem early_relay_data_lost_witness:
  "relay_turn relay_env 2 0 ''s'' ''bob'' (fst (relay_begin relay_env 0 ''s'' False (relay_node 5 ''bob'')))
      (snd (relay_begin relay_env 0 ''s'' False (relay_node 5 ''bob''))) =
    relay_begin relay_env 0 ''s'' False (handle_relay_data relay_env 1 ''s'' [7] (relay_node 5 ''bob''))"
proof -
  obtain task m1 where b: "relay_begin relay_env 0 ''s'' False (handle_relay_data relay_env 1 ''s'' [7] (relay_node 5 ''bob'')) =
      (task, m1)" by (rule prod.exhaust)
  have n: "noise_new (e_snow relay_env) (m_identity (relay_node 5 ''bob'')) Responder =
      Inr (Handshaking (x_public toy_crypto (di_noise_static (generate toy_crypto [5])), None))"
    by (simp add: noise_new_def toy_xx_def)
  have h: "handle_relay_data relay_env 1 ''s'' [7] (relay_node 5 ''bob'') = relay_node 5 ''bob'' \<and>
      task = AwaitMsg1 (Handshaking (x_public toy_crypto (di_noise_static (generate toy_crypto [5])), None)) \<and>
      relay_turn relay_env 2 0 ''s'' ''bob'' task m1 = (task, m1)"
    by (rule early_relay_data_lost [OF _ _ _ n b]) (simp_all add: is_connected_def)
  note h1 = h [THEN conjunct1] and h2 = h [THEN conjunct2, THEN conjunct2]
  show ?thesis using b unfolding h1 by (simp only: fst_conv snd_conv h2)
qed

end
