(* ===== verification/Discovery.thy ===== *)
theory Discovery
  imports Prelude
begin

text \<open>
  core/src/discovery.rs: the shared peer list with its three writers, the mDNS browse loop, the UDP
  broadcast listener and the pruning snapshot; what a device registers and announces when its discovery starts.
  The answers of the daemon and the sockets are arguments; each event carries the time of the clock it reads.
  \<open>parse\<close> and \<open>to_json\<close> stand for \<open>serde_json\<close> on an announcement.
\<close>

section \<open>Data\<close>

definition UDP_MAGIC :: bytes where
  "UDP_MAGIC = map (\<lambda>ch. of_nat (of_char ch)) ''ZAOP2P1''"

definition UDP_BUFFER :: nat where
  "UDP_BUFFER = 2048"

datatype discovery_method = Mdns | UdpBroadcast

record discovered_peer =
  dp_device_id :: string
  dp_display_name :: string
  dp_addr :: string
  dp_via :: discovery_method
  dp_last_seen :: u64

text \<open>\<open>HashMap<String, DiscoveredPeer>\<close>.\<close>

type_synonym peers = "string \<rightharpoonup> discovered_peer"

text \<open>An IP address and the text of a socket address.\<close>

datatype ip_addr = IpV4 u8 u8 u8 u8 | IpV6 string

fun show_ip :: "ip_addr \<Rightarrow> string" where
  "show_ip (IpV4 a b c d) =
     show_nat (unat a) @ ''.'' @ show_nat (unat b) @ ''.'' @ show_nat (unat c) @ ''.'' @ show_nat (unat d)"
| "show_ip (IpV6 t) = ''['' @ t @ '']''"

definition show_socket_addr :: "ip_addr \<Rightarrow> u16 \<Rightarrow> string" where
  "show_socket_addr ip port = show_ip ip @ '':'' @ show_nat (unat port)"

text \<open>What the mDNS daemon has resolved: the TXT properties, the addresses in the order the set is
  iterated, the port.\<close>

record service_info =
  si_property :: "string \<rightharpoonup> string"
  si_addresses :: "ip_addr list"
  si_port :: u16

record broadcast_announcement =
  ba_device_id :: string
  ba_display_name :: string
  ba_port :: u16

section \<open>Operations\<close>

definition peer_from_service_info :: "u64 \<Rightarrow> service_info \<Rightarrow> discovery_method \<Rightarrow> discovered_peer option" where
  "peer_from_service_info now info via =
     (case si_property info ''device_id'' of
        None \<Rightarrow> None
      | Some did \<Rightarrow>
          let name = (case si_property info ''display_name'' of Some n \<Rightarrow> n | None \<Rightarrow> ''Unknown Device'')
          in case si_addresses info of
               [] \<Rightarrow> None
             | ip # _ \<Rightarrow> Some \<lparr>dp_device_id = did, dp_display_name = name,
                 dp_addr = show_socket_addr ip (si_port info), dp_via = via, dp_last_seen = now\<rparr>)"

text \<open>The body of the mDNS browse loop for one resolved service.\<close>

definition on_service_resolved :: "string \<Rightarrow> u64 \<Rightarrow> service_info \<Rightarrow> peers \<Rightarrow> peers" where
  "on_service_resolved self_id now info ps =
     (case peer_from_service_info now info Mdns of
        None \<Rightarrow> ps
      | Some peer \<Rightarrow> if dp_device_id peer \<noteq> self_id then ps(dp_device_id peer \<mapsto> peer) else ps)"

text \<open>The packet the announcer thread sends every five seconds; \<open>json\<close> is the encoded announcement.\<close>

definition announcement_packet :: "bytes \<Rightarrow> bytes" where
  "announcement_packet json = UDP_MAGIC @ json"

text \<open>The announcer thread: the packet it sends every five seconds, if it has a socket and the announcement can be
  encoded.\<close>

definition announcer ::
    "bool \<Rightarrow> (broadcast_announcement \<Rightarrow> string + bytes) \<Rightarrow> string \<Rightarrow> string \<Rightarrow> u16 \<Rightarrow> bytes option" where
  "announcer bound to_json did name quic_port =
     (if \<not> bound then None
      else case to_json \<lparr>ba_device_id = did, ba_display_name = name, ba_port = quic_port\<rparr> of
             Inl _ \<Rightarrow> None
           | Inr payload \<Rightarrow> Some (announcement_packet payload))"

text \<open>What is registered with the mDNS daemon.\<close>

definition SERVICE_TYPE :: string where
  "SERVICE_TYPE = ''_zaop2p._tcp.local.''"

record mdns_service =
  md_type :: string
  md_instance :: string
  md_host :: string
  md_port :: u16
  md_properties :: "string \<rightharpoonup> string"

definition service_info_for :: "string \<Rightarrow> string \<Rightarrow> u16 \<Rightarrow> mdns_service" where
  "service_info_for did name quic_port =
     \<lparr>md_type = SERVICE_TYPE, md_instance = did, md_host = did @ ''.local.'', md_port = quic_port,
      md_properties = [''device_id'' \<mapsto> did, ''display_name'' \<mapsto> name]\<rparr>"

text \<open>The daemon's answers to starting, to the service description, to registering and to browsing.\<close>

record mdns_daemon =
  dm_start :: "string + unit"
  dm_info :: "mdns_service \<Rightarrow> string + unit"
  dm_register :: "mdns_service \<Rightarrow> string + unit"
  dm_browse :: "string \<Rightarrow> string + unit"
  dm_shutdown :: "string + unit"

text \<open>\<open>Discovery::start\<close>: the service that is registered and the peer list the threads share.\<close>

record discovery =
  dc_service :: mdns_service
  dc_peers :: peers
  dc_service_type :: string

definition discovery_start :: "mdns_daemon \<Rightarrow> string \<Rightarrow> string \<Rightarrow> u16 \<Rightarrow> discovery res" where
  "discovery_start d did name quic_port =
     (let info = service_info_for did name quic_port in
      andThen (map_err (\<lambda>e. InvalidState (''mdns daemon start failed: '' @ e)) (dm_start d)) (\<lambda>_.
      andThen (map_err (\<lambda>e. InvalidState (''mdns service info failed: '' @ e)) (dm_info d info)) (\<lambda>_.
      andThen (map_err (\<lambda>e. InvalidState (''mdns register failed: '' @ e)) (dm_register d info)) (\<lambda>_.
      andThen (map_err (\<lambda>e. InvalidState (''mdns browse failed: '' @ e)) (dm_browse d SERVICE_TYPE)) (\<lambda>_.
      Inr \<lparr>dc_service = info, dc_peers = Map.empty, dc_service_type = SERVICE_TYPE\<rparr>)))))"

definition discovery_stop :: "mdns_daemon \<Rightarrow> unit res" where
  "discovery_stop d = map_err (\<lambda>e. InvalidState (''mdns shutdown failed: '' @ e)) (dm_shutdown d)"

text \<open>The clock in seconds since 1970, from the wall clock; a clock before that reads as zero.\<close>

definition unix_now :: "int \<Rightarrow> u64" where
  "unix_now wall = (if wall < 0 then 0 else of_int wall)"

text \<open>The body of the listener's loop for one datagram; what does not fit the buffer is cut off.\<close>

definition on_datagram ::
    "(bytes \<Rightarrow> string + broadcast_announcement) \<Rightarrow> string \<Rightarrow> u64 \<Rightarrow> bytes \<Rightarrow> ip_addr \<Rightarrow> peers \<Rightarrow> peers" where
  "on_datagram parse self_id now datagram ip ps =
     (let buf = take UDP_BUFFER datagram in
      if length buf \<le> length UDP_MAGIC \<or> take (length UDP_MAGIC) buf \<noteq> UDP_MAGIC then ps
      else
        case parse (drop (length UDP_MAGIC) buf) of
          Inl _ \<Rightarrow> ps
        | Inr a \<Rightarrow>
            if ba_device_id a = self_id then ps
            else
              let peer = \<lparr>dp_device_id = ba_device_id a, dp_display_name = ba_display_name a,
                    dp_addr = show_socket_addr ip (ba_port a), dp_via = UdpBroadcast, dp_last_seen = now\<rparr>
              in case ps (ba_device_id a) of
                   None \<Rightarrow> ps(ba_device_id a \<mapsto> peer)
                 | Some existing \<Rightarrow>
                     if dp_via existing \<noteq> Mdns then ps(ba_device_id a \<mapsto> peer)
                     else ps(ba_device_id a \<mapsto> existing\<lparr>dp_last_seen := now\<rparr>))"

text \<open>\<open>known_peers\<close>: the stale entries go, the others are returned (in no particular order).\<close>

definition fresh :: "u64 \<Rightarrow> discovered_peer \<Rightarrow> bool" where
  "fresh now p \<longleftrightarrow> saturating_sub now (dp_last_seen p) < 30"

definition prune :: "u64 \<Rightarrow> peers \<Rightarrow> peers" where
  "prune now ps = (\<lambda>k. case ps k of Some p \<Rightarrow> if fresh now p then Some p else None | None \<Rightarrow> None)"

definition known_peers :: "u64 \<Rightarrow> peers \<Rightarrow> discovered_peer set \<times> peers" where
  "known_peers now ps = (ran (prune now ps), prune now ps)"

section \<open>The list over time\<close>

datatype discovery_event =
    ServiceResolved u64 service_info
  | PacketReceived u64 bytes ip_addr
  | Snapshot u64

fun event_time :: "discovery_event \<Rightarrow> u64" where
  "event_time (ServiceResolved now _) = now"
| "event_time (PacketReceived now _ _) = now"
| "event_time (Snapshot now) = now"

fun on_event :: "(bytes \<Rightarrow> string + broadcast_announcement) \<Rightarrow> string \<Rightarrow> discovery_event \<Rightarrow> peers \<Rightarrow> peers" where
  "on_event parse self_id (ServiceResolved now info) ps = on_service_resolved self_id now info ps"
| "on_event parse self_id (PacketReceived now d ip) ps = on_datagram parse self_id now d ip ps"
| "on_event parse self_id (Snapshot now) ps = snd (known_peers now ps)"

definition on_events ::
    "(bytes \<Rightarrow> string + broadcast_announcement) \<Rightarrow> string \<Rightarrow> discovery_event list \<Rightarrow> peers \<Rightarrow> peers" where
  "on_events parse self_id evs ps = fold (on_event parse self_id) evs ps"

text \<open>Entries stand under their own device id, and never under this device's.\<close>

definition peers_ok :: "string \<Rightarrow> peers \<Rightarrow> bool" where
  "peers_ok self_id ps \<longleftrightarrow> (\<forall>k p. ps k = Some p \<longrightarrow> dp_device_id p = k \<and> k \<noteq> self_id)"

lemma prune_Some: "prune now ps k = Some p \<longleftrightarrow> ps k = Some p \<and> fresh now p"
  by (auto simp: prune_def split: option.splits if_splits)

lemma peer_from_service_info_ids:
  "peer_from_service_info now info via = Some p \<Longrightarrow> dp_via p = via \<and> dp_last_seen p = now"
  by (auto simp: peer_from_service_info_def Let_def split: option.splits list.splits)

lemma on_event_ok: "peers_ok self_id ps \<Longrightarrow> peers_ok self_id (on_event parse self_id ev ps)"
  by (cases ev)
    (auto simp: peers_ok_def on_service_resolved_def on_datagram_def known_peers_def prune_Some Let_def
      split: option.splits sum.splits if_splits)

lemma peers_ok_empty: "peers_ok self_id Map.empty"
  by (simp add: peers_ok_def)

interpretation peer_list: machine "\<lambda>ps. ps = Map.empty"
    "\<lambda>ps ps'. \<exists>ev. ps' = on_event parse self_id ev ps" "peers_ok self_id"
  by unfold_locales (auto simp: peers_ok_empty on_event_ok)

lemma on_events_steps:
  "(\<lambda>ps ps'. \<exists>ev. ps' = on_event parse self_id ev ps)\<^sup>*\<^sup>* ps (on_events parse self_id evs ps)"
  unfolding on_events_def
  by (induction evs arbitrary: ps) (auto intro: converse_rtranclp_into_rtranclp)

subsection \<open>Announcements\<close>

lemma length_magic [simp]: "length UDP_MAGIC = 7"
  by (simp add: UDP_MAGIC_def)

lemma on_datagram_announcement:
  assumes "json \<noteq> []" and "length json + 7 \<le> UDP_BUFFER" and "parse json = Inr a" and "ba_device_id a \<noteq> self_id"
  shows "\<exists>p. on_datagram parse self_id now (announcement_packet json) ip ps (ba_device_id a) = Some p \<and>
    dp_last_seen p = now"
proof (cases "\<exists>e. ps (ba_device_id a) = Some e \<and> dp_via e = Mdns")
  case True
  with assms show ?thesis by (auto simp: on_datagram_def announcement_packet_def Let_def)
next
  case False
  with assms show ?thesis
    by (cases "ps (ba_device_id a)") (auto simp: on_datagram_def announcement_packet_def Let_def)
qed

text \<open>What the listing of one peer needs over time: the entry is there and was seen at or after \<open>t\<close>.\<close>

definition seen_since :: "u64 \<Rightarrow> string \<Rightarrow> peers \<Rightarrow> bool" where
  "seen_since t k ps \<longleftrightarrow> (\<exists>p. ps k = Some p \<and> t \<le> dp_last_seen p)"

lemma fresh_since:
  assumes "t \<le> dp_last_seen p" and "t \<le> now" and "unat now < unat t + 30"
  shows "fresh now p"
proof -
  have "unat t \<le> unat (dp_last_seen p)" using assms(1) by (simp add: word_le_nat_alt)
  then have "unat (saturating_sub now (dp_last_seen p)) < 30"
    using assms(3) by (simp add: unat_saturating_sub)
  then show ?thesis by (simp add: fresh_def word_less_nat_alt)
qed

lemma on_event_seen_since:
  assumes "seen_since t k ps" and "t \<le> event_time ev" and "unat (event_time ev) < unat t + 30"
  shows "seen_since t k (on_event parse self_id ev ps)"
proof (cases ev)
  case (Snapshot now)
  with assms fresh_since show ?thesis
    by (auto simp: seen_since_def known_peers_def prune_Some)
next
  case (ServiceResolved now info)
  with assms show ?thesis
    by (auto simp: seen_since_def on_service_resolved_def peer_from_service_info_ids split: option.splits)
next
  case (PacketReceived now d ip)
  with assms show ?thesis
    by (auto simp: seen_since_def on_datagram_def Let_def split: option.splits sum.splits)
qed

lemma on_events_seen_since:
  "seen_since t k ps \<Longrightarrow> (\<And>ev. ev \<in> set evs \<Longrightarrow> t \<le> event_time ev \<and> unat (event_time ev) < unat t + 30) \<Longrightarrow>
    seen_since t k (on_events parse self_id evs ps)"
  unfolding on_events_def
  by (induction evs arbitrary: ps) (simp_all add: on_event_seen_since)

section \<open>Properties\<close>

text \<open>Whatever services and datagrams arrive, in whatever order, every listed peer stands under its own
  id, and this device never lists itself.\<close>

lemma never_lists_itself:
  "on_events parse self_id evs Map.empty self_id = None \<and>
   fst (known_peers now (on_events parse self_id evs Map.empty)) \<subseteq>
     {p. dp_device_id p \<noteq> self_id \<and> on_events parse self_id evs Map.empty (dp_device_id p) = Some p \<and> fresh now p}"
proof -
  have "peers_ok self_id (on_events parse self_id evs Map.empty)"
    by (rule peer_list.reachable_inv [OF refl on_events_steps])
  then have ok: "dp_device_id p = k \<and> k \<noteq> self_id"
    if "on_events parse self_id evs Map.empty k = Some p" for k p
    using that by (simp add: peers_ok_def)
  have "on_events parse self_id evs Map.empty self_id = None"
    using ok [of self_id] by (cases "on_events parse self_id evs Map.empty self_id") auto
  moreover have "dp_device_id p \<noteq> self_id \<and> on_events parse self_id evs Map.empty (dp_device_id p) = Some p \<and> fresh now p"
    if "p \<in> fst (known_peers now (on_events parse self_id evs Map.empty))" for p
  proof -
    from that obtain k where "prune now (on_events parse self_id evs Map.empty) k = Some p"
      by (auto simp: known_peers_def ran_def)
    then have "on_events parse self_id evs Map.empty k = Some p" and "fresh now p"
      by (simp_all add: prune_Some)
    with ok show ?thesis by blast
  qed
  ultimately show ?thesis by blast
qed

lemma seen_since_listed:
  assumes "seen_since t k ps" and "t \<le> now" and "unat now < unat t + 30"
  shows "\<exists>p \<in> fst (known_peers now ps). t \<le> dp_last_seen p \<and> ps k = Some p"
proof -
  obtain p where p: "ps k = Some p" "t \<le> dp_last_seen p" using assms(1) by (auto simp: seen_since_def)
  then have "prune now ps k = Some p" using fresh_since [OF p(2) assms(2,3)] by (simp add: prune_Some)
  with p show ?thesis by (intro bexI [of _ p]) (auto simp: known_peers_def ran_def)
qed

text \<open>What the libraries promise: an announcement is encoded as a text that is not empty and reads back as it, and a
  service is resolved with the properties and the port it was registered with.\<close>

definition announcements_read_back ::
    "(broadcast_announcement \<Rightarrow> string + bytes) \<Rightarrow> (bytes \<Rightarrow> string + broadcast_announcement) \<Rightarrow> bool" where
  "announcements_read_back to_json parse \<longleftrightarrow> (\<forall>a json. to_json a = Inr json \<longrightarrow> json \<noteq> [] \<and> parse json = Inr a)"

definition resolved_as :: "mdns_service \<Rightarrow> ip_addr list \<Rightarrow> service_info" where
  "resolved_as svc ips = \<lparr>si_property = md_properties svc, si_addresses = ips, si_port = md_port svc\<rparr>"


text \<open>An entry found by mDNS keeps its name, address and origin while only broadcasts arrive: a broadcast
  for it renews its time only.\<close>

lemma mdns_entry_not_overridden:
  assumes "ps k = Some p" and "dp_via p = Mdns" and "\<forall>ev \<in> set evs. \<exists>t d ip. ev = PacketReceived t d ip"
  shows "\<exists>q. on_events parse self_id evs ps k = Some q \<and> dp_addr q = dp_addr p \<and>
    dp_display_name q = dp_display_name p \<and> dp_via q = Mdns \<and> dp_device_id q = dp_device_id p"
  using assms
proof (induction evs arbitrary: ps p)
  case Nil
  then show ?case by (simp add: on_events_def)
next
  case (Cons ev evs)
  then obtain t d ip where ev: "ev = PacketReceived t d ip" by auto
  have "\<exists>q. on_datagram parse self_id t d ip ps k = Some q \<and> dp_addr q = dp_addr p \<and>
      dp_display_name q = dp_display_name p \<and> dp_via q = Mdns \<and> dp_device_id q = dp_device_id p"
    using Cons.prems(1,2) by (auto simp: on_datagram_def Let_def split: option.splits sum.splits)
  then obtain q where q: "on_datagram parse self_id t d ip ps k = Some q" "dp_addr q = dp_addr p"
      "dp_display_name q = dp_display_name p" "dp_via q = Mdns" "dp_device_id q = dp_device_id p" by blast
  from Cons.IH [of "on_datagram parse self_id t d ip ps" q, OF q(1) q(4)] Cons.prems(3) q show ?case by (auto simp: on_events_def ev)
qed

definition sample_parse :: "bytes \<Rightarrow> string + broadcast_announcement" where
  "sample_parse b = Inr \<lparr>ba_device_id = ''bob'', ba_display_name = ''Bob'', ba_port = 41000\<rparr>"

definition sample_daemon :: mdns_daemon where
  "sample_daemon = \<lparr>dm_start = Inr (), dm_info = (\<lambda>_. Inr ()), dm_register = (\<lambda>_. Inr ()), dm_browse = (\<lambda>_. Inr ()),
     dm_shutdown = Inr ()\<rparr>"

definition sample_json :: "broadcast_announcement \<Rightarrow> string + bytes" where
  "sample_json a = (if sample_parse [] = Inr a then Inr [123, 125] else Inl ''unsupported'')"


theorem mdns_entry_not_overridden_witness:
  "\<exists>q. on_events sample_parse ''me'' [PacketReceived 100 (announcement_packet [123, 125]) (IpV4 10 0 0 5)]
      [''bob'' \<mapsto> \<lparr>dp_device_id = ''bob'', dp_display_name = ''B'', dp_addr = ''10.0.0.9:1'', dp_via = Mdns,
         dp_last_seen = 50\<rparr>] ''bob'' = Some q \<and> dp_addr q = ''10.0.0.9:1''"
  using mdns_entry_not_overridden [where k = "''bob''" and
      p = "\<lparr>dp_device_id = ''bob'', dp_display_name = ''B'', dp_addr = ''10.0.0.9:1'', dp_via = Mdns, dp_last_seen = 50\<rparr>"
      and ps = "[''bob'' \<mapsto> \<lparr>dp_device_id = ''bob'', dp_display_name = ''B'', dp_addr = ''10.0.0.9:1'', dp_via = Mdns,
         dp_last_seen = 50\<rparr>]" and parse = sample_parse and self_id = "''me''" and
      evs = "[PacketReceived 100 (announcement_packet [123, 125]) (IpV4 10 0 0 5)]"]
  by auto

end
