(* ===== verification/Ffi.thy ===== *)
theory Ffi
  imports Connect Discovery
begin

text \<open>
  core/src/ffi.rs: the public functions of the crate and the queue of events behind them.  The connection
  manager calls the sink with \<open>emit\<close>, so the queue is the manager's list of sink calls, translated when it is
  drained.  A function that begins with \<open>session()?\<close> is given here on the manager or the session; the functions
  \<open>with_session\<close> and \<open>on_manager\<close> lift it to the process.  The texts \<open>serde_json\<close> makes of values,
  the parser of socket addresses and fresh random values are arguments.
\<close>

section \<open>Texts\<close>

text \<open>\<open>Display\<close> of \<open>CoreError\<close>.\<close>

fun display_error :: "core_error \<Rightarrow> string" where
  "display_error (Db e) = ''database error: '' @ e"
| "display_error (Crypto e) = ''crypto error: '' @ e"
| "display_error (Io e) = ''io error: '' @ e"
| "display_error (Serde e) = ''serialization error: '' @ e"
| "display_error (NotFound e) = ''not found: '' @ e"
| "display_error (InvalidState e) = ''invalid state: '' @ e"

abbreviation shown :: "'a res \<Rightarrow> string + 'a" where
  "shown r \<equiv> map_err display_error r"

text \<open>The values the \<open>json\<close> macro builds, numbers being exact.\<close>

datatype json =
    JStr string
  | JNum rat
  | JArr "json list"
  | JObj "(string \<times> json) list"

abbreviation JNat :: "nat \<Rightarrow> json" where
  "JNat n \<equiv> JNum (of_nat n)"

section \<open>Events\<close>

datatype app_event =
    TextMessageEvent string string string string u64
  | FileOfferEvent string string string u64 string
  | FileAcceptEvent string string
  | FileRejectEvent string string string
  | FolderOfferEvent string string string u64 u64 "folder_file_entry list"
  | FolderAcceptEvent string string
  | FolderRejectEvent string string string
  | TransferProgressEvent transfer_progress
  | TransferCompleteEvent string
  | TransferCancelledEvent string string
  | TypingEvent string bool
  | ReadReceiptEvent string u64
  | DeliveryAckEvent string u64
  | PresenceEvent string bool
  | PeerConnectedEvent string
  | PeerDisconnectedEvent string

text \<open>\<open>EventSink\<close> of \<open>QueueSink\<close>: what each call pushes.\<close>

fun to_app_event :: "sink_event \<Rightarrow> app_event" where
  "to_app_event (OnTextMessage src t) =
     TextMessageEvent src (tm_message_id t) (tm_conversation_id t) (tm_body t) (tm_sent_at_unix t)"
| "to_app_event (OnFileOffer src o') =
     FileOfferEvent src (fo_transfer_id o') (fo_file_name o') (fo_file_size o') (fo_mime_type o')"
| "to_app_event (OnFileAccept src tid) = FileAcceptEvent src tid"
| "to_app_event (OnFileReject src tid reason) = FileRejectEvent src tid reason"
| "to_app_event (OnFolderOffer src o') =
     FolderOfferEvent src (fd_folder_batch_id o') (fd_folder_name o') (fd_total_files o') (fd_total_size o') (fd_files o')"
| "to_app_event (OnFolderAccept src batch) = FolderAcceptEvent src batch"
| "to_app_event (OnFolderReject src batch reason) = FolderRejectEvent src batch reason"
| "to_app_event (OnTransferProgress p) = TransferProgressEvent p"
| "to_app_event (OnTransferComplete tid) = TransferCompleteEvent tid"
| "to_app_event (OnTransferCancelled tid by_device) = TransferCancelledEvent tid by_device"
| "to_app_event (OnTyping conv typing) = TypingEvent conv typing"
| "to_app_event (OnReadReceipt mid at_unix) = ReadReceiptEvent mid at_unix"
| "to_app_event (OnDeliveryAck mid at_unix) = DeliveryAckEvent mid at_unix"
| "to_app_event (OnPresence src online) = PresenceEvent src online"
| "to_app_event (OnPeerConnected did) = PeerConnectedEvent did"
| "to_app_event (OnPeerDisconnected did) = PeerDisconnectedEvent did"

text \<open>The queue and \<open>drain\<close>; a push is \<open>emit\<close>.\<close>

definition sink_queue :: "('h, 't) manager \<Rightarrow> app_event list" where
  "sink_queue m = map to_app_event (m_events m)"

definition sink_drain :: "('h, 't) manager \<Rightarrow> app_event list \<times> ('h, 't) manager" where
  "sink_drain m = (sink_queue m, m\<lparr>m_events := []\<rparr>)"

lemma sink_queue_emit [simp]: "sink_queue (emit ev m) = sink_queue m @ [to_app_event ev]"
  by (simp add: sink_queue_def emit_def)

section \<open>State of the process\<close>

record identity_info =
  ii_device_id :: string
  ii_public_key_hex :: string

definition identity_info_of :: "crypto \<Rightarrow> device_identity \<Rightarrow> identity_info" where
  "identity_info_of c i = \<lparr>ii_device_id = di_device_id i, ii_public_key_hex = hex_encode c (verifying_key c i)\<rparr>"

text \<open>\<open>to_string\<close> of \<open>serde_json\<close> at the types the functions return.\<close>

record serde =
  sd_value :: "json \<Rightarrow> string + string"
  sd_identity :: "identity_info \<Rightarrow> string + string"
  sd_peers :: "discovered_peer list \<Rightarrow> string + string"
  sd_events :: "app_event list \<Rightarrow> string + string"
  sd_messages :: "stored_message list \<Rightarrow> string + string"
  sd_ids :: "string list \<Rightarrow> string + string"

text \<open>The storage of the session is that of its manager, its sink the manager's.\<close>

record ('h, 't) session =
  se_manager :: "('h, 't) manager"
  se_peers :: peers
  se_local_addr :: string

text \<open>The database file while no session holds it, and the cell \<open>SESSION\<close>.  Every call names the same file.\<close>

record ('h, 't) process =
  pr_disk :: storage
  pr_session :: "('h, 't) session option"

definition database :: "('h, 't) process \<Rightarrow> storage" where
  "database pr = (case pr_session pr of None \<Rightarrow> pr_disk pr | Some s \<Rightarrow> m_storage (se_manager s))"

definition put_database :: "storage \<Rightarrow> ('h, 't) process \<Rightarrow> ('h, 't) process" where
  "put_database db pr =
     (case pr_session pr of
        None \<Rightarrow> pr\<lparr>pr_disk := db\<rparr>
      | Some s \<Rightarrow> pr\<lparr>pr_session := Some (s\<lparr>se_manager := (se_manager s)\<lparr>m_storage := db\<rparr>\<rparr>)\<rparr>)"

text \<open>\<open>session()?\<close>.\<close>

definition with_session ::
    "(('h, 't) session \<Rightarrow> (string + 'r) \<times> ('h, 't) session) \<Rightarrow> ('h, 't) process \<Rightarrow> (string + 'r) \<times> ('h, 't) process" where
  "with_session f pr =
     (case pr_session pr of
        None \<Rightarrow> (Inl ''session not started; call start_networking first'', pr)
      | Some s \<Rightarrow> let (r, s') = f s in (r, pr\<lparr>pr_session := Some s'\<rparr>))"

definition on_manager ::
    "(('h, 't) manager \<Rightarrow> (string + 'r) \<times> ('h, 't) manager) \<Rightarrow> ('h, 't) process \<Rightarrow> (string + 'r) \<times> ('h, 't) process" where
  "on_manager f = with_session (\<lambda>s. let (r, m) = f (se_manager s) in (r, s\<lparr>se_manager := m\<rparr>))"

section \<open>Start and discovery\<close>

text \<open>\<open>opened\<close> is what \<open>Storage::open\<close> gives, \<open>seed\<close> the bytes drawn for a new identity.\<close>

definition init_app ::
    "('h, 't) env \<Rightarrow> serde \<Rightarrow> unit res \<Rightarrow> bytes \<Rightarrow> ('h, 't) process \<Rightarrow> (string + string) \<times> ('h, 't) process" where
  "init_app env sd opened seed pr =
     (case shown opened of
        Inl e \<Rightarrow> (Inl e, pr)
      | Inr _ \<Rightarrow>
          let (r, db) = load_or_create_identity (e_crypto env) seed (database pr)
          in (andThen (shown r) (\<lambda>i. sd_identity sd (identity_info_of (e_crypto env) i)), put_database db pr))"

definition no_identity :: string where
  "no_identity = ''no identity found; call init_app first''"

definition get_identity ::
    "('h, 't) env \<Rightarrow> serde \<Rightarrow> unit res \<Rightarrow> ('h, 't) process \<Rightarrow> string + string" where
  "get_identity env sd opened pr =
     andThen (shown opened) (\<lambda>_.
     andThen (shown (load_identity (e_crypto env) (database pr))) (\<lambda>found.
     andThen (ok_or no_identity found) (\<lambda>i. sd_identity sd (identity_info_of (e_crypto env) i))))"

text \<open>\<open>made\<close>, \<open>bound\<close> and \<open>discovering\<close> are the answers of the file system, of \<open>QuicTransport::bind\<close> (the port and the text
  of the address) and of \<open>Discovery::start\<close>.  No other thread sets the cell in between, so the set succeeds.\<close>

definition start_networking ::
    "('h, 't) env \<Rightarrow> serde \<Rightarrow> unit res \<Rightarrow> bytes \<Rightarrow> string + unit \<Rightarrow> (u16 \<times> string) res \<Rightarrow> unit res \<Rightarrow>
      string \<Rightarrow> filesystem \<Rightarrow> ('h, 't) noise_session \<Rightarrow> ('h, 't) process \<Rightarrow> (string + string) \<times> ('h, 't) process" where
  "start_networking env sd opened seed made bound discovering downloads_dir fs unused pr =
     (if pr_session pr \<noteq> None then (Inr ''{\"status\":\"already_started\"}'', pr)
      else
        case shown opened of
          Inl e \<Rightarrow> (Inl e, pr)
        | Inr _ \<Rightarrow>
            let (r, db) = load_or_create_identity (e_crypto env) seed (database pr);
                pr1 = put_database db pr
            in case andThen (shown r) (\<lambda>identity. andThen made (\<lambda>_. andThen (shown bound) (\<lambda>(port, addr).
                    andThen (shown discovering) (\<lambda>_. Inr (identity, port, addr))))) of
                 Inl e \<Rightarrow> (Inl e, pr1)
               | Inr (identity, port, addr) \<Rightarrow>
                   (sd_value sd (JObj [(''status'', JStr ''started''), (''quic_port'', JNat (unat port)),
                      (''device_id'', JStr (di_device_id identity))]),
                    pr1\<lparr>pr_session := Some \<lparr>se_manager = manager_new identity downloads_dir db fs unused,
                      se_peers = Map.empty, se_local_addr = addr\<rparr>\<rparr>))"

text \<open>\<open>order\<close> is the order in which the map of peers is iterated.\<close>

definition discover_peers ::
    "serde \<Rightarrow> (discovered_peer set \<Rightarrow> discovered_peer list) \<Rightarrow> u64 \<Rightarrow> ('h, 't) session \<Rightarrow> (string + string) \<times> ('h, 't) session"
where
  "discover_peers sd order now s =
     (let (found, ps) = known_peers now (se_peers s) in (sd_peers sd (order found), s\<lparr>se_peers := ps\<rparr>))"

definition connected_peers ::
    "serde \<Rightarrow> (string set \<Rightarrow> string list) \<Rightarrow> ('h, 't) manager \<Rightarrow> (string + string) \<times> ('h, 't) manager" where
  "connected_peers sd order m = (sd_ids sd (order (connected_device_ids m)), m)"

definition networking_status :: "serde \<Rightarrow> u64 \<Rightarrow> ('h, 't) session \<Rightarrow> (string + string) \<times> ('h, 't) session" where
  "networking_status sd now s =
     (let (found, ps) = known_peers now (se_peers s)
      in (sd_value sd (JObj [(''quic_local_addr'', JStr (se_local_addr s)), (''known_peer_count'', JNat (card found)),
            (''connected_peer_count'', JNat (card (connected_device_ids (se_manager s))))]),
          s\<lparr>se_peers := ps\<rparr>))"

section \<open>Connecting\<close>

text \<open>A fixed reply once the call has succeeded.\<close>

definition reply :: "string \<Rightarrow> 'a res \<times> ('h, 't) manager \<Rightarrow> (string + string) \<times> ('h, 't) manager" where
  "reply text x = (let (r, m) = x in (andThen (shown r) (\<lambda>_. Inr text), m))"

definition connect_to_peer_ffi ::
    "('h, 't) env \<Rightarrow> nat \<Rightarrow> (string \<Rightarrow> string + 'a) \<Rightarrow> ('a \<Rightarrow> (nat \<times> peer_stream) res) \<Rightarrow> string \<Rightarrow> string \<Rightarrow>
      ('h, 't) manager \<Rightarrow> (string + string) \<times> ('h, 't) manager" where
  "connect_to_peer_ffi env now parse dial addr expected m =
     (case parse addr of
        Inl e \<Rightarrow> (Inl (''bad addr: '' @ e), m)
      | Inr a \<Rightarrow> reply ''{\"status\":\"connected\"}'' (connect_to_peer env now (dial a) expected m))"

definition connect_signaling_server_ffi ::
    "('h, 't) env \<Rightarrow> string + unit \<Rightarrow> ('h, 't) manager \<Rightarrow> (string + string) \<times> ('h, 't) manager" where
  "connect_signaling_server_ffi env ws m = reply ''{\"status\":\"connected\"}'' (connect_signaling_server env ws m)"

definition connect_to_peer_via_internet_ffi ::
    "('h, 't) env \<Rightarrow> socket_addr res \<Rightarrow> string \<Rightarrow> string \<Rightarrow> string \<Rightarrow> ('h, 't) manager \<Rightarrow> (string + string) \<times> ('h, 't) manager"
where
  "connect_to_peer_via_internet_ffi env probe local_addr sid peer m =
     reply ''{\"status\":\"candidates_offered\"}'' (connect_to_peer_via_internet env probe local_addr sid peer m)"

section \<open>Messages\<close>

text \<open>The seconds since 1970; a clock before that reads as zero.\<close>

definition unix_secs :: "('h, 't) env \<Rightarrow> nat \<Rightarrow> u64" where
  "unix_secs env now = (if e_wall env now < 0 then 0 else of_int (e_wall env now))"

text \<open>A row for what this device sends; \<open>self\<close> marks its author.\<close>

abbreviation insert_own :: "string \<Rightarrow> string \<Rightarrow> string \<Rightarrow> string \<Rightarrow> u64 \<Rightarrow> storage \<Rightarrow> unit res \<times> storage" where
  "insert_own mid conv body ty at_unix \<equiv> insert_message mid conv ''self'' body ty at_unix ''pending''"

definition send_text_message ::
    "('h, 't) env \<Rightarrow> serde \<Rightarrow> nat \<Rightarrow> string \<Rightarrow> string \<Rightarrow> string \<Rightarrow> ('h, 't) manager \<Rightarrow> (string + string) \<times> ('h, 't) manager"
where
  "send_text_message env sd now mid peer body m =
     (case get_or_create_conversation (e_wall env now) peer (m_storage m) of
        (Inl e, db) \<Rightarrow> (Inl (display_error e), m\<lparr>m_storage := db\<rparr>)
      | (Inr conv, db) \<Rightarrow>
          (case insert_own mid conv body ''text'' (unix_secs env now) db of
             (Inl e, db1) \<Rightarrow> (Inl (display_error e), m\<lparr>m_storage := db1\<rparr>)
           | (Inr _, db1) \<Rightarrow>
               let (r, m1) = send_to env peer (Text \<lparr>tm_message_id = mid, tm_conversation_id = conv, tm_body = body,
                     tm_sent_at_unix = unix_secs env now\<rparr>) (m\<lparr>m_storage := db1\<rparr>)
               in (andThen (shown r) (\<lambda>_. sd_value sd (JObj [(''status'', JStr ''sent''), (''message_id'', JStr mid)])), m1)))"

definition poll_events :: "serde \<Rightarrow> ('h, 't) manager \<Rightarrow> (string + string) \<times> ('h, 't) manager" where
  "poll_events sd m = (let (evs, m1) = sink_drain m in (sd_events sd evs, m1))"

definition get_conversation_history ::
    "serde \<Rightarrow> (message_row list \<Rightarrow> message_row list) \<Rightarrow> string \<Rightarrow> u32 \<Rightarrow> ('h, 't) manager \<Rightarrow> (string + string) \<times> ('h, 't) manager"
where
  "get_conversation_history sd newest_first peer limit m =
     (andThen (shown (load_conversation_history newest_first peer limit (m_storage m))) (sd_messages sd), m)"

definition send_typing_indicator ::
    "('h, 't) env \<Rightarrow> string \<Rightarrow> string \<Rightarrow> bool \<Rightarrow> ('h, 't) manager \<Rightarrow> (string + string) \<times> ('h, 't) manager" where
  "send_typing_indicator env peer conv typing m =
     (Inr ''{\"status\":\"ok\"}'', snd (send_to env peer (TypingIndicator conv typing) m))"

definition mark_message_read_ffi ::
    "('h, 't) env \<Rightarrow> nat \<Rightarrow> string \<Rightarrow> string \<Rightarrow> ('h, 't) manager \<Rightarrow> (string + string) \<times> ('h, 't) manager" where
  "mark_message_read_ffi env now peer mid m =
     (case mark_message_read mid (unix_secs env now) (m_storage m) of
        (Inl e, db) \<Rightarrow> (Inl (display_error e), m\<lparr>m_storage := db\<rparr>)
      | (Inr _, db) \<Rightarrow>
          (Inr ''{\"status\":\"ok\"}'',
           snd (send_to env peer (ReadReceipt mid (unix_secs env now)) (m\<lparr>m_storage := db\<rparr>))))"

section \<open>Transfers\<close>

text \<open>The components of a path text and \<open>Path::file_name\<close>; \<open>is_sep\<close> holds of the separators of the host.\<close>

fun split_path :: "(char \<Rightarrow> bool) \<Rightarrow> string \<Rightarrow> string list" where
  "split_path is_sep [] = [[]]"
| "split_path is_sep (c # cs) =
     (if is_sep c then [] # split_path is_sep cs
      else case split_path is_sep cs of p # ps \<Rightarrow> (c # p) # ps | [] \<Rightarrow> [[c]])"

definition file_name_of :: "(char \<Rightarrow> bool) \<Rightarrow> string \<Rightarrow> string option" where
  "file_name_of is_sep p =
     (let parts = filter (\<lambda>c. c \<noteq> [] \<and> c \<noteq> ''.'') (split_path is_sep p)
      in if parts = [] \<or> last parts = ''..'' then None else Some (last parts))"

text \<open>What both ways of sending a file share: the row of the chat history, the offer, the reply.\<close>

definition offer_with_row ::
    "('h, 't) env \<Rightarrow> serde \<Rightarrow> nat \<Rightarrow> string \<Rightarrow> string \<Rightarrow> string \<Rightarrow> file_source \<Rightarrow> string \<Rightarrow> u64 \<Rightarrow> string \<Rightarrow> string \<Rightarrow>
      ('h, 't) manager \<Rightarrow> (string + string) \<times> ('h, 't) manager" where
  "offer_with_row env sd now mid tid peer src name fsize mime conv m =
     (case insert_own mid conv name ''file'' (unix_secs env now) (m_storage m) of
        (Inl e, db) \<Rightarrow> (Inl (display_error e), m\<lparr>m_storage := db\<rparr>)
      | (Inr _, db) \<Rightarrow>
          let (r, m1) = send_file env now tid peer src
                \<lparr>fi_name = name, fi_size = fsize, fi_mime = mime, fi_message_id = mid, fi_conversation_id = conv,
                 fi_relative_path = [], fi_folder_batch_id = None\<rparr> (m\<lparr>m_storage := db\<rparr>)
          in (andThen (shown r) (\<lambda>t. sd_value sd (JObj [(''status'', JStr ''offered''), (''transfer_id'', JStr t),
                (''message_id'', JStr mid)])), m1))"

text \<open>\<open>metadata\<close> is the size the file system reports for a path, or its error.\<close>

definition send_file_ffi ::
    "('h, 't) env \<Rightarrow> serde \<Rightarrow> nat \<Rightarrow> (char \<Rightarrow> bool) \<Rightarrow> (string \<Rightarrow> string + u64) \<Rightarrow> string \<Rightarrow> string \<Rightarrow> string \<Rightarrow> string \<Rightarrow>
      string \<Rightarrow> ('h, 't) manager \<Rightarrow> (string + string) \<times> ('h, 't) manager" where
  "send_file_ffi env sd now is_sep metadata mid tid peer file_path conv m =
     (let name = (case file_name_of is_sep file_path of Some n \<Rightarrow> n | None \<Rightarrow> file_path);
          mime = mime_guess_from_extension (case file_name_of is_sep file_path of Some n \<Rightarrow> [n] | None \<Rightarrow> [])
      in case metadata file_path of
           Inl e \<Rightarrow> (Inl (''could not read file metadata: '' @ e), m)
         | Inr fsize \<Rightarrow> offer_with_row env sd now mid tid peer (Path file_path) name fsize mime conv m)"

definition send_file_fd ::
    "('h, 't) env \<Rightarrow> serde \<Rightarrow> nat \<Rightarrow> string \<Rightarrow> string \<Rightarrow> string \<Rightarrow> int \<Rightarrow> string \<Rightarrow> u64 \<Rightarrow> string \<Rightarrow> string \<Rightarrow>
      ('h, 't) manager \<Rightarrow> (string + string) \<times> ('h, 't) manager" where
  "send_file_fd env sd now mid tid peer fd name fsize mime conv m =
     offer_with_row env sd now mid tid peer (Fd fd) name fsize mime conv m"

text \<open>Sending a folder blocks until the answer is there: first the offer, then, \<open>offered\<close> being the files with
  their fresh ids, what follows the answer.  A row that cannot be stored is only logged; \<open>mids\<close> are the
  fresh ids of the rows.\<close>

definition send_folder_begin ::
    "('h, 't) env \<Rightarrow> string \<Rightarrow> string \<Rightarrow> string \<Rightarrow> char \<Rightarrow> path \<Rightarrow> entry \<Rightarrow> ('h, 't) manager \<Rightarrow>
      (string + path list \<times> folder_file_entry list \<times> nat) \<times> ('h, 't) manager" where
  "send_folder_begin env batch peer conv sep dir tree m =
     (let (r, m1) = offer_folder env batch peer conv sep dir tree m in (shown r, m1))"

fun folder_rows :: "string \<Rightarrow> u64 \<Rightarrow> (nat \<Rightarrow> string) \<Rightarrow> (string \<times> string) list \<Rightarrow> storage \<Rightarrow> storage" where
  "folder_rows conv at_unix mids [] db = db"
| "folder_rows conv at_unix mids ((rel, tid) # results) db =
     folder_rows conv at_unix (\<lambda>n. mids (Suc n)) results (snd (insert_own (mids 0) conv rel ''file'' at_unix db))"

definition send_folder_ffi ::
    "('h, 't) env \<Rightarrow> serde \<Rightarrow> nat \<Rightarrow> bool \<Rightarrow> nat \<Rightarrow> string \<Rightarrow> string \<Rightarrow> string \<Rightarrow> char \<Rightarrow>
      (path \<times> folder_file_entry \<times> string \<times> string) list \<Rightarrow> (nat \<Rightarrow> string) \<Rightarrow> ('h, 't) manager \<Rightarrow>
      (string + string) \<times> ('h, 't) manager" where
  "send_folder_ffi env sd now timed_out tx batch peer conv sep offered mids m =
     (case folder_answered env now timed_out tx batch peer conv sep offered m of
        (Inl e, m1) \<Rightarrow> (Inl (display_error e), m1)
      | (Inr results, m1) \<Rightarrow>
          (sd_value sd (JObj [(''status'', JStr ''offered''),
             (''files'', JArr (map (\<lambda>(rel, tid). JObj [(''relative_path'', JStr rel), (''transfer_id'', JStr tid)]) results))]),
           m1\<lparr>m_storage := folder_rows conv (unix_secs env now) mids results (m_storage m1)\<rparr>))"

definition accept_file_ffi ::
    "('h, 't) env \<Rightarrow> serde \<Rightarrow> nat \<Rightarrow> string \<Rightarrow> string \<Rightarrow> string \<Rightarrow> string \<Rightarrow> u64 \<Rightarrow> string \<Rightarrow> ('h, 't) manager \<Rightarrow>
      (string + string) \<times> ('h, 't) manager" where
  "accept_file_ffi env sd now src tid mid name fsize mime m =
     (let (r, m1) = accept_file env now src
            \<lparr>fo_transfer_id = tid, fo_message_id = mid, fo_conversation_id = src, fo_file_name = name, fo_file_size = fsize,
             fo_mime_type = mime, fo_total_chunks = div_ceil fsize (of_nat CHUNK_SIZE), fo_chunk_size = of_nat CHUNK_SIZE,
             fo_relative_path = [], fo_folder_batch_id = None\<rparr> m
      in (andThen (shown r) (\<lambda>dest. sd_value sd (JObj [(''status'', JStr ''accepted''), (''dest_path'', JStr dest)])), m1))"

definition reject_file_ffi ::
    "('h, 't) env \<Rightarrow> string \<Rightarrow> string \<Rightarrow> string \<Rightarrow> ('h, 't) manager \<Rightarrow> (string + string) \<times> ('h, 't) manager" where
  "reject_file_ffi env src tid reason m = reply ''{\"status\":\"rejected\"}'' (reject_file env src tid reason m)"

definition accept_folder_ffi ::
    "('h, 't) env \<Rightarrow> string \<Rightarrow> string \<Rightarrow> ('h, 't) manager \<Rightarrow> (string + string) \<times> ('h, 't) manager" where
  "accept_folder_ffi env src batch m = reply ''{\"status\":\"accepted\"}'' (accept_folder env src batch m)"

definition reject_folder_ffi ::
    "('h, 't) env \<Rightarrow> string \<Rightarrow> string \<Rightarrow> string \<Rightarrow> ('h, 't) manager \<Rightarrow> (string + string) \<times> ('h, 't) manager" where
  "reject_folder_ffi env src batch reason m = reply ''{\"status\":\"rejected\"}'' (reject_folder env src batch reason m)"

definition pause_transfer :: "string \<Rightarrow> ('h, 't) manager \<Rightarrow> (string + string) \<times> ('h, 't) manager" where
  "pause_transfer tid m = (Inr ''{\"status\":\"ok\"}'', pause_outgoing_transfer tid m)"

definition resume_transfer :: "string \<Rightarrow> ('h, 't) manager \<Rightarrow> (string + string) \<times> ('h, 't) manager" where
  "resume_transfer tid m = (Inr ''{\"status\":\"ok\"}'', resume_outgoing_transfer tid m)"

definition cancel_transfer_ffi ::
    "('h, 't) env \<Rightarrow> string \<Rightarrow> string \<Rightarrow> ('h, 't) manager \<Rightarrow> (string + string) \<times> ('h, 't) manager" where
  "cancel_transfer_ffi env peer tid m = reply ''{\"status\":\"ok\"}'' (cancel_transfer env peer tid m)"

text \<open>The numbers \<open>get_transfer_progress\<close> reports from the database: total, transferred, percent (a float in the
  code, exact here).\<close>

definition stored_progress :: "string \<Rightarrow> storage \<Rightarrow> string + (string \<times> u64 \<times> u64 \<times> rat)" where
  "stored_progress tid db =
     andThen (shown (load_transfer_meta tid db)) (\<lambda>found.
     andThen (ok_or (''transfer '' @ tid @ '' not found'') found) (\<lambda>(name, total_bytes, _).
     andThen (shown (load_acked_chunks tid db)) (\<lambda>acked.
       let done_bytes = min (of_nat (card acked) * of_nat CHUNK_SIZE) total_bytes
       in Inr (name, total_bytes, done_bytes,
            if total_bytes = 0 then 100 else of_nat (unat done_bytes) / of_nat (unat total_bytes) * 100))))"

definition get_transfer_progress :: "serde \<Rightarrow> string \<Rightarrow> ('h, 't) manager \<Rightarrow> (string + string) \<times> ('h, 't) manager" where
  "get_transfer_progress sd tid m =
     (andThen (stored_progress tid (m_storage m)) (\<lambda>(name, total_bytes, done_bytes, percent).
        sd_value sd (JObj [(''transfer_id'', JStr tid), (''file_name'', JStr name), (''total_bytes'', JNat (unat total_bytes)),
          (''bytes_transferred'', JNat (unat done_bytes)), (''percent'', JNum percent)])), m)"

section \<open>Messages over the Bluetooth mesh\<close>

text \<open>\<open>hex_decode\<close> is \<open>hex::decode\<close> with the text of its error; \<open>eph\<close> and \<open>nonce\<close> are drawn for the message.\<close>

definition ble_seal_message ::
    "crypto \<Rightarrow> (string \<Rightarrow> string + bytes) \<Rightarrow> bytes \<Rightarrow> bytes \<Rightarrow> string \<Rightarrow> string \<Rightarrow> string + string" where
  "ble_seal_message c hex_decode eph nonce recipient_hex plaintext =
     andThen (hex_decode recipient_hex) (\<lambda>key.
       if length key \<noteq> 32 then Inl ''recipient public key must be exactly 32 bytes''
       else andThen (shown (seal c eph nonce key (ascii_bytes plaintext))) (\<lambda>sealed. Inr (hex_encode c sealed)))"

text \<open>\<open>String::from_utf8\<close>: the well-formed byte sequences; \<open>utf8_error\<close> is the text of the error.\<close>

definition utf8_cont :: "u8 \<Rightarrow> u8 \<Rightarrow> u8 \<Rightarrow> bool" where
  "utf8_cont lo hi b \<longleftrightarrow> lo \<le> b \<and> b \<le> hi"

fun utf8_valid :: "bytes \<Rightarrow> bool" where
  "utf8_valid [] = True"
| "utf8_valid (a # bs) =
     (if a \<le> 0x7F then utf8_valid bs
      else if 0xC2 \<le> a \<and> a \<le> 0xDF then (case bs of b # r \<Rightarrow> utf8_cont 0x80 0xBF b \<and> utf8_valid r | _ \<Rightarrow> False)
      else if 0xE0 \<le> a \<and> a \<le> 0xEF then
        (case bs of b # c # r \<Rightarrow>
           utf8_cont (if a = 0xE0 then 0xA0 else 0x80) (if a = 0xED then 0x9F else 0xBF) b \<and> utf8_cont 0x80 0xBF c \<and>
           utf8_valid r
         | _ \<Rightarrow> False)
      else if 0xF0 \<le> a \<and> a \<le> 0xF4 then
        (case bs of b # c # d # r \<Rightarrow>
           utf8_cont (if a = 0xF0 then 0x90 else 0x80) (if a = 0xF4 then 0x8F else 0xBF) b \<and> utf8_cont 0x80 0xBF c \<and>
           utf8_cont 0x80 0xBF d \<and> utf8_valid r
         | _ \<Rightarrow> False)
      else False)"

definition from_utf8 :: "(bytes \<Rightarrow> string) \<Rightarrow> bytes \<Rightarrow> string + string" where
  "from_utf8 utf8_error b = (if utf8_valid b then Inr (text_of_bytes b) else Inl (utf8_error b))"

definition ble_open_message ::
    "('h, 't) env \<Rightarrow> (string \<Rightarrow> string + bytes) \<Rightarrow> (bytes \<Rightarrow> string) \<Rightarrow> unit res \<Rightarrow> string \<Rightarrow> ('h, 't) process \<Rightarrow>
      string + string" where
  "ble_open_message env hex_decode utf8_error opened sealed_hex pr =
     andThen (shown opened) (\<lambda>_.
     andThen (shown (load_identity (e_crypto env) (database pr))) (\<lambda>found.
     andThen (ok_or no_identity found) (\<lambda>identity.
     andThen (hex_decode sealed_hex) (\<lambda>sealed.
     andThen (shown (open_sealed (e_crypto env) (di_noise_static identity) sealed)) (from_utf8 utf8_error)))))"

definition get_known_device_public_key ::
    "crypto \<Rightarrow> string \<Rightarrow> ('h, 't) manager \<Rightarrow> (string + string) \<times> ('h, 't) manager" where
  "get_known_device_public_key c peer m =
     (andThen (shown (load_device_public_key peer (m_storage m))) (\<lambda>found.
      andThen (ok_or (''no known public key for device '' @ peer) found) (\<lambda>key. Inr (hex_encode c key))), m)"

end
