(* ===== verification/App.thy ===== *)
theory App
  imports Ffi Authentication
begin

text \<open>
  The whole process: the public functions of the crate, the network behind them, the discovery events and
  the end of the process are the steps of \<open>process_step\<close>, from the first start on an empty database on.  A
  contract says when a predicate on the manager is kept by all of them.
\<close>

section \<open>The steps of the process\<close>

text \<open>The functions that work on the connection manager, with whatever arguments.\<close>

inductive ffi_call ::
    "('h, 't) env \<Rightarrow> (('h, 't) manager \<Rightarrow> (string + string) \<times> ('h, 't) manager) \<Rightarrow> bool" for env where
  connect: "ffi_call env (connect_to_peer_ffi env now (parse :: string \<Rightarrow> string + string) dial addr expected)"
| connect_server: "ffi_call env (connect_signaling_server_ffi env ws)"
| connect_internet: "ffi_call env (connect_to_peer_via_internet_ffi env probe local_addr sid peer)"
| send_text: "ffi_call env (send_text_message env sd now mid peer body)"
| poll: "ffi_call env (poll_events sd)"
| history: "ffi_call env (get_conversation_history sd newest_first peer limit)"
| send_typing: "ffi_call env (send_typing_indicator env peer conv typing)"
| mark_read: "ffi_call env (mark_message_read_ffi env now peer mid)"
| peers: "ffi_call env (connected_peers sd order)"
| send_path: "ffi_call env (send_file_ffi env sd now is_sep metadata mid tid peer file_path conv)"
| send_fd: "ffi_call env (send_file_fd env sd now mid tid peer fd name fsize mime conv)"
| send_folder: "ffi_call env (send_folder_ffi env sd now timed_out tx batch peer conv sep offered mids)"
| accept: "ffi_call env (accept_file_ffi env sd now src tid mid name fsize mime)"
| reject: "ffi_call env (reject_file_ffi env src tid reason)"
| accept_all: "ffi_call env (accept_folder_ffi env src batch)"
| reject_all: "ffi_call env (reject_folder_ffi env src batch reason)"
| pause: "ffi_call env (pause_transfer tid)"
| resume: "ffi_call env (resume_transfer tid)"
| cancel: "ffi_call env (cancel_transfer_ffi env peer tid)"
| transfer_progress: "ffi_call env (get_transfer_progress sd tid)"
| known_key: "ffi_call env (get_known_device_public_key (e_crypto env) peer)"

text \<open>What goes on around the calls: the network, discovery, the end of the process.\<close>

inductive world_step :: "('h, 't) env \<Rightarrow> ('h, 't) process \<Rightarrow> ('h, 't) process \<Rightarrow> bool" for env where
  network: "pr_session pr = Some s \<Longrightarrow> node_step env (se_manager s) m \<Longrightarrow>
    world_step env pr (pr\<lparr>pr_session := Some (s\<lparr>se_manager := m\<rparr>)\<rparr>)"
| discovered: "pr_session pr = Some s \<Longrightarrow>
    world_step env pr (pr\<lparr>pr_session := Some (s\<lparr>se_peers :=
      on_event parse_packet (di_device_id (m_identity (se_manager s))) ev (se_peers s)\<rparr>)\<rparr>)"
| ending: "world_step env pr \<lparr>pr_disk = database pr, pr_session = None\<rparr>"

inductive process_step :: "('h, 't) env \<Rightarrow> ('h, 't) process \<Rightarrow> ('h, 't) process \<Rightarrow> bool" for env where
  initialising: "process_step env pr (snd (init_app env sd opened seed pr))"
| starting: "process_step env pr (snd (start_networking env sd opened seed made bound discovering downloads_dir fs unused pr))"
| calling: "ffi_call env f \<Longrightarrow> process_step env pr (snd (on_manager f pr))"
| folder_begins: "process_step env pr (snd (on_manager (send_folder_begin env batch peer conv sep dir tree) pr))"
| listing: "process_step env pr (snd (with_session (discover_peers sd order now_unix) pr))"
| status: "process_step env pr (snd (with_session (networking_status sd now_unix) pr))"
| around: "world_step env pr pr' \<Longrightarrow> process_step env pr pr'"

text \<open>Before the first start.\<close>

definition first_start :: "('h, 't) process \<Rightarrow> bool" where
  "first_start pr \<longleftrightarrow> pr = \<lparr>pr_disk = empty_storage, pr_session = None\<rparr>"

section \<open>The contract\<close>

text \<open>Beyond the steps of the network: the rows of the chat history, draining the queue, and the database \<open>D\<close> that a
  session starts from and leaves behind.\<close>

locale process_keeps = node_keeps P env start
  for P :: "('h, 't) manager \<Rightarrow> bool" and env :: "('h, 't) env" and start :: "('h, 't) manager \<Rightarrow> bool" +
  fixes D :: "storage \<Rightarrow> bool"
  assumes conversation: "P m \<Longrightarrow> P (m\<lparr>m_storage := snd (get_or_create_conversation t peer (m_storage m))\<rparr>)"
    and own_message: "P m \<Longrightarrow> P (m\<lparr>m_storage := snd (insert_own mid conv body ty at_unix (m_storage m))\<rparr>)"
    and message_read: "P m \<Longrightarrow> P (m\<lparr>m_storage := snd (mark_message_read mid at_unix (m_storage m))\<rparr>)"
    and drained: "P m \<Longrightarrow> P (m\<lparr>m_events := []\<rparr>)"
    and left_behind: "P m \<Longrightarrow> D (m_storage m)"
    and identity_in_session: "P m \<Longrightarrow> P (m\<lparr>m_storage := snd (load_or_create_identity (e_crypto env) seed (m_storage m))\<rparr>)"
    and identity_on_disk: "D db \<Longrightarrow> D (snd (load_or_create_identity (e_crypto env) seed db))"
    and fresh_manager: "D db \<Longrightarrow> load_or_create_identity (e_crypto env) seed db = (Inr i, db') \<Longrightarrow>
      P (manager_new i downloads_dir db' fs unused)"
begin

definition process_ok :: "('h, 't) process \<Rightarrow> bool" where
  "process_ok pr \<longleftrightarrow> (case pr_session pr of None \<Rightarrow> D (pr_disk pr) | Some s \<Rightarrow> P (se_manager s))"

lemma replied: "P (snd x) \<Longrightarrow> P (snd (reply text x))"
  by (simp add: reply_def case_prod_beta)

lemma text_sent: "P m \<Longrightarrow> P (snd (send_text_message env sd now mid peer body m))"
proof -
  assume m: "P m"
  let ?db = "snd (get_or_create_conversation (e_wall env now) peer (m_storage m))"
  have 1: "P (m\<lparr>m_storage := ?db\<rparr>)" by (rule conversation [OF m])
  have "P (m\<lparr>m_storage := snd (insert_own mid conv body ''text'' (unix_secs env now) ?db)\<rparr>)" for conv
    using own_message [OF 1] by simp
  with 1 show ?thesis by (simp add: send_text_message_def Let_def case_prod_beta sent_to split: sum.split)
qed

lemma row_then_offer: "P m \<Longrightarrow> P (snd (offer_with_row env sd now mid tid peer src name fsize mime conv m))"
  using own_message [of m] by (simp add: offer_with_row_def Let_def case_prod_beta offered split: sum.split)

lemma rows_added: "P (m\<lparr>m_storage := db\<rparr>) \<Longrightarrow> P (m\<lparr>m_storage := folder_rows conv at_unix mids results db\<rparr>)"
proof (induction conv at_unix mids results db rule: folder_rows.induct)
  case (2 conv at_unix mids rel tid results db)
  have "P (m\<lparr>m_storage := snd (insert_own (mids 0) conv rel ''file'' at_unix db)\<rparr>)"
    using own_message [OF 2(2)] by simp
  then show ?case using 2(1) by simp
qed simp

lemma folder_sent: "P m \<Longrightarrow> P (snd (send_folder_ffi env sd now timed_out tx batch peer conv sep listed mids m))"
proof -
  assume m: "P m"
  have "P m1" if "folder_answered env now timed_out tx batch peer conv sep listed m = (r, m1)" for r m1
    using that folder_offer_ended [OF m] by (metis snd_conv)
  moreover have "P (m1\<lparr>m_storage := folder_rows conv at_unix mids results (m_storage m1)\<rparr>)" if "P m1" for m1 at_unix results
    by (rule rows_added) (use that in simp)
  ultimately show ?thesis by (auto simp: send_folder_ffi_def split: sum.split prod.split)
qed

lemma read_marked: "P m \<Longrightarrow> P (snd (mark_message_read_ffi env now peer mid m))"
  using message_read [of m] by (simp add: mark_message_read_ffi_def case_prod_beta sent_to split: sum.split)

lemma transfer_called:
  "P m \<Longrightarrow> P (snd (send_file_ffi env sd now is_sep metadata mid tid peer file_path conv m))"
  "P m \<Longrightarrow> P (snd (accept_file_ffi env sd now src tid mid name fsize mime m))"
  "P m \<Longrightarrow> P (snd (send_folder_begin env batch peer conv sep dir tree m))"
  by (simp_all add: send_file_ffi_def accept_file_ffi_def send_folder_begin_def Let_def case_prod_beta row_then_offer
      accepted folder_offered split: sum.split)

lemma called: "ffi_call env f \<Longrightarrow> P m \<Longrightarrow> P (snd (f m))"
  by (induction rule: ffi_call.induct)
    (simp_all add: connect_to_peer_ffi_def connect_signaling_server_ffi_def connect_to_peer_via_internet_ffi_def
      poll_events_def sink_drain_def get_conversation_history_def send_typing_indicator_def connected_peers_def
      send_file_fd_def reject_file_ffi_def reject_file_def accept_folder_ffi_def accept_folder_def
      reject_folder_ffi_def reject_folder_def pause_transfer_def resume_transfer_def cancel_transfer_ffi_def
      get_transfer_progress_def get_known_device_public_key_def
      replied dialled signaling_connected candidates_offered text_sent drained sent_to read_marked row_then_offer
      folder_sent transfer_called transfer_controlled split: sum.split)

lemma database_ok: "process_ok pr \<Longrightarrow> D (database pr)"
  by (simp add: process_ok_def database_def left_behind split: option.splits)

lemma on_manager_ok: "(\<And>m. P m \<Longrightarrow> P (snd (f m))) \<Longrightarrow> process_ok pr \<Longrightarrow> process_ok (snd (on_manager f pr))"
  by (simp add: process_ok_def on_manager_def with_session_def case_prod_beta split: option.splits)

lemma identity_stored:
  "process_ok pr \<Longrightarrow> process_ok (put_database (snd (load_or_create_identity (e_crypto env) seed (database pr))) pr)"
  by (simp add: process_ok_def database_def put_database_def identity_in_session identity_on_disk split: option.splits)

lemma networking_started:
  assumes ok: "process_ok pr"
  shows "process_ok (snd (start_networking env sd opened seed made bound discovering downloads_dir fs unused pr))"
proof -
  obtain r db where l: "load_or_create_identity (e_crypto env) seed (database pr) = (r, db)" by (rule prod.exhaust)
  have stored: "process_ok (put_database db pr)" using identity_stored [OF ok, of seed] by (simp add: l)
  have fresh: "P (manager_new i downloads_dir db fs unused)" if "shown r = Inr i" for i
    using that l fresh_manager [OF database_ok [OF ok]] by (cases r) auto
  have up: "process_ok (put_database db pr\<lparr>pr_session := Some \<lparr>se_manager = manager_new i downloads_dir db fs unused,
      se_peers = Map.empty, se_local_addr = addr\<rparr>\<rparr>)" if "shown r = Inr i" for i addr
    using fresh [OF that] by (simp add: process_ok_def)
  show ?thesis
    using ok stored up
    by (auto simp: start_networking_def l Let_def andThen_Inr_iff split: sum.split)
qed

lemma world_step_keeps: "world_step env pr pr' \<Longrightarrow> process_ok pr \<Longrightarrow> process_ok pr'"
proof (induction rule: world_step.induct)
  case (network pr s m)
  then show ?case using node_step_keeps by (simp add: process_ok_def)
next
  case (ending pr)
  then show ?case using database_ok [of pr] by (simp add: process_ok_def)
qed (simp add: process_ok_def)

theorem process_step_keeps: "process_step env pr pr' \<Longrightarrow> process_ok pr \<Longrightarrow> process_ok pr'"
proof (induction rule: process_step.induct)
  case (initialising pr sd opened seed)
  then show ?case
    using identity_stored [of pr seed] by (simp add: init_app_def Let_def case_prod_beta split: sum.split)
next
  case (starting pr sd opened seed made bound discovering downloads_dir fs unused)
  then show ?case by (rule networking_started)
next
  case (calling f pr)
  then show ?case by (intro on_manager_ok called)
next
  case (folder_begins pr batch peer conv sep dir tree)
  then show ?case by (intro on_manager_ok transfer_called(3))
next
  case (around pr pr')
  then show ?case by (rule world_step_keeps)
qed (auto simp: process_ok_def with_session_def discover_peers_def networking_status_def case_prod_beta split: option.splits)

end

sublocale process_keeps \<subseteq> process: machine process_ok "process_step env" process_ok
  by unfold_locales (auto intro: process_step_keeps)

section \<open>Four invariants\<close>

lemma load_or_create_fields [simp]:
  "devices (snd (load_or_create_identity c seed db)) = devices db"
  "messages (snd (load_or_create_identity c seed db)) = messages db"
  "conversations (snd (load_or_create_identity c seed db)) = conversations db"
  by (simp_all add: load_or_create_identity_def save_identity_def Let_def split: sum.split option.split)

lemma load_or_create_wf [preserves]: "storage_wf db \<Longrightarrow> storage_wf (snd (load_or_create_identity c seed db))"
  by (simp add: load_or_create_identity_def Let_def case_prod_beta preserves split: sum.split option.split)

text \<open>The manager's own invariant over a consistent database.\<close>

interpretation consistent: process_keeps manager_ok env manager_start storage_wf for env
proof
  show "manager_ok m \<Longrightarrow> manager_ok (m\<lparr>m_storage := snd (load_or_create_identity (e_crypto env) seed (m_storage m))\<rparr>)"
    for m :: "('a, 'b) manager" and env :: "('a, 'b) env" and seed
    by (intro manager_ok_db preserves manager_ok_wf)
  show "storage_wf db \<Longrightarrow> load_or_create_identity (e_crypto env) seed db = (Inr i, db') \<Longrightarrow>
      manager_ok (manager_new i downloads_dir db' fs unused)"
    for db db' seed i downloads_dir fs and unused :: "('a, 'b) noise_session" and env :: "('a, 'b) env"
    using load_or_create_wf [of db "e_crypto env" seed] new_manager_ok by (fastforce simp: manager_start_def)
qed (auto intro: manager_ok_db preserves dest: manager_ok_wf)

text \<open>A device is on record under the id of its key, and every device with a session is on record.\<close>

definition keys_match :: "crypto \<Rightarrow> storage \<Rightarrow> bool" where
  "keys_match c db \<longleftrightarrow> (\<forall>d \<in> set (devices db). dv_device_id d = device_id_from_public_key c (dv_public_key d))"

definition peers_recorded :: "('h, 't) env \<Rightarrow> ('h, 't) manager \<Rightarrow> bool" where
  "peers_recorded env m \<longleftrightarrow>
     keys_match (e_crypto env) (m_storage m) \<and> (\<forall>did \<in> dom (m_sessions m). has_row dv_device_id did (devices (m_storage m)))"

lemma peers_recorded_same:
  "devices (m_storage m') = devices (m_storage m) \<Longrightarrow> dom (m_sessions m') \<subseteq> dom (m_sessions m) \<Longrightarrow>
    peers_recorded env m \<Longrightarrow> peers_recorded env m'"
  by (auto simp: peers_recorded_def keys_match_def)

lemma upsert_keys_match:
  "keys_match c db \<Longrightarrow> did = device_id_from_public_key c key \<Longrightarrow>
    keys_match c (snd (upsert_known_device t did name key trusted db))"
  by (auto simp: keys_match_def upsert_known_device_def update_where_def)

lemma upsert_has_row:
  "has_row dv_device_id d (devices (snd (upsert_known_device t did name key trusted db))) \<longleftrightarrow>
    d = did \<or> has_row dv_device_id d (devices db)"
  by (auto simp: upsert_known_device_def store_simps)

lemma peers_recorded_new_session:
  assumes "peers_recorded env m" and "did = device_id_from_public_key (e_crypto env) key"
  shows "peers_recorded env (register_session env now did key conn s m)"
    "peers_recorded env (relay_session_up env now a sid did key s m)"
  using assms upsert_keys_match [of "e_crypto env" "m_storage m" did key]
  by (auto simp: peers_recorded_def register_session_def relay_session_up_def emit_def Let_def upsert_has_row)

text \<open>What the elementary changes of the tables leave alone.\<close>

lemma tables_only [simp]:
  "m_storage (answer_file b tid m) = m_storage m" "m_identity (answer_file b tid m) = m_identity m"
  "m_events (answer_file b tid m) = m_events m"
  "m_storage (answer_folder b batch m) = m_storage m" "m_identity (answer_folder b batch m) = m_identity m"
  "m_events (answer_folder b batch m) = m_events m"
  "m_storage (remove_outgoing tid m) = m_storage m" "m_identity (remove_outgoing tid m) = m_identity m"
  "m_events (remove_outgoing tid m) = m_events m"
  "m_storage (remove_folder_offer batch m) = m_storage m" "m_identity (remove_folder_offer batch m) = m_identity m"
  "m_events (remove_folder_offer batch m) = m_events m"
  by (simp_all add: answer_file_def answer_folder_def remove_outgoing_def remove_folder_offer_def answer_with_def
      drop_sender_def split: option.split)

lemma forwarder_only [simp]:
  "m_storage (run_relay_forwarder env ps n tid m) = m_storage m"
  "m_identity (run_relay_forwarder env ps n tid m) = m_identity m"
  "m_events (run_relay_forwarder env ps n tid m) = m_events m"
  "m_sessions (run_relay_forwarder env ps n tid m) = m_sessions m"
  by (auto simp: run_relay_forwarder_def Let_def split: option.split outbound_path.split prod.split)

lemma writer_only [simp]:
  "m_storage (run_stream_writer env can_write a c tid m) = m_storage m"
  "m_identity (run_stream_writer env can_write a c tid m) = m_identity m"
  "m_events (run_stream_writer env can_write a c tid m) = m_events m"
  "m_sessions (run_stream_writer env can_write a c tid m) = m_sessions m"
  by (simp_all add: run_stream_writer_def Let_def split: option.split prod.split)

lemma added_only [simp]:
  "m_storage (add_incoming tid dest m) = m_storage m" "m_storage (add_offer tid src m) = m_storage m"
  "m_storage (add_resumed tid src m) = m_storage m" "m_storage (add_folder_offer batch m) = m_storage m"
  "m_identity (add_incoming tid dest m) = m_identity m" "m_identity (add_offer tid src m) = m_identity m"
  "m_identity (add_resumed tid src m) = m_identity m" "m_identity (add_folder_offer batch m) = m_identity m"
  "m_events (add_incoming tid dest m) = m_events m" "m_events (add_offer tid src m) = m_events m"
  "m_events (add_resumed tid src m) = m_events m" "m_events (add_folder_offer batch m) = m_events m"
  "m_sessions (add_incoming tid dest m) = m_sessions m" "m_sessions (add_offer tid src m) = m_sessions m"
  "m_sessions (add_resumed tid src m) = m_sessions m" "m_sessions (add_folder_offer batch m) = m_sessions m"
  by (simp_all add: add_incoming_def add_offer_def add_resumed_def add_folder_offer_def)

lemmas sent_only [simp] = send_message_frame [unfolded send_frame_def, THEN conjunct1]
  send_message_frame [unfolded send_frame_def, THEN conjunct2, THEN conjunct1]

lemma sent_more [simp]:
  "m_sessions (snd (send_message env ps msg m)) = m_sessions m" "m_events (snd (send_message env ps msg m)) = m_events m"
  using send_message_frame [of m env ps msg] by (simp_all add: send_frame_def)

interpretation recorded: process_keeps "peers_recorded env" env "peers_recorded env" "keys_match (e_crypto env)" for env
proof
  show "peers_recorded env m \<Longrightarrow> transfers_only (m_storage m) db \<Longrightarrow> peers_recorded env (m\<lparr>m_storage := db\<rparr>)"
    for m :: "('a, 'b) manager" and db and env :: "('a, 'b) env"
    by (erule peers_recorded_same [rotated 2]) (simp_all add: transfers_only_def)
  show "peers_recorded env m \<Longrightarrow> did = device_id_from_public_key (e_crypto env) key \<Longrightarrow>
      peers_recorded env (register_session env now did key conn s' m)"
    "peers_recorded env m \<Longrightarrow> did = device_id_from_public_key (e_crypto env) key \<Longrightarrow>
      peers_recorded env (relay_session_up env now a sid did key s' m)"
    for m :: "('a, 'b) manager" and env :: "('a, 'b) env" and now did key conn s' a sid
    by (simp_all add: peers_recorded_new_session)
  show "keys_match (e_crypto env) db \<Longrightarrow> load_or_create_identity (e_crypto env) seed db = (Inr i, db') \<Longrightarrow>
      peers_recorded env (manager_new i downloads_dir db' fs unused)"
    for db db' seed i downloads_dir fs and unused :: "('a, 'b) noise_session" and env :: "('a, 'b) env"
    using load_or_create_fields(1) [of "e_crypto env" seed db] by (simp add: peers_recorded_def keys_match_def manager_new_def)
qed (auto simp: keys_match_def peers_recorded_def get_or_create_conversation_def insert_message_def
    mark_message_read_def emit_def)

text \<open>The chat history holds what this device sent, no row of it was ever marked delivered, and a conversation has
  the id of its peer.\<close>

definition own_rows :: "storage \<Rightarrow> bool" where
  "own_rows db \<longleftrightarrow>
     (\<forall>r \<in> set (messages db). ms_sender_device_id r = ''self'' \<and> ms_delivered_at r = None \<and>
        ms_status r = (if ms_read_at r = None then ''pending'' else ''read'')) \<and>
     (\<forall>c \<in> set (conversations db). cv_conversation_id c = cv_peer_device_id c)"

lemma own_rows_same:
  "messages db' = messages db \<Longrightarrow> conversations db' = conversations db \<Longrightarrow> own_rows db' \<longleftrightarrow> own_rows db"
  by (simp add: own_rows_def)

lemma own_rows_upsert [simp]: "own_rows (snd (upsert_known_device t did name key trusted db)) \<longleftrightarrow> own_rows db"
  by (rule own_rows_same) (simp_all add: upsert_known_device_def)

interpretation own: process_keeps "\<lambda>m. own_rows (m_storage m)" env "\<lambda>m. own_rows (m_storage m)" own_rows for env
proof
  show "own_rows (m_storage m) \<Longrightarrow>
      own_rows (m_storage (m\<lparr>m_storage := snd (mark_message_read mid at_unix (m_storage m))\<rparr>))"
    for m :: "('a, 'b) manager" and mid at_unix
    by (auto simp: own_rows_def mark_message_read_def update_where_def)
  show "own_rows db \<Longrightarrow> load_or_create_identity (e_crypto env) seed db = (Inr i, db') \<Longrightarrow>
      own_rows (m_storage (manager_new i downloads_dir db' fs unused))"
    for db db' seed i downloads_dir fs and unused :: "('a, 'b) noise_session" and env :: "('a, 'b) env"
    using load_or_create_fields(2,3) [of "e_crypto env" seed db] by (simp add: own_rows_def manager_new_def)
qed (auto simp: register_session_def relay_session_up_def emit_def Let_def own_rows_def get_or_create_conversation_def
    insert_message_def upsert_known_device_def transfers_only_def)

text \<open>Once there is an identity it is the identity of the database and of every session, for good.\<close>

definition identity_is :: "('h, 't) env \<Rightarrow> device_identity \<Rightarrow> ('h, 't) manager \<Rightarrow> bool" where
  "identity_is env i m \<longleftrightarrow> load_identity (e_crypto env) (m_storage m) = Inr (Some i) \<and> m_identity m = i"

lemma load_identity_same: "self_identity db' = self_identity db \<Longrightarrow> load_identity c db' = load_identity c db"
  by (simp add: load_identity_def)

lemma load_or_create_existing [simp]:
  "load_identity c db = Inr (Some i) \<Longrightarrow> load_or_create_identity c seed db = (Inr i, db)"
  by (simp add: load_or_create_identity_def)

lemma identity_is_same:
  "self_identity (m_storage m') = self_identity (m_storage m) \<Longrightarrow> m_identity m' = m_identity m \<Longrightarrow>
    identity_is env i m' \<longleftrightarrow> identity_is env i m"
  using load_identity_same [of "m_storage m'" "m_storage m"] by (simp add: identity_is_def)

lemma statements_keep_identity [simp]:
  "self_identity (snd (get_or_create_conversation t peer db)) = self_identity db"
  "self_identity (snd (insert_message mid conv sender body ty at_unix status db)) = self_identity db"
  "self_identity (snd (mark_message_read mid at_unix db)) = self_identity db"
  "self_identity (snd (upsert_known_device t did name key trusted db)) = self_identity db"
  by (simp_all add: get_or_create_conversation_def insert_message_def mark_message_read_def upsert_known_device_def)

lemma session_keeps_identity:
  "self_identity (m_storage (register_session env now did key conn s m)) = self_identity (m_storage m)"
  "m_identity (register_session env now did key conn s m) = m_identity m"
  "self_identity (m_storage (relay_session_up env now a sid did key s m)) = self_identity (m_storage m)"
  "m_identity (relay_session_up env now a sid did key s m) = m_identity m"
  by (simp_all add: register_session_def relay_session_up_def emit_def Let_def)

interpretation same: process_keeps "identity_is env i" env "identity_is env i"
    "\<lambda>db. load_identity (e_crypto env) db = Inr (Some i)" for env i
proof
  show "identity_is env i m \<Longrightarrow> transfers_only (m_storage m) db \<Longrightarrow> identity_is env i (m\<lparr>m_storage := db\<rparr>)"
    for m :: "('a, 'b) manager" and db and env :: "('a, 'b) env" and i
    by (subst identity_is_same [of _ m]) (simp_all add: transfers_only_def)
  show "identity_is env i m \<Longrightarrow> identity_is env i (register_session env now did key conn s m)"
    "identity_is env i m \<Longrightarrow> identity_is env i (relay_session_up env now a sid did key s m)"
    for m :: "('a, 'b) manager" and env :: "('a, 'b) env" and i now did key conn s a sid
    by (subst identity_is_same [of _ m]; simp add: session_keeps_identity)+
  show "identity_is env i m \<Longrightarrow>
      identity_is env i (m\<lparr>m_storage := snd (get_or_create_conversation t peer (m_storage m))\<rparr>)"
    "identity_is env i m \<Longrightarrow>
      identity_is env i (m\<lparr>m_storage := snd (insert_own mid conv body ty at_unix (m_storage m))\<rparr>)"
    "identity_is env i m \<Longrightarrow> identity_is env i (m\<lparr>m_storage := snd (mark_message_read mid at_unix (m_storage m))\<rparr>)"
    for m :: "('a, 'b) manager" and env :: "('a, 'b) env" and i t peer mid conv body ty at_unix
    by (subst identity_is_same [of _ m]; simp)+
qed (simp_all add: identity_is_def emit_def manager_new_def)

text \<open>Sink calls are only ever added, whatever the node does.\<close>

interpretation calls: node_keeps "\<lambda>m. \<exists>new. m_events m = old @ new" env "\<lambda>m. \<exists>new. m_events m = old @ new" for env old
  by unfold_locales (auto simp: emit_def register_session_def relay_session_up_def Let_def)

section \<open>What the application can rely on\<close>

lemma first_start_ok:
  assumes "first_start pr"
  shows "consistent.process_ok pr" "recorded.process_ok env pr" "own.process_ok pr"
proof -
  have "keys_match c empty_storage" for c by (simp add: keys_match_def empty_storage_def)
  moreover have "own_rows empty_storage" by (simp add: own_rows_def empty_storage_def)
  ultimately show "consistent.process_ok pr" "recorded.process_ok env pr" "own.process_ok pr"
    using assms by (simp_all add: first_start_def consistent.process_ok_def recorded.process_ok_def own.process_ok_def)
qed

lemma reachable_session:
  assumes "first_start pr0" and "(process_step env)\<^sup>*\<^sup>* pr0 pr" and "pr_session pr = Some s"
  shows "manager_ok (se_manager s)" "peers_recorded env (se_manager s)" "own_rows (m_storage (se_manager s))"
  using consistent.process.steps_inv [OF assms(2) first_start_ok(1) [OF assms(1)]]
    recorded.process.steps_inv [OF assms(2) first_start_ok(2) [OF assms(1)]]
    own.process.steps_inv [OF assms(2) first_start_ok(3) [OF assms(1)]] assms(3)
  by (simp_all add: consistent.process_ok_def recorded.process_ok_def own.process_ok_def)

lemma session_on_record:
  assumes "first_start pr0" and "(process_step env)\<^sup>*\<^sup>* pr0 pr" and "pr_session pr = Some s"
    and "m_sessions (se_manager s) did = Some ps"
  shows "ps_device_id ps = did" "\<exists>key. load_device_public_key did (database pr) = Inr (Some key) \<and>
    did = device_id_from_public_key (e_crypto env) key"
proof -
  note ok = reachable_session [OF assms(1-3)]
  have db: "database pr = m_storage (se_manager s)" by (simp add: database_def assms(3))
  have "has_row dv_device_id did (devices (database pr))"
    using ok(2) assms(4) by (auto simp: peers_recorded_def db)
  then obtain d where d: "row_where dv_device_id did (devices (database pr)) = Some d"
    using row_where_None [of dv_device_id did "devices (database pr)"] by fastforce
  then have "d \<in> set (devices (database pr)) \<and> dv_device_id d = did"
    by (auto simp: row_where_def find_Some_iff)
  with d ok(2) have "load_device_public_key did (database pr) = Inr (Some (dv_public_key d)) \<and>
      did = device_id_from_public_key (e_crypto env) (dv_public_key d)"
    by (auto simp: load_device_public_key_def peers_recorded_def keys_match_def db)
  then show "\<exists>key. load_device_public_key did (database pr) = Inr (Some key) \<and>
      did = device_id_from_public_key (e_crypto env) key" by blast
  show "ps_device_id ps = did" using ok(1) assms(4) by (auto simp: manager_ok_def)
qed

text \<open>C1: whatever functions are called, whatever the network brings and however often the process ends and starts
  again, the database keeps its keys and references, a device is on record under the id of its key, and a
  peer with a live session is on record and has that id.\<close>

theorem process_invariant:
  assumes "first_start pr0" and "(process_step env)\<^sup>*\<^sup>* pr0 pr"
  shows "keys_unique (database pr) \<and> references_ok (database pr) \<and>
    (d \<in> set (devices (database pr)) \<longrightarrow> dv_device_id d = device_id_from_public_key (e_crypto env) (dv_public_key d)) \<and>
    (pr_session pr = Some s \<and> m_sessions (se_manager s) did = Some ps \<longrightarrow>
      ps_device_id ps = did \<and> (\<exists>key. load_device_public_key did (database pr) = Inr (Some key) \<and>
        did = device_id_from_public_key (e_crypto env) key))"
proof -
  have "storage_wf (database pr)"
    using consistent.database_ok [OF consistent.process.steps_inv [OF assms(2) first_start_ok(1) [OF assms(1)]]] .
  moreover have "keys_match (e_crypto env) (database pr)"
    using recorded.database_ok [OF recorded.process.steps_inv [OF assms(2) first_start_ok(2) [OF assms(1)]]] .
  ultimately show ?thesis
    using session_on_record [OF assms] by (auto simp: storage_wf_def keys_match_def)
qed

text \<open>C33: the chat history never holds a message of a peer, and no message in it is ever marked delivered: received
  texts are only reported to the queue, and a delivery acknowledgement changes no row.\<close>

theorem history_is_one_sided:
  assumes "first_start pr0" and "(process_step env)\<^sup>*\<^sup>* pr0 pr" and "r \<in> set (messages (database pr))"
  shows "ms_sender_device_id r = ''self'' \<and> ms_delivered_at r = None \<and>
    ms_status r = (if ms_read_at r = None then ''pending'' else ''read'')"
  using own.database_ok [OF own.process.steps_inv [OF assms(2) first_start_ok(3) [OF assms(1)]]] assms(3)
  by (simp add: own_rows_def)

lemma first_identity:
  assumes "first_start pr0" and "length seed = 32" and "\<And>b. length (sha512 (e_crypto env) b) = 64"
    and "init_app env sd (Inr ()) seed pr0 = (r, pr1)"
  shows "r = sd_identity sd (identity_info_of (e_crypto env) (generate (e_crypto env) seed))"
    "same.process_ok env (generate (e_crypto env) seed) pr1"
proof -
  let ?i = "generate (e_crypto env) seed"
  have l: "load_or_create_identity (e_crypto env) seed empty_storage = (Inr ?i, empty_storage\<lparr>self_identity := Some (to_stored ?i)\<rparr>)"
    by (simp add: load_or_create_identity_def save_identity_def load_identity_def empty_storage_def Let_def)
  show "r = sd_identity sd (identity_info_of (e_crypto env) ?i)"
    using assms(1,4) l by (simp add: first_start_def init_app_def database_def put_database_def)
  have pr1: "pr1 = \<lparr>pr_disk = empty_storage\<lparr>self_identity := Some (to_stored ?i)\<rparr>, pr_session = None\<rparr>"
    using assms(1,4) l by (simp add: first_start_def init_app_def database_def put_database_def)
  have "load_identity (e_crypto env) (empty_storage\<lparr>self_identity := Some (to_stored ?i)\<rparr>) = Inr (Some ?i)"
    using assms(2) assms(3) [of "seed @ ascii_bytes ''zao-p2p-noise-static-v1''"]
    by (simp add: load_identity_def from_stored_to_stored) (simp add: to_stored_def generate_def derive_noise_static_def)
  then show "same.process_ok env ?i pr1" by (simp add: same.process_ok_def pr1)
qed

lemma put_same_database [simp]: "put_database (database pr) pr = pr"
  by (cases pr; cases "pr_session pr") (simp_all add: put_database_def database_def)

lemma identity_reported:
  assumes "same.process_ok env i pr"
  shows "get_identity env sd (Inr ()) pr = sd_identity sd (identity_info_of (e_crypto env) i)"
    "init_app env sd (Inr ()) seed pr = (sd_identity sd (identity_info_of (e_crypto env) i), pr)"
    "pr_session pr = Some s \<Longrightarrow> m_identity (se_manager s) = i"
  using same.database_ok [OF assms] assms
  by (simp_all add: get_identity_def init_app_def same.process_ok_def identity_is_def)

text \<open>C24: the identity the first call of \<open>init_app\<close> makes is reported by every later call, across restarts, and is the
  one every session runs under.\<close>

theorem identity_for_good:
  assumes "first_start pr0" and "length seed = 32" and "\<And>b. length (sha512 (e_crypto env) b) = 64"
    and "init_app env sd (Inr ()) seed pr0 = (r, pr1)" and "(process_step env)\<^sup>*\<^sup>* pr1 pr"
    and "info = identity_info_of (e_crypto env) (generate (e_crypto env) seed)"
  shows "r = sd_identity sd info \<and> get_identity env sd (Inr ()) pr = sd_identity sd info \<and>
    init_app env sd (Inr ()) seed' pr = (sd_identity sd info, pr) \<and>
    (pr_session pr = Some s \<longrightarrow> m_identity (se_manager s) = generate (e_crypto env) seed)"
proof -
  note first = first_identity [OF assms(1-4)]
  show ?thesis
    using first(1) identity_reported [OF same.process.steps_inv [OF assms(5) first(2)]] by (simp add: assms(6))
qed

section \<open>A shell around the process\<close>

text \<open>What a user interface has to do so that everything shown of the process holds under it: its steps are calls of
  the public functions, whatever state of its own it keeps.\<close>

locale shell =
  fixes env :: "('h, 't) env"
    and step :: "'s \<Rightarrow> 's \<Rightarrow> bool"
    and process_of :: "'s \<Rightarrow> ('h, 't) process"
  assumes simulated: "step s s' \<Longrightarrow> (process_step env)\<^sup>*\<^sup>* (process_of s) (process_of s')"
begin

lemma run_simulated: "step\<^sup>*\<^sup>* s s' \<Longrightarrow> (process_step env)\<^sup>*\<^sup>* (process_of s) (process_of s')"
  by (induction rule: rtranclp_induct) (auto dest: simulated)

lemma identity_kept: "same.process_ok env i (process_of s) \<Longrightarrow> step\<^sup>*\<^sup>* s s' \<Longrightarrow> same.process_ok env i (process_of s')"
  by (rule same.process.steps_inv [OF run_simulated])

end

end
