(* ===== verification/Receiving.thy ===== *)
theory Receiving
  imports Transfer_Ops Delivery
begin

text \<open>
  The receiving side of a file transfer: what the chunks of a transfer do to the destination file, the
  handle, the database and the user interface, in whatever order and however often they arrive.
\<close>

section \<open>Frames and sends\<close>

lemma try_send_frame: "send_frame m (try_send env did msg m)"
  by (simp add: try_send_def send_message_frame split: option.split)

lemmas try_send_framed [simp] = try_send_frame [unfolded send_frame_def]

lemma emit_fields [simp]:
  "m_incoming (emit ev m) = m_incoming m" "m_fs (emit ev m) = m_fs m" "m_handles (emit ev m) = m_handles m"
  "m_storage (emit ev m) = m_storage m" "m_events (emit ev m) = m_events m @ [ev]"
  "m_outgoing (emit ev m) = m_outgoing m" "m_sessions (emit ev m) = m_sessions m"
  "m_answers (emit ev m) = m_answers m" "m_noise (emit ev m) = m_noise m"
  by (simp_all add: emit_def)

lemma record_chunk_fields [simp]:
  "m_incoming (record_chunk env now c a fs m) = m_incoming m"
  "m_fs (record_chunk env now c a fs m) = fs"
  "m_handles (record_chunk env now c a fs m) =
    (m_handles m)(a := mark_chunk_acked now (fc_chunk_index c) (of_nat (length (fc_payload c))) (m_handles m a))"
  "m_storage (record_chunk env now c a fs m) = db_ack (fc_transfer_id c) (fc_chunk_index c) (m_storage m)"
  "m_events (record_chunk env now c a fs m) = m_events m @ [OnTransferProgress (progress
    (mark_chunk_acked now (fc_chunk_index c) (of_nat (length (fc_payload c))) (m_handles m a)) Active)]"
  by (simp_all add: record_chunk_def update_handle_def emit_def Let_def db_ack_def)

lemma complete_incoming_fields [simp]:
  "m_incoming (complete_incoming env now src tid a m) = (m_incoming m)(tid := None)"
  "m_fs (complete_incoming env now src tid a m) = m_fs m"
  "m_handles (complete_incoming env now src tid a m) = m_handles m"
  "m_storage (complete_incoming env now src tid a m) =
    snd (update_transfer_state (e_wall env now) tid ''completed'' (th_bytes_transferred (m_handles m a)) (m_storage m))"
  "m_events (complete_incoming env now src tid a m) = m_events m @ [OnTransferComplete tid]"
  by (simp_all add: complete_incoming_def Let_def progress_def)

section \<open>The chunks of a content\<close>

definition chunk_message :: "('h, 't) env \<Rightarrow> string \<Rightarrow> bytes \<Rightarrow> u64 \<Rightarrow> file_chunk_message" where
  "chunk_message env tid content i =
     \<lparr>fc_transfer_id = tid, fc_chunk_index = i, fc_payload = chunk_of content (unat i),
      fc_checksum_sha256 = sha256 (e_crypto env) (chunk_of content (unat i))\<rparr>"

lemma chunk_message_fields [simp]:
  "fc_transfer_id (chunk_message env tid content i) = tid"
  "fc_chunk_index (chunk_message env tid content i) = i"
  "fc_payload (chunk_message env tid content i) = chunk_of content (unat i)"
  by (simp_all add: chunk_message_def)

text \<open>A transfer in progress: the chunks in \<open>A\<close> are in place and acked, not all of them are there, and the
  byte counter is what they amount to.\<close>

definition receiving :: "string \<Rightarrow> string \<Rightarrow> bytes \<Rightarrow> u64 set \<Rightarrow> ('h, 't) manager \<Rightarrow> bool" where
  "receiving tid dest content A m \<longleftrightarrow>
     (\<exists>t cur. m_incoming m tid = Some t \<and> it_dest_path t = dest \<and>
        files (m_fs m) dest = Some cur \<and> agrees (unat ` A) cur content \<and>
        th_total_chunks (m_handles m (it_handle t)) = div_ceil (of_nat (length content)) (of_nat CHUNK_SIZE) \<and>
        th_acked_chunks (m_handles m (it_handle t)) = A \<and>
        unat (th_bytes_transferred (m_handles m (it_handle t))) = acked_bytes (length content) A) \<and>
     A \<subset> in_range (of_nat (length content))"

definition received :: "string \<Rightarrow> string \<Rightarrow> bytes \<Rightarrow> ('h, 't) manager \<Rightarrow> bool" where
  "received tid dest content m \<longleftrightarrow>
     m_incoming m tid = None \<and> files (m_fs m) dest = Some content \<and>
     (\<forall>r \<in> set (file_transfers (m_storage m)). tr_transfer_id r = tid \<longrightarrow>
        tr_state r = ''completed'' \<and> tr_bytes_transferred r = int (length content))"

lemma unat_of_length: "length content < 2 ^ 63 \<Longrightarrow> unat (of_nat (length content) :: u64) = length content"
  by (simp add: unat_of_nat)

lemma unat_in_range:
  assumes "i < num_chunks n" and "n < 2 ^ 63"
  shows "i \<in> unat ` in_range (of_nat n)"
proof -
  have "i < 2 ^ 64" using assms num_chunks_le [of n] by simp
  then have "unat (of_nat i :: u64) = i" by (simp add: unat_of_nat)
  moreover have "unat (of_nat n :: u64) = n" using assms(2) by (simp add: unat_of_nat)
  ultimately show ?thesis using assms(1) by (intro image_eqI [of _ _ "of_nat i"]) (auto simp: in_range_def)
qed

lemma as_i64_small: "unat w = n \<Longrightarrow> n < 2 ^ 63 \<Longrightarrow> as_i64 w = int n"
proof -
  assume n: "unat w = n" and "n < 2 ^ 63"
  then have "unat w < 2 ^ 63" by simp
  then have "int (unat w) < int (2 ^ 63)" by (simp only: of_nat_less_iff)
  then have less: "uint w < 2 ^ 63" by simp
  have "sint w = signed_take_bit 63 (uint w)" by (subst sint_uint) simp
  also have "\<dots> = uint w"
    by (rule signed_take_bit_int_eq_self) (use less uint_nonnegative [of w] in linarith)+
  finally show ?thesis using n by (auto simp: as_i64_def)
qed

lemma mark_bytes_acked:
  assumes "unat (th_bytes_transferred h) = acked_bytes n (th_acked_chunks h)"
    and "insert i (th_acked_chunks h) \<subseteq> in_range (of_nat n)" and "n < 2 ^ 63"
  shows "unat (th_bytes_transferred (mark_chunk_acked now i (of_nat (chunk_len n (unat i))) h)) =
    acked_bytes n (insert i (th_acked_chunks h))"
proof (cases "i \<in> th_acked_chunks h")
  case True
  then show ?thesis using assms(1) by (simp add: insert_absorb)
next
  case False
  have n: "unat (of_nat n :: u64) = n" using assms(3) by (simp add: unat_of_nat)
  have fin: "finite (th_acked_chunks h)"
    using assms(2) finite_subset [OF _ finite_in_range] by blast
  have s: "acked_bytes n (insert i (th_acked_chunks h)) = chunk_len n (unat i) + acked_bytes n (th_acked_chunks h)"
    using False fin by (simp add: acked_bytes_def)
  have le: "acked_bytes n (insert i (th_acked_chunks h)) \<le> n"
    using acked_bytes_le [OF assms(2)] n by simp
  have "unat (of_nat (chunk_len n (unat i)) :: u64) = chunk_len n (unat i)"
    using s le assms(3) by (simp add: unat_of_nat)
  with s le assms(1,3) False show ?thesis by (simp add: mark_bytes unat_word_ariths)
qed

lemma updated_rows:
  assumes "r \<in> set (file_transfers (snd (update_transfer_state now tid st b db)))" and "tr_transfer_id r = tid"
  shows "tr_state r = st \<and> tr_bytes_transferred r = as_i64 b"
proof -
  have "r \<in> (\<lambda>q. if tr_transfer_id q = tid
      then q\<lparr>tr_state := st, tr_bytes_transferred := as_i64 b, tr_updated_at := now\<rparr> else q) ` set (file_transfers db)"
    using assms(1) by (simp add: update_transfer_state_def update_where_def)
  then obtain q where "r = (if tr_transfer_id q = tid
      then q\<lparr>tr_state := st, tr_bytes_transferred := as_i64 b, tr_updated_at := now\<rparr> else q)"
    by (rule imageE)
  then show ?thesis using assms(2) by (cases "tr_transfer_id q = tid") simp_all
qed

lemma chunk_received:
  assumes "receiving tid dest content A m" and "length content < 2 ^ 63"
    and "i \<in> in_range (of_nat (length content))"
    and "m' = handle_incoming_chunk env now src (chunk_message env tid content i) m"
  shows "if insert i A = in_range (of_nat (length content))
    then received tid dest content m' \<and> (\<exists>p. m_events m' = m_events m @ [OnTransferProgress p, OnTransferComplete tid])
    else receiving tid dest content (insert i A) m' \<and> (\<exists>p. m_events m' = m_events m @ [OnTransferProgress p])"
proof -
  let ?L = "length content" and ?R = "in_range (of_nat (length content) :: u64)"
  have L: "unat (of_nat ?L :: u64) = ?L" by (rule unat_of_length [OF assms(2)])
  obtain t cur where t: "m_incoming m tid = Some t" "it_dest_path t = dest" "files (m_fs m) dest = Some cur"
      "agrees (unat ` A) cur content"
      "th_total_chunks (m_handles m (it_handle t)) = div_ceil (of_nat ?L) (of_nat CHUNK_SIZE)"
      "th_acked_chunks (m_handles m (it_handle t)) = A"
      "unat (th_bytes_transferred (m_handles m (it_handle t))) = acked_bytes ?L A"
    and A: "A \<subset> ?R"
    using assms(1) by (auto simp: receiving_def)
  have i: "unat i < num_chunks ?L" using assms(3) L by (simp add: in_range_def)
  obtain fs cur' where w: "write_chunk_to_file (m_fs m) dest i (chunk_of content (unat i)) = Inr fs"
      "fs = (m_fs m)\<lparr>files := (files (m_fs m))(dest \<mapsto> cur')\<rparr>" "agrees (insert (unat i) (unat ` A)) cur' content"
    using write_chunk_agrees [OF t(3,4) i assms(2)] by blast
  let ?m3 = "record_chunk env now (chunk_message env tid content i) (it_handle t) fs m"
  let ?m4 = "try_send env src (FileChunkAck tid i) ?m3"
  let ?h = "mark_chunk_acked now i (of_nat (chunk_len ?L (unat i))) (m_handles m (it_handle t))"
  have m': "m' = (if pending_chunk_indices ?h = [] then complete_incoming env now src tid (it_handle t) ?m4 else ?m4)"
    using w(1) t(1,2)
    by (simp add: assms(4) handle_incoming_chunk_def chunk_frame_new_def chunk_frame_verify_def Let_def)
      (simp add: chunk_message_def)
  have h: "th_acked_chunks ?h = insert i A" "unat (th_total_chunks ?h) = num_chunks ?L"
    "th_total_chunks ?h = div_ceil (of_nat ?L) (of_nat CHUNK_SIZE)"
    using t(5,6) L by (simp_all add: unat_div_ceil_chunks)
  have sub: "insert i A \<subseteq> ?R" using A assms(3) by blast
  have full: "pending_chunk_indices ?h = [] \<longleftrightarrow> insert i A = ?R"
  proof -
    have "unat (th_total_chunks ?h) = num_chunks (unat (of_nat ?L :: u64))" by (simp only: h(2) L)
    moreover have "th_acked_chunks ?h \<subseteq> ?R" by (simp only: h(1) sub)
    ultimately show ?thesis using pending_Nil_iff [of ?h] by (simp only: h(1))
  qed
  have bytes: "unat (th_bytes_transferred ?h) = acked_bytes ?L (insert i A)"
    using mark_bytes_acked [of "m_handles m (it_handle t)" ?L i now] t(6,7) sub assms(2) by simp
  show ?thesis
  proof (cases "insert i A = ?R")
    case True
    have "agrees (unat ` ?R) cur' content" using w(3) True by (metis image_insert)
    then have "cur' = content"
      using unat_in_range [OF _ assms(2)] by (rule agrees_all)
    have "unat (th_bytes_transferred ?h) = ?L"
      using bytes True acked_bytes_all [of "of_nat ?L"] L by simp
    then have "as_i64 (th_bytes_transferred ?h) = int ?L" using assms(2) by (rule as_i64_small)
    then have "received tid dest content m'"
      using w(2) \<open>cur' = content\<close> full True updated_rows by (simp add: m' received_def)
    then show ?thesis using full True by (auto simp: m')
  next
    case False
    then have "receiving tid dest content (insert i A) m'"
      using w(2,3) full t(1,2) h bytes sub
      by (auto simp: m' receiving_def)
    then show ?thesis using full False by (auto simp: m')
  qed
qed

section \<open>A whole transfer\<close>

text \<open>Each arrival is an instant, the device the frame came from and the index of the chunk.\<close>

fun receive_all ::
    "('h, 't) env \<Rightarrow> string \<Rightarrow> bytes \<Rightarrow> (nat \<times> string \<times> u64) list \<Rightarrow> ('h, 't) manager \<Rightarrow> ('h, 't) manager" where
  "receive_all env tid content [] m = m"
| "receive_all env tid content ((now, src, i) # arrivals) m =
     receive_all env tid content arrivals
       (handle_incoming_chunk env now src (chunk_message env tid content i) m)"

abbreviation arrived :: "(nat \<times> string \<times> u64) list \<Rightarrow> u64 set" where
  "arrived arrivals \<equiv> (snd \<circ> snd) ` set arrivals"

definition completions :: "sink_event list \<Rightarrow> string list" where
  "completions evs = concat (map (\<lambda>e. case e of OnTransferComplete t \<Rightarrow> [t] | _ \<Rightarrow> []) evs)"

lemma completions_append [simp]: "completions (xs @ ys) = completions xs @ completions ys"
  by (simp add: completions_def)

lemma completions_simps [simp]:
  "completions [] = []" "completions [OnTransferProgress p] = []"
  "completions [OnTransferProgress p, OnTransferComplete t] = [t]"
  by (simp_all add: completions_def)

lemma unknown_chunk_ignored:
  "m_incoming m (fc_transfer_id c) = None \<Longrightarrow> handle_incoming_chunk env now src c m = m"
  by (simp add: handle_incoming_chunk_def Let_def)

lemma receive_all_unknown: "m_incoming m tid = None \<Longrightarrow> receive_all env tid content arrivals m = m"
  by (induction arrivals) (auto simp: unknown_chunk_ignored)

lemma receive_all_step:
  assumes "receiving tid dest content A m" and "length content < 2 ^ 63"
    and "arrived arrivals \<subseteq> in_range (of_nat (length content))"
  shows "let m' = receive_all env tid content arrivals m in
    \<exists>evs. m_events m' = m_events m @ evs \<and>
      (if A \<union> arrived arrivals = in_range (of_nat (length content))
       then received tid dest content m' \<and> completions evs = [tid]
       else receiving tid dest content (A \<union> arrived arrivals) m' \<and> completions evs = [])"
  using assms(1,3)
proof (induction arrivals arbitrary: A m)
  case Nil
  have "A \<noteq> in_range (of_nat (length content))" using Nil(1) by (auto simp: receiving_def)
  then show ?case using Nil(1) by simp
next
  case (Cons x arrivals)
  obtain now src i where x: "x = (now, src, i)" by (rule prod_cases3)
  let ?R = "in_range (of_nat (length content) :: u64)"
  let ?m1 = "handle_incoming_chunk env now src (chunk_message env tid content i) m"
  have i: "i \<in> ?R" and rest: "arrived arrivals \<subseteq> ?R" using Cons(3) by (simp_all add: x)
  note c = chunk_received [OF Cons(2) assms(2) i refl, of env now src]
  show ?case
  proof (cases "insert i A = ?R")
    case True
    then obtain p where e: "received tid dest content ?m1"
        "m_events ?m1 = m_events m @ [OnTransferProgress p, OnTransferComplete tid]"
      using c by auto
    then have "receive_all env tid content arrivals ?m1 = ?m1"
      by (simp add: receive_all_unknown received_def)
    moreover have "A \<union> arrived (x # arrivals) = ?R" using True rest by (auto simp: x)
    ultimately show ?thesis using e by (simp add: x)
  next
    case False
    then obtain p where e: "receiving tid dest content (insert i A) ?m1"
        "m_events ?m1 = m_events m @ [OnTransferProgress p]"
      using c by auto
    have u: "A \<union> arrived (x # arrivals) = insert i A \<union> arrived arrivals" by (simp add: x)
    obtain evs where ev: "m_events (receive_all env tid content arrivals ?m1) = m_events ?m1 @ evs"
      "if insert i A \<union> arrived arrivals = ?R
       then received tid dest content (receive_all env tid content arrivals ?m1) \<and> completions evs = [tid]
       else receiving tid dest content (insert i A \<union> arrived arrivals)
         (receive_all env tid content arrivals ?m1) \<and> completions evs = []"
      using Cons(1) [OF e(1) rest] by (auto simp: Let_def)
    have "m_events (receive_all env tid content arrivals ?m1) = m_events m @ ([OnTransferProgress p] @ evs)"
      using ev(1) e(2) by simp
    then show ?thesis unfolding u Let_def using ev(2)
      by (intro exI [of _ "[OnTransferProgress p] @ evs"]) (simp only: x receive_all.simps completions_append completions_simps append_Nil simp_thms)
  qed
qed

lemma accepted_receiving:
  assumes "accept_file env now src offer m = (r, m1)" and "fo_transfer_id offer = tid"
    and "fo_file_size offer = of_nat (length content)" and "length content < 2 ^ 63" and "content \<noteq> []"
    and "load_acked_chunks tid (m_storage m) = Inr {}" and "creatable (m_fs m) (path_join (m_downloads_dir m) tid)"
  shows "receiving tid (path_join (m_downloads_dir m) tid) content {} m1 \<and> m_events m1 = m_events m"
proof -
  let ?dest = "path_join (m_downloads_dir m) tid"
  have L: "unat (of_nat (length content) :: u64) = length content" by (rule unat_of_length [OF assms(4)])
  have p: "prepare_to_receive tid (of_nat (length content)) m =
      (Inr ?dest, m\<lparr>m_fs := (m_fs m)\<lparr>files := (files (m_fs m))(?dest \<mapsto> replicate (length content) 0)\<rparr>\<rparr>)"
    using assms(4,7) L
    by (simp add: prepare_to_receive_def preallocate_file_def andThen_def Let_def)
  have h: "incoming_handle now offer (m_storage m) =
      handle_new now tid (fo_file_name offer) (of_nat (length content))"
    using assms(2,3,6) by (simp add: incoming_handle_def)
  have range: "{} \<subset> in_range (of_nat (length content) :: u64)"
  proof -
    have "0 < num_chunks (length content)" using assms(5) num_chunks_cover [of "length content"] by (cases "num_chunks (length content)") auto
    then have "(0 :: u64) \<in> in_range (of_nat (length content))" by (simp add: in_range_def L)
    then show ?thesis by auto
  qed
  define m2 where "m2 = m\<lparr>m_fs := (m_fs m)\<lparr>files := (files (m_fs m))(?dest \<mapsto> replicate (length content) 0)\<rparr>,
        m_handles := (m_handles m)(m_next m := handle_new now tid (fo_file_name offer) (of_nat (length content))),
        m_next := Suc (m_next m),
        m_storage := snd (create_transfer (e_wall env now) tid (fo_message_id offer) (fo_file_name offer)
          (of_nat (length content)) (fo_mime_type offer) (fo_total_chunks offer) (fo_chunk_size offer)
          ''receive'' ?dest (m_storage m)),
        m_incoming := (m_incoming m)(tid \<mapsto> \<lparr>it_dest_path = ?dest, it_handle = m_next m\<rparr>)\<rparr>"
  have "snd (accept_file env now src offer m) = snd (send_to env src (FileAccept tid) m2)"
    by (simp add: accept_file_def p h Let_def assms(2,3) m2_def case_prod_beta)
  then have m1: "m1 = snd (send_to env src (FileAccept tid) m2)" using assms(1) by simp
  note f = send_to_frame [of m2 env src "FileAccept tid", unfolded send_frame_def, folded m1]
  have "receiving tid ?dest content {} m2"
    using range by (simp add: receiving_def m2_def agrees_empty acked_bytes_def handle_new_def)
  then show ?thesis using f by (simp add: receiving_def) (simp add: m2_def)
qed

text \<open>C7: after a file offer is accepted, the chunks of the content, in any order, from any stream and
  with any repetitions, end the transfer exactly when the last missing chunk arrives: the destination holds the
  content, the incoming entry is gone, the database row is completed with all bytes, and completion is
  reported once.  Until then the transfer is still receiving and nothing is reported complete.\<close>

theorem file_received:
  assumes "accept_file env now src offer m = (r, m1)" and "fo_transfer_id offer = tid"
    and "fo_file_size offer = of_nat (length content)" and "length content < 2 ^ 63" and "content \<noteq> []"
    and "load_acked_chunks tid (m_storage m) = Inr {}" and "creatable (m_fs m) (path_join (m_downloads_dir m) tid)"
    and "arrived arrivals \<subseteq> in_range (of_nat (length content))"
    and "m' = receive_all env tid content arrivals m1"
  shows "\<exists>evs. m_events m' = m_events m @ evs \<and>
    (if arrived arrivals = in_range (of_nat (length content))
     then received tid (path_join (m_downloads_dir m) tid) content m' \<and> completions evs = [tid]
     else receiving tid (path_join (m_downloads_dir m) tid) content (arrived arrivals) m' \<and> completions evs = [])"
proof -
  note a = accepted_receiving [OF assms(1-7)]
  show ?thesis
    using receive_all_step [OF conjunct1 [OF a] assms(4,8), of env]
    by (simp only: assms(9) Let_def Un_empty_left conjunct2 [OF a])
qed

text \<open>An offer of three bytes, accepted on a fresh device.\<close>

definition small_offer :: file_offer where
  "small_offer = \<lparr>fo_transfer_id = ''t'', fo_message_id = ''m'', fo_conversation_id = ''c'', fo_file_name = ''f'',
     fo_file_size = of_nat (length [1, 2, 3 :: u8]), fo_mime_type = ''x'', fo_total_chunks = 1, fo_chunk_size = of_nat CHUNK_SIZE,
     fo_relative_path = ''f'', fo_folder_batch_id = None\<rparr>"

lemma in_range_3: "in_range (of_nat (length [1, 2, 3 :: u8])) = {0}"
proof -
  have "unat (of_nat (length [1, 2, 3 :: u8]) :: u64) = Suc (Suc (Suc 0))" by simp
  then show ?thesis unfolding in_range_def using num_chunks_3 by (auto simp: word_unat_eq_iff numeral_3_eq_3)
qed

theorem file_received_witness:
  "received ''t'' (path_join (m_downloads_dir toy_manager) ''t'') [1, 2, 3]
     (receive_all toy_env ''t'' [1, 2, 3] [(1, ''peer'', 0), (2, ''peer'', 0)]
       (snd (accept_file toy_env 0 ''peer'' small_offer toy_manager)))"
proof -
  obtain r m1 where a: "accept_file toy_env 0 ''peer'' small_offer toy_manager = (r, m1)" by (rule prod.exhaust)
  let ?arr = "[(1, ''peer'', 0), (2, ''peer'', 0)]"
  have "\<exists>evs. m_events (receive_all toy_env ''t'' [1, 2, 3] ?arr m1) = m_events toy_manager @ evs \<and>
    (if arrived ?arr = in_range (of_nat (length [1, 2, 3 :: u8]))
     then received ''t'' (path_join (m_downloads_dir toy_manager) ''t'') [1, 2, 3]
       (receive_all toy_env ''t'' [1, 2, 3] ?arr m1) \<and> completions evs = [''t'']
     else receiving ''t'' (path_join (m_downloads_dir toy_manager) ''t'') [1, 2, 3] (arrived ?arr)
       (receive_all toy_env ''t'' [1, 2, 3] ?arr m1) \<and> completions evs = [])"
  proof (rule file_received [OF a _ _ _ _ _ _ _ refl])
    show "load_acked_chunks ''t'' (m_storage toy_manager) = Inr {}"
      by (simp add: toy_manager_def empty_storage_def load_acked_chunks_def)
    show "arrived ?arr \<subseteq> in_range (of_nat (length [1, 2, 3 :: u8]))" unfolding in_range_3 by simp
  qed (simp_all add: small_offer_def toy_manager_def)
  then show ?thesis unfolding in_range_3 a by auto
qed

end
