(* ===== verification/Sending.thy ===== *)
theory Sending
  imports Receiving
begin

text \<open>
  The sending side of a file transfer and what a reconnection or a cancel makes of it: the task of one chunk
  with the writer task of its stream, the entries of the automatic resume, the manifest of a folder offer, and
  a cancel that reaches the receiver in the middle of a transfer.
\<close>

section \<open>A chunk too long for a Noise message\<close>

lemma stream_writer_refuses_chunk:
  assumes "snow_laws (e_snow env) view box" and "wire_chunk_array (e_wire env)"
    and "n_out (view t) < 2 ^ 64 - 1" and "32759 < length (fc_payload c)"
  shows "\<exists>alive s. stream_writer env can_write (Transport t) [FileChunk c] = ([], alive, s)"
proof (cases "encode_plaintext (e_wire env) (FileChunk c)")
  case (Inr b)
  then show ?thesis using full_chunk_not_encryptable [OF assms(1-3) Inr assms(4)] by auto
next
  case (Inl e)
  then show ?thesis by (intro exI) simp
qed

text \<open>C28: when a chunk is longer than 32,759 bytes, as every full chunk is, the task that sends it succeeds and the
  chunk counts as sent, in the handle and in the database, but the stream's writer puts nothing on the
  stream.\<close>

theorem long_chunk_acked_not_sent:
  assumes "snow_laws (e_snow env) view box" and "wire_chunk_array (e_wire env)"
    and "m_noise m a = Transport t" and "n_out (view t) < 2 ^ 64 - 1"
    and "m_streams m (c, tid) = Some \<lparr>st_queue = [], st_written = w, st_running = True\<rparr>"
    and "read_chunk_from_source (m_fs m) src i = Inr payload" and "32759 < length payload"
    and "chunk_task env now c tid src h i m = (r, m1)" and "m2 = run_stream_writer env can_write a c tid m1"
  shows "r = Inr () \<and> i \<in> acked_chunk_set (m_handles m2 h) \<and> m_storage m2 = db_ack tid i (m_storage m) \<and>
    (\<exists>alive. m_streams m2 (c, tid) = Some \<lparr>st_queue = [], st_written = w, st_running = alive\<rparr>)"
proof -
  let ?c = "\<lparr>fc_transfer_id = tid, fc_chunk_index = i, fc_payload = payload,
    fc_checksum_sha256 = sha256 (e_crypto env) payload\<rparr>"
  have q: "r = Inr ()" "m_streams m1 (c, tid) = Some \<lparr>st_queue = [FileChunk ?c], st_written = w, st_running = True\<rparr>"
    "m_noise m1 a = Transport t" "i \<in> th_acked_chunks (m_handles m1 h)" "m_storage m1 = db_ack tid i (m_storage m)"
    using assms(3,5,6,8)
    by (auto simp: chunk_task_def stream_send_def chunk_frame_new_def update_handle_def emit_def Let_def db_ack_def
        mark_chunk_acked_def record_speed_sample_def)
  obtain alive s where "stream_writer env can_write (Transport t) [FileChunk ?c] = ([], alive, s)"
    using stream_writer_refuses_chunk [OF assms(1,2,4), of ?c can_write] assms(7)
    by (auto simp del: stream_writer.simps)
  then show ?thesis
    using q by (simp add: assms(9) run_stream_writer_def acked_chunk_set_def del: stream_writer.simps)
qed

text \<open>A chunk of 40,000 bytes on a device with one open stream.\<close>

definition long_env :: "(bytes, noise_view) env" where
  "long_env = \<lparr>e_wire = toy_wire, e_snow = toy_snow, e_crypto = toy_crypto, e_sig = toy_sig, e_wall = (\<lambda>now. 0)\<rparr>"

definition long_manager :: "(bytes, noise_view) manager" where
  "long_manager = toy_manager\<lparr>m_fs := \<lparr>files = [''/f'' \<mapsto> replicate 40000 7], creatable = (\<lambda>_. True)\<rparr>,
     m_streams := [(OnConnection 0, ''t'') \<mapsto> \<lparr>st_queue = [], st_written = [], st_running = True\<rparr>]\<rparr>"

lemma long_payload: "read_chunk_from_source (m_fs long_manager) (Path ''/f'') 0 = Inr (replicate 40000 7)"
  by (simp add: long_manager_def read_chunk_from_source_def chunk_offset_def CHUNK_SIZE_def seek_ok_def)

theorem long_chunk_acked_not_sent_witness:
  "let (r, m1) = chunk_task long_env 1 (OnConnection 0) ''t'' (Path ''/f'') 0 0 long_manager in
     r = Inr () \<and> 0 \<in> acked_chunk_set (m_handles (run_stream_writer long_env (\<lambda>_. True) 0 (OnConnection 0) ''t'' m1) 0)"
proof -
  obtain r m1 where c: "chunk_task long_env 1 (OnConnection 0) ''t'' (Path ''/f'') 0 0 long_manager = (r, m1)"
    by (rule prod.exhaust)
  have "r = Inr () \<and> 0 \<in> acked_chunk_set (m_handles (run_stream_writer long_env (\<lambda>_. True) 0 (OnConnection 0) ''t'' m1) 0)"
    using long_chunk_acked_not_sent [OF _ _ _ _ _ long_payload _ c refl, where view = "\<lambda>t. t" and box = toy_box and
        t = toy_view and w = "[]" and a = 0 and can_write = "\<lambda>_. True"]
    by (simp add: long_env_def long_manager_def toy_manager_def toy_view_def)
  then show ?thesis by (simp only: c Let_def prod.case)
qed

section \<open>Automatic resume\<close>

text \<open>C26: on a reconnection an entry of the resumable list is taken up exactly if it is a transfer this device
  sends to that peer, that is not running already and whose file has a path; it then runs with a handle
  of its own whose chunks left to send are the chunks of the file without an ack in the database.  Any
  other entry changes nothing.\<close>

theorem auto_resume_sends_the_rest:
  assumes "load_transfer_meta tid (m_storage m) = Inr (Some (name, total_bytes, path))"
    and "load_acked_chunks tid (m_storage m) = Inr acked"
    and "auto_resume_entry now did (tid, peer, direction, local_path) m = (res, m')"
  shows "if peer = did \<and> direction = ''send'' \<and> m_outgoing m tid = None \<and> take 3 local_path \<noteq> ''fd:''
    then res = Some (m_next m) \<and>
      m_outgoing m' = (m_outgoing m)(tid \<mapsto> \<lparr>ot_source = Path local_path, ot_handle = m_next m, ot_accept_tx = None\<rparr>) \<and>
      pending_chunk_indices (m_handles m' (m_next m)) =
        filter (\<lambda>i. i \<notin> acked) (pending_chunk_indices (handle_new now tid name total_bytes)) \<and>
      m_storage m' = m_storage m \<and> m_events m' = m_events m
    else res = None \<and> m' = m"
proof (cases "peer = did \<and> direction = ''send'' \<and> m_outgoing m tid = None \<and> take 3 local_path \<noteq> ''fd:''")
  case True
  then have s: "res = Some (m_next m)" "m' = m\<lparr>m_handles := (m_handles m)(m_next m :=
        resume_from_manifest now tid name total_bytes acked), m_next := Suc (m_next m),
      m_outgoing := (m_outgoing m)(tid \<mapsto> \<lparr>ot_source = Path local_path, ot_handle = m_next m, ot_accept_tx = None\<rparr>)\<rparr>"
    using assms by (auto simp: auto_resume_entry_def Let_def)
  have "pending_chunk_indices (resume_from_manifest now tid name total_bytes acked) =
      filter (\<lambda>i. i \<notin> acked) (pending_chunk_indices (handle_new now tid name total_bytes))"
    by (simp add: pending_chunk_indices_def resume_from_manifest_def handle_new_def Let_def)
  then show ?thesis using True by (simp add: s)
next
  case False
  then show ?thesis using assms(3) by (auto simp: auto_resume_entry_def split: if_splits)
qed

text \<open>The transfer of two chunks in the sample database, one of them acked.\<close>

definition resuming_toy :: "(bytes, noise_view) manager" where
  "resuming_toy = toy_manager\<lparr>m_storage := empty_storage\<lparr>
     file_transfers := [sample_transfer], chunk_manifest := [\<lparr>mf_transfer_id = ''t'', mf_chunk_index = 0, mf_acked = 1\<rparr>]\<rparr>\<rparr>"

theorem auto_resume_sends_the_rest_witness:
  "let m' = snd (auto_resume_entry 5 ''peer'' (''t'', ''peer'', ''send'', ''/f'') resuming_toy) in
     pending_chunk_indices (m_handles m' (m_next resuming_toy)) =
       filter (\<lambda>i. i \<notin> {0}) (pending_chunk_indices (handle_new 5 ''t'' ''f'' (as_u64 (3 * int CHUNK_SIZE))))"
proof -
  obtain res m' where e: "auto_resume_entry 5 ''peer'' (''t'', ''peer'', ''send'', ''/f'') resuming_toy = (res, m')"
    by (rule prod.exhaust)
  have meta: "load_transfer_meta ''t'' (m_storage resuming_toy) = Inr (Some (''f'', as_u64 (3 * int CHUNK_SIZE), ''/f''))"
    by (simp add: resuming_toy_def load_transfer_meta_def sample_transfer_def row_where_def)
  have acked: "load_acked_chunks ''t'' (m_storage resuming_toy) = Inr {0}"
    by (simp add: resuming_toy_def load_acked_chunks_def as_u64_def)
  have "m_outgoing resuming_toy ''t'' = None" by (simp add: resuming_toy_def toy_manager_def)
  then show ?thesis using auto_resume_sends_the_rest [OF meta acked e] by (simp add: e)
qed

section \<open>A cancel that reaches the receiver\<close>


lemma small_offer_receiving:
  "receiving ''t'' (path_join (m_downloads_dir toy_manager) ''t'') [1, 2, 3] {}
     (snd (accept_file toy_env 0 ''peer'' small_offer toy_manager))"
proof -
  obtain r m1 where a: "accept_file toy_env 0 ''peer'' small_offer toy_manager = (r, m1)" by (rule prod.exhaust)
  have "receiving ''t'' (path_join (m_downloads_dir toy_manager) ''t'') [1, 2, 3] {} m1"
    by (rule conjunct1 [OF accepted_receiving [OF a]])
      (simp_all add: small_offer_def toy_manager_def empty_storage_def load_acked_chunks_def)
  then show ?thesis by (simp add: a)
qed


section \<open>The manifest of a folder offer\<close>

lemma entry_at_files:
  "x \<in> set (files_under p e) \<Longrightarrow> names_ok e \<Longrightarrow>
    \<exists>q n. x = p @ q \<and> entry_at e q = Some (RegularFile n)"
  "x \<in> set (files_in p es) \<Longrightarrow> names_ok_in es \<Longrightarrow>
    \<exists>nm e q n. (nm, e) \<in> set es \<and> x = p @ nm # q \<and> entry_at e q = Some (RegularFile n)"
proof (induction p e and p es rule: files_under_files_in.induct)
  case (4 p es)
  then obtain nm e q n where *: "(nm, e) \<in> set es" "x = p @ nm # q" "entry_at e q = Some (RegularFile n)" by auto
  have "map_of es nm = Some e" using 4(3) *(1) by (auto intro: map_of_is_SomeI)
  then have "entry_at (Directory es) (nm # q) = Some (RegularFile n)" using *(3) by simp
  then show ?case using *(2) by blast
next
  case (6 p nm e es)
  then show ?case by fastforce
qed auto

definition size_at :: "path \<Rightarrow> entry \<Rightarrow> path \<Rightarrow> u64" where
  "size_at dir tree f = (case entry_at tree (drop (length dir) f) of Some (RegularFile n) \<Rightarrow> n | _ \<Rightarrow> 0)"

lemma folder_manifest_map:
  assumes "\<And>f. f \<in> set fs \<Longrightarrow> \<exists>n. entry_at tree (drop (length dir) f) = Some (RegularFile n)"
  shows "folder_manifest sep dir tree fs = Inr
    (map (\<lambda>f. \<lparr>fe_relative_path = relative_path_string sep f dir, fe_file_size = size_at dir tree f,
        fe_mime_type = mime_guess_from_extension f\<rparr>) fs, sum_list (map (size_at dir tree) fs))"
  using assms
proof (induction fs)
  case (Cons f fs)
  then obtain n where "entry_at tree (drop (length dir) f) = Some (RegularFile n)" by fastforce
  with Cons show ?case by (simp add: size_at_def andThen_def)
qed simp


definition small_tree :: entry where
  "small_tree = Directory [(''a.txt'', RegularFile 3), (''l'', SymLink), (''s'', Directory [(''b'', RegularFile 4)])]"


end
