(* ===== verification/Usage.thy ===== *)
theory Usage
  imports App Sending
begin

text \<open>
  What single functions of core/src/ffi.rs give their caller in a reachable process: sending a text, polling the
  events, the progress from the database, sealed messages between two devices that have met.  At the end a
  run of the process for the witnesses.
\<close>

section \<open>Sending a text\<close>

text \<open>A text as it is sent and as it is stored, from the instant, its id and its body.\<close>

definition text_for :: "('h, 't) env \<Rightarrow> string \<Rightarrow> nat \<times> string \<times> string \<Rightarrow> text_message" where
  "text_for env peer = (\<lambda>(now, mid, body).
     \<lparr>tm_message_id = mid, tm_conversation_id = peer, tm_body = body, tm_sent_at_unix = unix_secs env now\<rparr>)"

definition text_row :: "('h, 't) env \<Rightarrow> string \<Rightarrow> nat \<times> string \<times> string \<Rightarrow> message_row" where
  "text_row env peer = (\<lambda>(now, mid, body).
     \<lparr>ms_message_id = mid, ms_conversation_id = peer, ms_sender_device_id = ''self'', ms_body = ascii_bytes body,
      ms_type = ''text'', ms_sent_at = as_i64 (unix_secs env now), ms_delivered_at = None, ms_read_at = None,
      ms_status = ''pending''\<rparr>)"

text \<open>What the caller of a text that went out is told.\<close>

definition sent_reply :: "serde \<Rightarrow> nat \<times> string \<times> string \<Rightarrow> string + string" where
  "sent_reply sd = (\<lambda>(now, mid, body). sd_value sd (JObj [(''status'', JStr ''sent''), (''message_id'', JStr mid)]))"

lemma text_stored:
  assumes "has_row dv_device_id peer (devices (m_storage m))" and "\<not> has_row ms_message_id mid (messages (m_storage m))"
  shows "\<exists>db. devices db = devices (m_storage m) \<and> has_row cv_conversation_id peer (conversations db) \<and>
    messages db = messages (m_storage m) @ [text_row env peer (now, mid, body)] \<and>
    send_text_message env sd now mid peer body m =
      (case send_to env peer (Text (text_for env peer (now, mid, body))) (m\<lparr>m_storage := db\<rparr>) of
         (r, m1) \<Rightarrow> (andThen (shown r) (\<lambda>_. sent_reply sd (now, mid, body)), m1))"
proof -
  define dbc where "dbc = snd (get_or_create_conversation (e_wall env now) peer (m_storage m))"
  have c: "get_or_create_conversation (e_wall env now) peer (m_storage m) = (Inr peer, dbc)"
      "messages dbc = messages (m_storage m)" "devices dbc = devices (m_storage m)"
      "has_row cv_conversation_id peer (conversations dbc)"
    using assms(1) by (simp_all add: dbc_def get_or_create_conversation_def store_simps)
  obtain db where "insert_own mid peer body ''text'' (unix_secs env now) dbc = (Inr (), db)"
      "devices db = devices dbc" "conversations db = conversations dbc" "messages db = messages dbc @ [text_row env peer (now, mid, body)]"
    using c(2,4) assms(2) by (simp add: insert_message_def text_row_def)
  then show ?thesis
    using c by (intro exI [of _ db]) (simp add: send_text_message_def text_for_def sent_reply_def Let_def)
qed

text \<open>C10: a text to a device that is on record is stored exactly once, as pending, before it is sent, and stays stored
  when sending fails; the reply says whether it went out.  A device with a session is on record.  To any other
  device nothing is stored and nothing sent: the call fails on a foreign key.\<close>

theorem text_stored_then_sent:
  assumes "first_start pr0" and "(process_step env)\<^sup>*\<^sup>* pr0 pr" and "pr_session pr = Some s"
    and "m = se_manager s" and "\<not> has_row ms_message_id mid (messages (m_storage m))"
    and "send_text_message env sd now mid peer body m = (r, m')"
  shows "(is_connected peer m \<longrightarrow> has_row dv_device_id peer (devices (m_storage m))) \<and>
    (if has_row dv_device_id peer (devices (m_storage m))
     then messages (m_storage m') = messages (m_storage m) @
         [\<lparr>ms_message_id = mid, ms_conversation_id = peer, ms_sender_device_id = ''self'', ms_body = ascii_bytes body,
           ms_type = ''text'', ms_sent_at = as_i64 (unix_secs env now), ms_delivered_at = None, ms_read_at = None,
           ms_status = ''pending''\<rparr>] \<and>
       has_row cv_conversation_id peer (conversations (m_storage m')) \<and>
       (\<exists>sent. send_to env peer (Text \<lparr>tm_message_id = mid, tm_conversation_id = peer, tm_body = body,
            tm_sent_at_unix = unix_secs env now\<rparr>) (m\<lparr>m_storage := m_storage m'\<rparr>) = (sent, m') \<and>
          r = (case sent of Inl e \<Rightarrow> Inl (display_error e)
             | Inr _ \<Rightarrow> sd_value sd (JObj [(''status'', JStr ''sent''), (''message_id'', JStr mid)])))
     else r = Inl ''database error: FOREIGN KEY constraint failed'' \<and> m' = m)"
    (is "_ \<and> (if _ then ?stored else _)")
proof -
  let ?db = "m_storage m"
  note ok = reachable_session [OF assms(1-3)]
  have "is_connected peer m \<longrightarrow> has_row dv_device_id peer (devices ?db)"
    using ok(2) by (auto simp: assms(4) is_connected_def peers_recorded_def)
  moreover have "has_row cv_conversation_id peer (conversations ?db) \<Longrightarrow> has_row dv_device_id peer (devices ?db)"
    using ok(1,3) by (auto simp: assms(4) manager_ok_def storage_wf_def references_ok_def own_rows_def has_row_iff)
  then have "r = Inl ''database error: FOREIGN KEY constraint failed'' \<and> m' = m"
    if "\<not> has_row dv_device_id peer (devices ?db)"
    using that assms(6) by (auto simp: send_text_message_def get_or_create_conversation_def foreign_key_failed_def split: if_splits)
  moreover have "?stored" if dev: "has_row dv_device_id peer (devices ?db)"
  proof -
    obtain db where db: "has_row cv_conversation_id peer (conversations db)"
        "messages db = messages ?db @ [text_row env peer (now, mid, body)]"
        "send_text_message env sd now mid peer body m =
          (case send_to env peer (Text (text_for env peer (now, mid, body))) (m\<lparr>m_storage := db\<rparr>) of
             (r, m1) \<Rightarrow> (andThen (shown r) (\<lambda>_. sent_reply sd (now, mid, body)), m1))"
      using text_stored [OF dev assms(5)] by blast
    obtain sent m1 where t: "send_to env peer (Text (text_for env peer (now, mid, body))) (m\<lparr>m_storage := db\<rparr>) = (sent, m1)"
      by (rule prod.exhaust)
    then have "m_storage m1 = db" "m1 = m'"
      using send_to_frame [of "m\<lparr>m_storage := db\<rparr>" env peer "Text (text_for env peer (now, mid, body))"] assms(6) db(3)
      by (simp_all add: send_frame_def)
    with db t assms(6) show ?thesis by (cases sent) (auto simp: text_row_def text_for_def sent_reply_def)
  qed
  ultimately show ?thesis by (simp split: if_split)
qed

section \<open>Polling\<close>

text \<open>The specification: a log of events with a reading position.\<close>

definition queue_refines :: "app_event list \<Rightarrow> nat \<Rightarrow> ('h, 't) manager \<Rightarrow> bool" where
  "queue_refines hist pos m \<longleftrightarrow> pos \<le> length hist \<and> sink_queue m = drop pos hist"

text \<open>C11: the queue of events refines a log that is only ever extended, with a reading position: a sink call extends
  the log by its event, every other step of the node by the events of its sink calls, and a poll returns what
  was not read yet and moves the position to the end; so every event is polled exactly once and in order.\<close>

theorem queue_refines_log:
  "queue_refines [] 0 (manager_new identity downloads_dir db fs unused) \<and>
   (queue_refines hist pos m \<longrightarrow> queue_refines (hist @ [to_app_event ev]) pos (emit ev m)) \<and>
   (queue_refines hist pos m \<and> node_step env m m' \<longrightarrow> (\<exists>new. queue_refines (hist @ new) pos m')) \<and>
   (queue_refines hist pos m \<longrightarrow>
      fst (poll_events sd m) = sd_events sd (drop pos hist) \<and> queue_refines hist (length hist) (snd (poll_events sd m)))"
proof (intro conjI impI)
  assume r: "queue_refines hist pos m \<and> node_step env m m'"
  then obtain new where "m_events m' = m_events m @ new"
    using calls.node_step_keeps [of env m m' "m_events m"] by auto
  then have "sink_queue m' = sink_queue m @ map to_app_event new" by (simp add: sink_queue_def)
  then show "\<exists>new. queue_refines (hist @ new) pos m'"
    using r by (intro exI [of _ "map to_app_event new"]) (simp add: queue_refines_def)
qed (auto simp: queue_refines_def poll_events_def sink_drain_def sink_queue_def manager_new_def emit_def)

section \<open>Progress from the database\<close>

text \<open>Chunks of a file: counted as full ones they cover it exactly if they are all there, and they are at least as long
  as they are.\<close>

lemma acked_chunks_bounds:
  fixes acked :: "u64 set"
  assumes "unat ` acked \<subseteq> {..<num_chunks tot}"
  shows "card acked \<le> num_chunks tot"
    "unat ` acked = {..<num_chunks tot} \<longleftrightarrow> tot \<le> card acked * CHUNK_SIZE"
    "(\<Sum>i\<in>acked. chunk_len tot (unat i)) \<le> min (card acked * CHUNK_SIZE) tot"
proof -
  have inj: "inj_on unat acked" by (rule inj_onI) (simp add: word_unat_eq_iff)
  then have card: "card (unat ` acked) = card acked" by (rule card_image)
  show le: "card acked \<le> num_chunks tot" using card_mono [OF _ assms] card by simp
  have "card acked = num_chunks tot \<Longrightarrow> unat ` acked = {..<num_chunks tot}"
    using card_subset_eq [OF _ assms] card by simp
  then show "unat ` acked = {..<num_chunks tot} \<longleftrightarrow> tot \<le> card acked * CHUNK_SIZE"
    using le card lt_num_chunks [of "card acked" tot] num_chunks_cover [of tot] by (metis card_lessThan le_neq_implies_less not_le)
  have "(\<Sum>i\<in>acked. chunk_len tot (unat i)) \<le> (\<Sum>i\<in>acked. CHUNK_SIZE)"
    by (rule sum_mono) (simp add: chunk_len_def)
  moreover have "(\<Sum>i\<in>acked. chunk_len tot (unat i)) = (\<Sum>i\<in>unat ` acked. chunk_len tot i)"
    by (simp add: sum.reindex [OF inj])
  moreover have "(\<Sum>i\<in>unat ` acked. chunk_len tot i) \<le> (\<Sum>i<num_chunks tot. chunk_len tot i)"
    using assms by (intro sum_mono2) auto
  ultimately show "(\<Sum>i\<in>acked. chunk_len tot (unat i)) \<le> min (card acked * CHUNK_SIZE) tot" by (simp add: sum_chunk_len)
qed


section \<open>Sealed messages between devices that have met\<close>

lemma sealed_message_opens:
  assumes "load_identity (e_crypto env) (database pb) = Inr (Some bob)"
    and "dh_agrees (e_crypto env)" and "x_keys_32 (e_crypto env)" and "aead_correct (e_crypto env)"
    and "\<And>b. hex_decode (hex_encode (e_crypto env) b) = Inr b" and "length nonce = 12" and "utf8_valid (ascii_bytes body)"
    and "ble_seal_message (e_crypto env) hex_decode eph nonce
       (hex_encode (e_crypto env) (noise_public (e_crypto env) bob)) body = Inr sealed"
  shows "ble_open_message env hex_decode utf8_error (Inr ()) sealed pb = Inr body"
proof -
  let ?c = "e_crypto env"
  obtain ct where ct: "aead_encrypt ?c (derive_symmetric_key ?c (x_dh ?c eph (noise_public ?c bob))) nonce
      (ascii_bytes body) = Inr ct" "sealed = hex_encode ?c (x_public ?c eph @ nonce @ ct)"
    using assms(8)
    by (auto simp: ble_seal_message_def assms(5) andThen_Inr_iff map_err_def seal_Inr_iff split: if_splits sum.splits)
  have "x_dh ?c (di_noise_static bob) (x_public ?c eph) = x_dh ?c eph (noise_public ?c bob)"
    using assms(2) by (simp add: dh_agrees_def noise_public_def)
  then have "open_sealed ?c (di_noise_static bob) (x_public ?c eph @ nonce @ ct) = Inr (ascii_bytes body)"
    using assms(4) ct(1) by (simp add: open_sealed_parts [OF assms(3,6)] aead_correct_def)
  then show ?thesis
    by (simp add: ble_open_message_def assms(1,5) ct(2) from_utf8_def assms(7))
qed

text \<open>C21: a device that has a session with a peer finds under its id the key the peer's mesh messages are opened
  with, and what it seals to that key the peer reads, unless the key on record only has the same digest.\<close>

theorem mesh_message_read:
  assumes "first_start pa0" and "(process_step env)\<^sup>*\<^sup>* pa0 pa" and "pr_session pa = Some s"
    and "m_sessions (se_manager s) did = Some ps"
    and "load_identity (e_crypto env) (database pb) = Inr (Some bob)"
    and "did = device_id_from_public_key (e_crypto env) (noise_public (e_crypto env) bob)"
    and "\<And>key. load_device_public_key did (database pa) = Inr (Some key) \<Longrightarrow>
      no_collision (e_crypto env) key (noise_public (e_crypto env) bob)"
    and "dh_agrees (e_crypto env)" and "x_keys_32 (e_crypto env)" and "aead_correct (e_crypto env)"
    and "\<And>b. hex_decode (hex_encode (e_crypto env) b) = Inr b" and "length nonce = 12" and "utf8_valid (ascii_bytes body)"
  shows "fst (get_known_device_public_key (e_crypto env) did (se_manager s)) =
      Inr (hex_encode (e_crypto env) (noise_public (e_crypto env) bob)) \<and>
    (ble_seal_message (e_crypto env) hex_decode eph nonce
       (hex_encode (e_crypto env) (noise_public (e_crypto env) bob)) body = Inr sealed \<longrightarrow>
     ble_open_message env hex_decode utf8_error (Inr ()) sealed pb = Inr body)"
proof (intro conjI impI)
  let ?c = "e_crypto env"
  obtain key where key: "load_device_public_key did (database pa) = Inr (Some key)" "did = device_id_from_public_key ?c key"
    using session_on_record(2) [OF assms(1-4)] by blast
  have "key = noise_public ?c bob"
    using assms(6) key(2) assms(7) [OF key(1)] by (auto simp: device_id_from_public_key_def no_collision_def)
  then show "fst (get_known_device_public_key ?c did (se_manager s)) = Inr (hex_encode ?c (noise_public ?c bob))"
    using key(1) by (simp add: get_known_device_public_key_def database_def assms(3))
  assume "ble_seal_message ?c hex_decode eph nonce (hex_encode ?c (noise_public ?c bob)) body = Inr sealed"
  then show "ble_open_message env hex_decode utf8_error (Inr ()) sealed pb = Inr body"
    by (rule sealed_message_opens [OF assms(5,8-13)])
qed

section \<open>A run of the process\<close>

definition person :: "u8 \<Rightarrow> device_identity" where
  "person k = generate toy_crypto (replicate 32 k)"

definition bob_id :: string where
  "bob_id = device_id_from_public_key toy_crypto (noise_public toy_crypto (person 6))"

text \<open>An encoder that tells two texts to that person apart.\<close>

definition app_env :: "(bytes \<times> bytes option, noise_view) env" where
  "app_env = xx_env\<lparr>e_wire :=
     \<lparr>to_vec = (\<lambda>m. Inr (case m of Text t \<Rightarrow> if tm_message_id t = ''m1'' then [2] else [3] | _ \<Rightarrow> [1])),
      from_slice = (\<lambda>b. Inr (if b = [1] then Ping else Text \<lparr>tm_message_id = if b = [2] then ''m1'' else ''m2'',
        tm_conversation_id = bob_id, tm_body = if b = [2] then ''hi'' else ''you'', tm_sent_at_unix = 0\<rparr>))\<rparr>\<rparr>"

definition toy_serde :: serde where
  "toy_serde = \<lparr>sd_value = (\<lambda>_. Inr ''value''), sd_identity = (\<lambda>i. Inr (ii_device_id i)), sd_peers = (\<lambda>_. Inr ''peers''),
     sd_events = (\<lambda>evs. Inr (if length evs = 1 then ''one event'' else ''events'')), sd_messages = (\<lambda>_. Inr ''messages''), sd_ids = (\<lambda>_. Inr ''ids'')\<rparr>"

definition installed :: "(bytes \<times> bytes option, noise_view) process" where
  "installed = \<lparr>pr_disk = empty_storage, pr_session = None\<rparr>"

definition started :: "u8 \<Rightarrow> (bytes \<times> bytes option, noise_view) process" where
  "started k = snd (start_networking app_env toy_serde (Inr ()) (replicate 32 k) (Inr ()) (Inr (4433, ''0.0.0.0:4433''))
     (Inr ()) ''/d'' \<lparr>files = Map.empty, creatable = (\<lambda>_. True)\<rparr> (Transport toy_view) installed)"

definition person_manager :: "u8 \<Rightarrow> (bytes \<times> bytes option, noise_view) manager" where
  "person_manager k = manager_new (person k) ''/d'' (empty_storage\<lparr>self_identity := Some (to_stored (person k))\<rparr>)
     \<lparr>files = Map.empty, creatable = (\<lambda>_. True)\<rparr> (Transport toy_view)"

lemma app_env_simps [simp]:
  "e_crypto app_env = toy_crypto" "e_snow app_env = toy_xx"
  by (simp_all add: app_env_def xx_env_def)

lemma started_eq:
  "started k = \<lparr>pr_disk = empty_storage\<lparr>self_identity := Some (to_stored (person k))\<rparr>,
     pr_session = Some \<lparr>se_manager = person_manager k, se_peers = Map.empty, se_local_addr = ''0.0.0.0:4433''\<rparr>\<rparr>"
  by (simp add: started_def start_networking_def installed_def load_or_create_identity_def load_identity_def
      save_identity_def database_def put_database_def person_manager_def person_def empty_storage_def Let_def)

text \<open>The person of key 5 dials the one of key 6.\<close>

definition met_manager :: "(bytes \<times> bytes option, noise_view) manager" where
  "met_manager = snd (connect_to_peer app_env 1 (Inr (0, honest_stream (second_message app_env (person 6)))) bob_id (person_manager 5))"

definition met :: "(bytes \<times> bytes option, noise_view) process" where
  "met = (started 5)\<lparr>pr_session := Some \<lparr>se_manager = met_manager, se_peers = Map.empty, se_local_addr = ''0.0.0.0:4433''\<rparr>\<rparr>"

lemma installed_first: "first_start installed"
  by (simp add: first_start_def installed_def)

lemma met_reachable: "(process_step app_env)\<^sup>*\<^sup>* installed met"
proof -
  have "process_step app_env installed (started 5)" unfolding started_def by (rule starting)
  moreover have "process_step app_env (started 5) met"
    using around [OF network [OF _ dialling], of "started 5" _ app_env 1 "Inr (0, honest_stream (second_message app_env (person 6)))" bob_id]
    by (simp add: met_def started_eq met_manager_def)
  ultimately show ?thesis by (meson r_into_rtranclp rtranclp_trans)
qed

lemma person_manager_simps [simp]:
  "m_identity (person_manager k) = person k" "m_sessions (person_manager k) = Map.empty"
  "m_storage (person_manager k) = empty_storage\<lparr>self_identity := Some (to_stored (person k))\<rparr>"
  "m_next (person_manager k) = 0"
  by (simp_all add: person_manager_def manager_new_def)

lemma met_dialled:
  "\<exists>ti. connect_to_peer app_env 1 (Inr (0, honest_stream (second_message app_env (person 6)))) bob_id (person_manager 5) =
     (Inr (), register_session app_env 1 bob_id (noise_public toy_crypto (person 6)) 0 (Transport ti) (person_manager 5))"
proof -
  have law: "xx_law (e_snow app_env) (\<lambda>t. t) (x_public (e_crypto app_env))"
    using toy_xx_law by (simp add: xx_env_def)
  have "bob_id = device_id_from_public_key (e_crypto app_env) (noise_public (e_crypto app_env) (m_identity (person_manager 6)))"
    by (simp add: bob_id_def)
  from honest_dial [OF law _ refl this, where ma = "person_manager 5" and expected = bob_id and now = 1 and c = 0 and d = 0]
  show ?thesis by auto
qed

lemma met_manager_eq:
  "\<exists>ti. met_manager = register_session app_env 1 bob_id (noise_public toy_crypto (person 6)) 0 (Transport ti) (person_manager 5)"
  using met_dialled by (auto simp: met_manager_def)

lemma met_session:
  "pr_session met = Some \<lparr>se_manager = met_manager, se_peers = Map.empty, se_local_addr = ''0.0.0.0:4433''\<rparr>"
  "database met = m_storage met_manager"
  by (simp_all add: met_def database_def)

lemma met_manager_fields:
  "m_sessions met_manager bob_id = Some \<lparr>ps_device_id = bob_id, ps_noise = 0, ps_outbound = Quic 0\<rparr>"
  "messages (m_storage met_manager) = []"
  "load_device_public_key d (m_storage met_manager) =
     Inr (if d = bob_id then Some (noise_public toy_crypto (person 6)) else None)"
proof -
  obtain ti where ti: "met_manager = register_session app_env 1 bob_id (noise_public toy_crypto (person 6)) 0 (Transport ti)
      (person_manager 5)" using met_manager_eq by blast
  show "m_sessions met_manager bob_id = Some \<lparr>ps_device_id = bob_id, ps_noise = 0, ps_outbound = Quic 0\<rparr>"
    "messages (m_storage met_manager) = []"
    "load_device_public_key d (m_storage met_manager) =
       Inr (if d = bob_id then Some (noise_public toy_crypto (person 6)) else None)"
    by (simp_all add: ti register_session_def emit_def Let_def upsert_known_device_def empty_storage_def has_row_def
        load_device_public_key_def row_where_def)
qed

theorem process_invariant_witness:
  "\<exists>key. load_device_public_key bob_id (database met) = Inr (Some key) \<and> bob_id = device_id_from_public_key toy_crypto key"
  using process_invariant [OF installed_first met_reachable, where did = bob_id and
      s = "\<lparr>se_manager = met_manager, se_peers = Map.empty, se_local_addr = ''0.0.0.0:4433''\<rparr>" and
      ps = "\<lparr>ps_device_id = bob_id, ps_noise = 0, ps_outbound = Quic 0\<rparr>"]
  by (simp add: met_session(1) met_manager_fields(1))

theorem text_stored_then_sent_witness:
  "map ms_body (messages (m_storage (snd (send_text_message app_env toy_serde 2 ''m1'' bob_id ''hi'' met_manager)))) =
     [ascii_bytes ''hi''] \<and>
   fst (send_text_message app_env toy_serde 2 ''m2'' ''stranger'' ''hi'' met_manager) =
     Inl ''database error: FOREIGN KEY constraint failed''"
proof -
  obtain r m' where 1: "send_text_message app_env toy_serde 2 ''m1'' bob_id ''hi'' met_manager = (r, m')" by (rule prod.exhaust)
  obtain r2 m2 where 2: "send_text_message app_env toy_serde 2 ''m2'' ''stranger'' ''hi'' met_manager = (r2, m2)"
    by (rule prod.exhaust)
  have m: "met_manager = se_manager \<lparr>se_manager = met_manager, se_peers = Map.empty, se_local_addr = ''0.0.0.0:4433''\<rparr>" by simp
  have fresh: "\<not> has_row ms_message_id mid (messages (m_storage met_manager))" for mid
    by (simp add: met_manager_fields(2) has_row_def)
  have bob: "is_connected bob_id met_manager" by (simp add: is_connected_def met_manager_fields(1))
  have "length bob_id \<noteq> length ''stranger''"
    by (simp add: bob_id_def device_id_from_public_key_def toy_crypto_def)
  then have "bob_id \<noteq> ''stranger''" by metis
  then have stranger: "\<not> has_row dv_device_id ''stranger'' (devices (m_storage met_manager))"
    using met_manager_fields(3) [of "''stranger''"]
    by (auto simp: load_device_public_key_def simp flip: row_where_None)
  show ?thesis
    using text_stored_then_sent [OF installed_first met_reachable met_session(1) m fresh 1] bob
      text_stored_then_sent [OF installed_first met_reachable met_session(1) m fresh 2] stranger 1 2
    by (simp add: met_manager_fields(2))
qed

text \<open>One text later.\<close>

definition texted :: "(bytes \<times> bytes option, noise_view) process" where
  "texted = snd (on_manager (send_text_message app_env toy_serde 2 ''m1'' bob_id ''hi'') met)"

lemma texted_row: "\<exists>r \<in> set (messages (database texted)). ms_body r = ascii_bytes ''hi''"
proof -
  obtain ti where ti: "met_manager = register_session app_env 1 bob_id (noise_public toy_crypto (person 6)) 0 (Transport ti)
      (person_manager 5)" using met_manager_eq by blast
  have "m_storage (snd (send_to app_env bob_id msg (met_manager\<lparr>m_storage := db\<rparr>))) = db" for msg db
    using send_to_frame [of "met_manager\<lparr>m_storage := db\<rparr>" app_env bob_id msg] by (simp add: send_frame_def)
  then show ?thesis
    by (simp add: texted_def on_manager_def with_session_def met_session(1) database_def send_text_message_def
        get_or_create_conversation_def insert_message_def case_prod_beta Let_def)
      (simp add: ti register_session_def emit_def Let_def upsert_known_device_def empty_storage_def has_row_def)
qed

theorem history_is_one_sided_witness:
  "\<exists>r \<in> set (messages (database texted)). ms_body r = ascii_bytes ''hi'' \<and> ms_sender_device_id r = ''self'' \<and> ms_delivered_at r = None"
proof -
  obtain r where r: "r \<in> set (messages (database texted))" "ms_body r = ascii_bytes ''hi''" using texted_row by blast
  have "process_step app_env met texted" unfolding texted_def by (intro calling send_text)
  then have "(process_step app_env)\<^sup>*\<^sup>* installed texted" using met_reachable by (meson rtranclp.rtrancl_into_rtrancl)
  from history_is_one_sided [OF installed_first this r(1)] r show ?thesis by blast
qed

theorem identity_for_good_witness:
  "get_identity app_env toy_serde (Inr ()) (snd (start_networking app_env toy_serde (Inr ()) [] (Inr ())
      (Inr (4433, ''0.0.0.0:4433'')) (Inr ()) ''/d'' \<lparr>files = Map.empty, creatable = (\<lambda>_. True)\<rparr> (Transport toy_view)
      (snd (init_app app_env toy_serde (Inr ()) (replicate 32 5) installed)))) =
    Inr (di_device_id (person 5))"
proof -
  obtain r pr1 where i: "init_app app_env toy_serde (Inr ()) (replicate 32 5) installed = (r, pr1)" by (rule prod.exhaust)
  have sha: "length (sha512 (e_crypto app_env) b) = 64" for b by (simp add: toy_crypto_def)
  have "process_step app_env pr1 (snd (start_networking app_env toy_serde (Inr ()) [] (Inr ())
      (Inr (4433, ''0.0.0.0:4433'')) (Inr ()) ''/d'' \<lparr>files = Map.empty, creatable = (\<lambda>_. True)\<rparr> (Transport toy_view) pr1))"
    by (rule starting)
  note g = identity_for_good [OF installed_first length_replicate sha i r_into_rtranclp [of "process_step app_env", OF this] refl]
  show ?thesis
    unfolding i snd_conv using g [THEN conjunct2, THEN conjunct1]
    by (simp only: person_def) (simp add: identity_info_of_def toy_serde_def)
qed

theorem queue_refines_log_witness:
  "queue_refines [PeerConnectedEvent ''x''] 0 (emit (OnPeerConnected ''x'') (person_manager 5)) \<and>
   fst (poll_events toy_serde (emit (OnPeerConnected ''x'') (person_manager 5))) = Inr ''one event'' \<and>
   queue_refines [PeerConnectedEvent ''x''] 1 (snd (poll_events toy_serde (emit (OnPeerConnected ''x'') (person_manager 5))))"
proof -
  have 0: "queue_refines [] 0 (person_manager 5)"
    unfolding person_manager_def using queue_refines_log by blast
  have "queue_refines ([] @ [to_app_event (OnPeerConnected ''x'')]) 0 (emit (OnPeerConnected ''x'') (person_manager 5))"
    using 0 queue_refines_log by blast
  then have 1: "queue_refines [PeerConnectedEvent ''x''] 0 (emit (OnPeerConnected ''x'') (person_manager 5))" by simp
  then have "fst (poll_events toy_serde (emit (OnPeerConnected ''x'') (person_manager 5))) =
        sd_events toy_serde (drop 0 [PeerConnectedEvent ''x'']) \<and>
      queue_refines [PeerConnectedEvent ''x''] (length [PeerConnectedEvent ''x''])
        (snd (poll_events toy_serde (emit (OnPeerConnected ''x'') (person_manager 5))))"
    using queue_refines_log by blast
  moreover have "sd_events toy_serde [ev] = Inr ''one event''" for ev by (simp add: toy_serde_def)
  ultimately show ?thesis using 1 by simp
qed

text \<open>A transfer of two chunks of which one is acked.\<close>

definition half_done :: storage where
  "half_done = empty_storage\<lparr>
     file_transfers := [\<lparr>tr_transfer_id = ''t'', tr_message_id = ''m'', tr_file_name = ''f'', tr_file_size = 8388609,
       tr_mime_type = ''x'', tr_total_chunks = 2, tr_chunk_size = 8388608, tr_direction = ''send'', tr_state = ''active'',
       tr_bytes_transferred = 0, tr_local_path = ''/f'', tr_started_at = 0, tr_updated_at = 0\<rparr>],
     chunk_manifest := [\<lparr>mf_transfer_id = ''t'', mf_chunk_index = 0, mf_acked = 1\<rparr>]\<rparr>"


definition toy_unhex :: "string \<Rightarrow> string + bytes" where
  "toy_unhex s = Inr (map (\<lambda>ch. of_nat (of_char ch)) s)"

lemma toy_unhex_encoded: "toy_unhex (hex_encode (e_crypto app_env) b) = Inr b"
proof -
  have "unat w mod 256 = unat w" for w :: u8 using unat_less_2p [of w] by simp
  then show ?thesis by (simp add: toy_unhex_def toy_crypto_def o_def)
qed

lemma person_on_record: "load_identity (e_crypto app_env) (database (started k)) = Inr (Some (person k))"
  by (simp add: started_eq database_def load_identity_def person_def from_stored_to_stored)
    (simp add: to_stored_def generate_def derive_noise_static_def toy_crypto_def)

lemma toy_sealed:
  "\<exists>sealed. ble_seal_message (e_crypto app_env) toy_unhex [3] (replicate 12 8)
     (hex_encode (e_crypto app_env) (noise_public (e_crypto app_env) (person k))) body = Inr sealed"
proof -
  obtain ct where "aead_encrypt toy_crypto (derive_symmetric_key toy_crypto (x_dh toy_crypto [3]
      (noise_public toy_crypto (person k)))) (replicate 12 8) (ascii_bytes body) = Inr ct"
    by (simp add: toy_crypto_def)
  then have sl: "seal toy_crypto [3] (replicate 12 8) (noise_public toy_crypto (person k)) (ascii_bytes body) =
      Inr (x_public toy_crypto [3] @ replicate 12 8 @ ct)" by (simp add: seal_Inr_iff)
  have len: "length (noise_public toy_crypto (person k)) = 32" by (simp add: noise_public_def)
  show ?thesis
    using toy_unhex_encoded [of "noise_public toy_crypto (person k)"] unfolding app_env_simps
    by (simp only: ble_seal_message_def andThen_simps len sl map_err_simps simp_thms if_False) blast
qed

lemma app_env_crypto_laws: "dh_agrees (e_crypto app_env)" "x_keys_32 (e_crypto app_env)" "aead_correct (e_crypto app_env)"
  by simp_all

theorem mesh_message_read_witness:
  "\<exists>sealed. ble_seal_message (e_crypto app_env) toy_unhex [3] (replicate 12 8)
      (hex_encode (e_crypto app_env) (noise_public (e_crypto app_env) (person 6))) ''hi'' = Inr sealed \<and>
    ble_open_message app_env toy_unhex (\<lambda>_. ''bad'') (Inr ()) sealed (started 6) = Inr ''hi''"
proof -
  have id: "bob_id = device_id_from_public_key (e_crypto app_env) (noise_public (e_crypto app_env) (person 6))"
    by (simp add: bob_id_def)
  have known: "no_collision (e_crypto app_env) key (noise_public (e_crypto app_env) (person 6))"
    if "load_device_public_key bob_id (database met) = Inr (Some key)" for key
    using that by (simp add: met_session(2) met_manager_fields(3) no_collision_def)
  have s: "m_sessions (se_manager \<lparr>se_manager = met_manager, se_peers = Map.empty, se_local_addr = ''0.0.0.0:4433''\<rparr>) bob_id =
      Some \<lparr>ps_device_id = bob_id, ps_noise = 0, ps_outbound = Quic 0\<rparr>"
    by (simp add: met_manager_fields(1))
  have valid: "utf8_valid (ascii_bytes ''hi'')" by (simp add: ascii_bytes_def)
  obtain sealed where sealed: "ble_seal_message (e_crypto app_env) toy_unhex [3] (replicate 12 8)
      (hex_encode (e_crypto app_env) (noise_public (e_crypto app_env) (person 6))) ''hi'' = Inr sealed"
    using toy_sealed by blast
  have "ble_open_message app_env toy_unhex (\<lambda>_. ''bad'') (Inr ()) sealed (started 6) = Inr ''hi''"
    using mesh_message_read [OF installed_first met_reachable met_session(1) s person_on_record id known app_env_crypto_laws
        toy_unhex_encoded length_replicate valid, of "[3]" "8" sealed "\<lambda>_. ''bad''"] sealed by blast
  with sealed show ?thesis by blast
qed

end
