(* ===== verification/Conversation.thy ===== *)
theory Conversation
  imports Usage
begin

text \<open>
  Texts from one user to the other: \<open>send_text_message\<close> on one process, the control stream of the session, the reader
  task and \<open>poll_events\<close> on the other.
\<close>

section \<open>Sending texts\<close>

text \<open>Texts with the instants and the message ids drawn for them, one call after another.\<close>

fun send_texts ::
    "('h, 't) env \<Rightarrow> serde \<Rightarrow> string \<Rightarrow> (nat \<times> string \<times> string) list \<Rightarrow> ('h, 't) manager \<Rightarrow>
      (string + string) list \<times> ('h, 't) manager" where
  "send_texts env sd peer [] m = ([], m)"
| "send_texts env sd peer ((now, mid, body) # texts) m =
     (let (r, m1) = send_text_message env sd now mid peer body m; (rs, m2) = send_texts env sd peer texts m1
      in (r # rs, m2))"

lemma send_text_connected:
  assumes "snow_laws (e_snow env) view box" and "connected peer a c m" and "m_noise m a = Transport t"
    and "n_out (view t) < 2 ^ 64 - 1" and "sendable env (Text (text_for env peer (now, mid, body)))"
    and "has_row dv_device_id peer (devices (m_storage m))"
    and "\<not> has_row ms_message_id mid (messages (m_storage m))"
  shows "\<exists>t' db. send_text_message env sd now mid peer body m = (sent_reply sd (now, mid, body),
      after_send a t' c [box (key_out (view t)) (n_out (view t)) (plaintext_of env (Text (text_for env peer (now, mid, body))))]
        (m\<lparr>m_storage := db\<rparr>)) \<and>
    view t' = (view t)\<lparr>n_out := Suc (n_out (view t))\<rparr> \<and> devices db = devices (m_storage m) \<and>
    messages db = messages (m_storage m) @ [text_row env peer (now, mid, body)]"
proof -
  obtain db where db: "devices db = devices (m_storage m)" "messages db = messages (m_storage m) @ [text_row env peer (now, mid, body)]"
      "send_text_message env sd now mid peer body m =
        (case send_to env peer (Text (text_for env peer (now, mid, body))) (m\<lparr>m_storage := db\<rparr>) of
           (r, m1) \<Rightarrow> (andThen (shown r) (\<lambda>_. sent_reply sd (now, mid, body)), m1))"
    using text_stored [OF assms(6,7)] by blast
  have conn: "connected peer a c (m\<lparr>m_storage := db\<rparr>)" using assms(2) by (simp add: connected_def)
  have noise: "m_noise (m\<lparr>m_storage := db\<rparr>) a = Transport t" using assms(3) by simp
  obtain t' where "send_to env peer (Text (text_for env peer (now, mid, body))) (m\<lparr>m_storage := db\<rparr>) = (Inr (), after_send a t' c
        [box (key_out (view t)) (n_out (view t)) (plaintext_of env (Text (text_for env peer (now, mid, body))))]
        (m\<lparr>m_storage := db\<rparr>))" and "view t' = (view t)\<lparr>n_out := Suc (n_out (view t))\<rparr>"
    using send_to_connected [OF assms(1) conn noise assms(4,5)] by blast
  with db show ?thesis by (intro exI [of _ t'] exI [of _ db]) simp
qed

lemma send_texts_connected:
  assumes "snow_laws (e_snow env) view box" and "connected peer a c m" and "m_noise m a = Transport t"
    and "n_out (view t) + length texts < 2 ^ 64"
    and "\<And>x. x \<in> set texts \<Longrightarrow> sendable env (Text (text_for env peer x))"
    and "has_row dv_device_id peer (devices (m_storage m))"
    and "distinct (map (fst \<circ> snd) texts)"
    and "\<And>x. x \<in> set texts \<Longrightarrow> \<not> has_row ms_message_id (fst (snd x)) (messages (m_storage m))"
  shows "\<exists>t' db. send_texts env sd peer texts m = (map (sent_reply sd) texts, after_send a t' c
      (boxes box (key_out (view t)) (n_out (view t)) (map (plaintext_of env) (map (\<lambda>x. Text (text_for env peer x)) texts)))
      (m\<lparr>m_storage := db\<rparr>)) \<and>
    messages db = messages (m_storage m) @ map (text_row env peer) texts"
  using assms(2-)
proof (induction texts arbitrary: m t)
  case Nil
  then show ?case by (intro exI [of _ t] exI [of _ "m_storage m"]) (simp add: after_send_none)
next
  case (Cons x texts)
  obtain now mid body where x: "x = (now, mid, body)" by (rule prod_cases3)
  let ?ct = "box (key_out (view t)) (n_out (view t)) (plaintext_of env (Text (text_for env peer x)))"
  have first: "n_out (view t) < 2 ^ 64 - 1" "sendable env (Text (text_for env peer (now, mid, body)))"
      "\<not> has_row ms_message_id mid (messages (m_storage m))"
    using Cons.prems(3) Cons.prems(4,7) [of x] by (simp_all add: x)
  obtain t1 db1 where s: "send_text_message env sd now mid peer body m =
      (sent_reply sd x, after_send a t1 c [?ct] (m\<lparr>m_storage := db1\<rparr>))"
      "view t1 = (view t)\<lparr>n_out := Suc (n_out (view t))\<rparr>" "devices db1 = devices (m_storage m)"
      "messages db1 = messages (m_storage m) @ [text_row env peer x]"
    using send_text_connected [OF assms(1) Cons.prems(1,2) first(1,2) Cons.prems(5) first(3), of sd] unfolding x by blast
  let ?m1 = "after_send a t1 c [?ct] (m\<lparr>m_storage := db1\<rparr>)"
  have st: "m_storage ?m1 = db1" by (simp add: after_send_def)
  have "connected peer a c ?m1" using Cons.prems(1) by (simp add: after_send_def connected_def)
  moreover have "\<not> has_row ms_message_id (fst (snd y)) (messages (m_storage ?m1))" if "y \<in> set texts" for y
    using that Cons.prems(6) Cons.prems(7) [of y] unfolding st s(4) by (auto simp: x has_row_append text_row_def)
  ultimately obtain t2 db2 where "send_texts env sd peer texts ?m1 = (map (sent_reply sd) texts, after_send a t2 c
      (boxes box (key_out (view t1)) (n_out (view t1)) (map (plaintext_of env) (map (\<lambda>x. Text (text_for env peer x)) texts)))
      (?m1\<lparr>m_storage := db2\<rparr>))" "messages db2 = messages db1 @ map (text_row env peer) texts"
    using Cons.IH [of ?m1 t1] Cons.prems(3-6) s(2,3) st by (auto simp: after_send_def)
  then show ?case
    using s(1,2,4) by (intro exI [of _ t2] exI [of _ db2]) (simp add: x after_send_def)
qed

section \<open>From one user to the other\<close>

text \<open>C8: texts reach the other user.  In any reachable process with a session over QUIC, each of a list of texts with
  fresh ids is reported as sent and stored, as pending, in the order of the calls.  The peer, whose session is in step,
  reads the control stream to its end; its next \<open>poll_events\<close> returns what waited there before, then exactly these texts
  in order under the id of the sender's session, then the disconnection, and leaves nothing.  The peer stores none of
  them.\<close>

theorem texts_reach_user:
  assumes "snow_laws (e_snow env) view box"
    and "first_start pr0" and "(process_step env)\<^sup>*\<^sup>* pr0 pr" and "pr_session pr = Some s" and "ma = se_manager s"
    and "connected bob a c ma" and "m_noise ma a = Transport ta" and "m_control ma c = []"
    and "n_out (view ta) + length texts < 2 ^ 64"
    and "\<forall>x \<in> set texts. sendable env (Text (text_for env bob x)) \<and>
      \<not> has_row ms_message_id (fst (snd x)) (messages (m_storage ma))"
    and "distinct (map (fst \<circ> snd) texts)"
    and "send_texts env sd bob texts ma = (rs, ma')"
    and "m_noise mb b = Transport tb" and "in_step view ta tb"
    and "frames_until_error (concat (map write_framed (m_control ma' c))) = (frames, err)"
    and "length instants = length texts"
    and "poll_events sd (control_reader env alice b (zip instants frames) mb) = (polled, mb')"
  shows "rs = map (sent_reply sd) texts \<and>
    messages (m_storage ma') = messages (m_storage ma) @ map (text_row env bob) texts \<and>
    polled = sd_events sd (sink_queue mb @
      map (\<lambda>(now, mid, body). TextMessageEvent alice mid bob body (unix_secs env now)) texts @ [PeerDisconnectedEvent alice]) \<and>
    sink_queue mb' = [] \<and> messages (m_storage mb') = messages (m_storage mb)"
proof -
  let ?msgs = "map (\<lambda>x. Text (text_for env bob x)) texts"
  have dev: "has_row dv_device_id bob (devices (m_storage ma))"
    using reachable_session(2) [OF assms(2-4)] assms(5,6) by (auto simp: connected_def peers_recorded_def)
  obtain ta' db where sent: "send_texts env sd bob texts ma = (map (sent_reply sd) texts, after_send a ta' c
      (boxes box (key_out (view ta)) (n_out (view ta)) (map (plaintext_of env) ?msgs)) (ma\<lparr>m_storage := db\<rparr>))"
      "messages db = messages (m_storage ma) @ map (text_row env bob) texts"
    using send_texts_connected [OF assms(1,6,7,9) _ dev assms(11)] assms(10) by blast
  then have ma': "rs = map (sent_reply sd) texts" "m_storage ma' = db"
      "m_control ma' c = boxes box (key_out (view ta)) (n_out (view ta)) (map (plaintext_of env) ?msgs)"
    using assms(8,12) by (auto simp: after_send_def)
  have len: "n_out (view ta) + length ?msgs < 2 ^ 64" "length instants = length ?msgs" using assms(9,16) by simp_all
  have texts: "\<forall>msg \<in> set ?msgs. sendable env msg \<and> notice alice msg \<noteq> None" using assms(10) by auto
  obtain tb' where read: "control_reader env alice b (zip instants frames) mb = emit (OnPeerDisconnected alice)
      ((after_read b tb' (concat (map (the \<circ> notice alice) ?msgs)) mb)\<lparr>m_sessions := (m_sessions mb)(alice := None)\<rparr>)"
    using reader_delivers [OF assms(1,13,14) len(1) texts ma'(3) assms(15) len(2)] by blast
  have "map to_app_event (concat (map (the \<circ> notice alice) ?msgs)) =
      map (\<lambda>(now, mid, body). TextMessageEvent alice mid bob body (unix_secs env now)) texts"
    by (induction texts) (auto simp: text_for_def)
  then show ?thesis
    using assms(17) ma' sent(2)
    by (auto simp: read poll_events_def sink_drain_def sink_queue_def emit_def after_read_def Let_def)
qed

section \<open>Two texts to the person of key 6\<close>

lemma dialled_noise:
  "connect_to_peer env now (Inr (conn, st)) expected m = (Inr (), m') \<Longrightarrow> m_sessions m expected = None \<Longrightarrow>
    \<exists>s. initiator_handshake env (m_identity m) st = Inr s \<and>
      into_transport_mode (e_snow env) s = Inr (m_noise m' (m_next m))"
  by (auto simp: connect_to_peer_def register_session_def emit_def Let_def andThen_Inr_iff split: sum.splits if_splits)

lemma xx_initiator:
  "initiator_handshake app_env i (honest_stream (second_message app_env j)) = Inr (Handshaking
     (x_public toy_crypto (di_noise_static i), Some (x_public toy_crypto (di_noise_static j))))"
  by (simp add: initiator_handshake_def second_message_def handshake_write_def handshake_read_def noise_new_def toy_xx_def)

lemma met_connected:
  "connected bob_id 0 0 met_manager" "m_control met_manager 0 = []"
  "\<exists>ti. m_noise met_manager 0 = Transport ti \<and> n_out ti = 0"
proof -
  obtain ti where ti: "connect_to_peer app_env 1 (Inr (0, honest_stream (second_message app_env (person 6)))) bob_id
      (person_manager 5) = (Inr (), met_manager)"
      "met_manager = register_session app_env 1 bob_id (noise_public toy_crypto (person 6)) 0 (Transport ti) (person_manager 5)"
    using met_dialled by (auto simp: met_manager_def)
  show "connected bob_id 0 0 met_manager" "m_control met_manager 0 = []"
    by (simp_all add: connected_def met_manager_fields(1) ti(2) register_session_def emit_def Let_def)
  have "\<exists>ti. Transport ti = m_noise met_manager 0 \<and> n_out ti = 0"
    using dialled_noise [OF ti(1)] by (force simp: xx_initiator toy_xx_def)
  then show "\<exists>ti. m_noise met_manager 0 = Transport ti \<and> n_out ti = 0" by (metis (no_types))
qed

lemma toy_xx_snow_laws [simp]: "snow_laws toy_xx (\<lambda>t. t) toy_box"
  using toy_snow_laws by (simp add: snow_laws_def write_law_def read_law_def write_separate_def toy_xx_def)

definition two_texts :: "(nat \<times> string \<times> string) list" where
  "two_texts = [(2, ''m1'', ''hi''), (3, ''m2'', ''you'')]"

theorem texts_reach_user_witness:
  "\<exists>frames err instants mb b.
     frames_until_error (concat (map write_framed (m_control (snd (send_texts app_env toy_serde bob_id two_texts met_manager)) 0))) =
       (frames, err) \<and>
     map ms_body (messages (m_storage (snd (send_texts app_env toy_serde bob_id two_texts met_manager)))) =
       [ascii_bytes ''hi'', ascii_bytes ''you''] \<and>
     fst (poll_events toy_serde (control_reader app_env ''alice'' b (zip instants frames) mb)) = Inr ''events''"
proof -
  obtain ti where ti: "m_noise met_manager 0 = Transport ti" "n_out ti = 0" using met_connected(3) by blast
  obtain rs ma' where s: "send_texts app_env toy_serde bob_id two_texts met_manager = (rs, ma')" by (rule prod.exhaust)
  obtain frames err where f: "frames_until_error (concat (map write_framed (m_control ma' 0))) = (frames, err)"
    by (rule prod.exhaust)
  let ?tb = "\<lparr>key_out = [], key_in = key_out ti, n_out = 0, n_in = 0\<rparr>"
  let ?mb = "(person_manager 6)\<lparr>m_noise := (\<lambda>_. Transport ?tb)\<rparr>"
  obtain polled mb' where p: "poll_events toy_serde (control_reader app_env ''alice'' 0 (zip [4, 5] frames) ?mb) = (polled, mb')"
    by (rule prod.exhaust)
  have m: "met_manager = se_manager \<lparr>se_manager = met_manager, se_peers = Map.empty, se_local_addr = ''0.0.0.0:4433''\<rparr>" by simp
  have law: "snow_laws (e_snow app_env) (\<lambda>t. t) toy_box" by simp
  have fresh: "\<not> has_row ms_message_id mid (messages (m_storage met_manager))" for mid
    by (simp add: met_manager_fields(2) has_row_def)
  have "sendable app_env (Text (text_for app_env bob_id x))" if "x \<in> set two_texts" for x
    using that by (auto simp: two_texts_def sendable_def app_env_def xx_env_def text_for_def encode_plaintext_def
        decode_plaintext_def fits_def NOISE_MAX_def unix_secs_def)
  with fresh have ok: "\<forall>x \<in> set two_texts. sendable app_env (Text (text_for app_env bob_id x)) \<and>
      \<not> has_row ms_message_id (fst (snd x)) (messages (m_storage met_manager))" by blast
  have d: "distinct (map (fst \<circ> snd) two_texts)" and n: "n_out ti + length two_texts < 2 ^ 64"
    and l: "length [4, 5 :: nat] = length two_texts" by (simp_all add: two_texts_def ti(2))
  have nb: "m_noise ?mb 0 = Transport ?tb" and st: "in_step (\<lambda>t. t) ti ?tb" by (simp_all add: in_step_def ti(2))
  note t = texts_reach_user [OF law installed_first met_reachable met_session(1) m met_connected(1) ti(1) met_connected(2)
      n ok d s nb st f l p]
  then show ?thesis
    using f s p by (intro exI [of _ frames] exI [of _ err] exI [of _ "[4, 5]"] exI [of _ ?mb] exI [of _ 0])
      (simp add: met_manager_fields(2) two_texts_def text_row_def toy_serde_def)
qed

end
