(* ===== verification/Outgoing.thy ===== *)
theory Outgoing
  imports Sending
begin

text \<open>
  \<open>run_outgoing_transfer\<close> of core/src/connection_manager.rs on the state of the connection manager: its loop, the
  tasks it spawns, the writers of their streams, and the pause, resume and cancel calls of the user interface.  The
  loop of theory Workers is what remains of it when the manager is forgotten but for the handle of the transfer.
\<close>

section \<open>The loop and its tasks\<close>

text \<open>Each task has the stream it was given; \<open>or_sent\<close> records the chunks handed over to a stream.\<close>

record ('h, 't) outgoing_run =
  or_todo :: "u64 list"
  or_pc :: loop_pc
  or_tasks :: "task list"
  or_streams :: "stream_id list"
  or_sent :: "u64 list"
  or_manager :: "('h, 't) manager"

definition outgoing_init :: "nat \<Rightarrow> ('h, 't) manager \<Rightarrow> ('h, 't) outgoing_run" where
  "outgoing_init a m =
     \<lparr>or_todo = pending_chunk_indices (m_handles m a), or_pc = Head, or_tasks = [], or_streams = [], or_sent = [],
      or_manager = m\<rparr>"

definition or_running :: "('h, 't) outgoing_run \<Rightarrow> nat" where
  "or_running s = length (filter (\<lambda>t. snd t = None) (or_tasks s))"

abbreviation or_handle :: "nat \<Rightarrow> ('h, 't) outgoing_run \<Rightarrow> transfer_handle" where
  "or_handle a s \<equiv> m_handles (or_manager s) a"

inductive outgoing_istep ::
    "('h, 't) env \<Rightarrow> peer_session \<Rightarrow> string \<Rightarrow> file_source \<Rightarrow> nat \<Rightarrow>
      ('h, 't) outgoing_run \<Rightarrow> ('h, 't) outgoing_run \<Rightarrow> bool" for env ps tid src a where
  no_more: "or_pc s = Head \<Longrightarrow> or_todo s = [] \<Longrightarrow> outgoing_istep env ps tid src a s (s\<lparr>or_pc := Joining 0\<rparr>)"
| cancelled: "or_pc s = Head \<Longrightarrow> or_todo s = i # is \<Longrightarrow> th_cancelled (or_handle a s) \<Longrightarrow>
    outgoing_istep env ps tid src a s (s\<lparr>or_pc := Joining 0\<rparr>)"
| paused: "or_pc s = Head \<Longrightarrow> or_todo s = i # is \<Longrightarrow> \<not> th_cancelled (or_handle a s) \<Longrightarrow> th_paused (or_handle a s) \<Longrightarrow>
    outgoing_istep env ps tid src a s (s\<lparr>or_pc := Sleeping i, or_todo := is\<rparr>)"
| next_chunk: "or_pc s = Head \<Longrightarrow> or_todo s = i # is \<Longrightarrow> \<not> th_cancelled (or_handle a s) \<Longrightarrow>
    \<not> th_paused (or_handle a s) \<Longrightarrow>
    outgoing_istep env ps tid src a s (s\<lparr>or_pc := Acquiring i, or_todo := is\<rparr>)"
| woken_cancelled: "or_pc s = Sleeping i \<Longrightarrow> th_cancelled (or_handle a s) \<Longrightarrow>
    outgoing_istep env ps tid src a s (s\<lparr>or_pc := Acquiring i\<rparr>)"
| woken: "or_pc s = Sleeping i \<Longrightarrow> \<not> th_cancelled (or_handle a s) \<Longrightarrow> \<not> th_paused (or_handle a s) \<Longrightarrow>
    outgoing_istep env ps tid src a s (s\<lparr>or_pc := Acquiring i\<rparr>)"
| spawned: "or_pc s = Acquiring i \<Longrightarrow> or_running s < DEFAULT_PARALLELISM \<Longrightarrow>
    transfer_stream_sender opened ps tid (or_manager s) = (Inr c, m) \<Longrightarrow>
    outgoing_istep env ps tid src a s (s\<lparr>or_pc := Head, or_tasks := or_tasks s @ [(i, None)],
      or_streams := or_streams s @ [c], or_manager := m\<rparr>)"
| not_opened: "or_pc s = Acquiring i \<Longrightarrow> or_running s < DEFAULT_PARALLELISM \<Longrightarrow>
    transfer_stream_sender opened ps tid (or_manager s) = (Inl e, m) \<Longrightarrow>
    outgoing_istep env ps tid src a s (s\<lparr>or_pc := Returned (Inl e), or_manager := m\<rparr>)"
| task_ran: "k < length (or_tasks s) \<Longrightarrow> or_tasks s ! k = (i, None) \<Longrightarrow>
    chunk_task env now (or_streams s ! k) tid src a i (or_manager s) = (r, m) \<Longrightarrow>
    outgoing_istep env ps tid src a s (s\<lparr>or_tasks := (or_tasks s)[k := (i, Some r)],
      or_sent := (if is_ok r then or_sent s @ [i] else or_sent s), or_manager := m\<rparr>)"
| joined: "or_pc s = Joining k \<Longrightarrow> k < length (or_tasks s) \<Longrightarrow> snd (or_tasks s ! k) = Some (Inr ()) \<Longrightarrow>
    outgoing_istep env ps tid src a s (s\<lparr>or_pc := Joining (Suc k)\<rparr>)"
| joined_failed: "or_pc s = Joining k \<Longrightarrow> k < length (or_tasks s) \<Longrightarrow> snd (or_tasks s ! k) = Some (Inl e) \<Longrightarrow>
    outgoing_istep env ps tid src a s (s\<lparr>or_pc := Returned (Inl e)\<rparr>)"
| all_joined: "or_pc s = Joining k \<Longrightarrow> length (or_tasks s) \<le> k \<Longrightarrow>
    outgoing_istep env ps tid src a s (s\<lparr>or_pc := Returned (Inr ())\<rparr>)"

text \<open>Around it: the user interface, the writer task of a stream and the forwarding task of a relay.  A forwarding task
  empties its channel in one step here; theory Relay_Transfer lets others go on between its encrypting and sending.\<close>

inductive outgoing_step ::
    "('h, 't) env \<Rightarrow> (bytes \<Rightarrow> bool) \<Rightarrow> peer_session \<Rightarrow> string \<Rightarrow> file_source \<Rightarrow> nat \<Rightarrow>
      ('h, 't) outgoing_run \<Rightarrow> ('h, 't) outgoing_run \<Rightarrow> bool" for env can_write ps tid src a where
  inside: "outgoing_istep env ps tid src a s s' \<Longrightarrow> outgoing_step env can_write ps tid src a s s'"
| user_pauses: "outgoing_step env can_write ps tid src a s (s\<lparr>or_manager := update_handle a pause (or_manager s)\<rparr>)"
| user_resumes: "outgoing_step env can_write ps tid src a s (s\<lparr>or_manager := update_handle a resume (or_manager s)\<rparr>)"
| user_cancels: "outgoing_step env can_write ps tid src a s (s\<lparr>or_manager := update_handle a cancel (or_manager s)\<rparr>)"
| stream_writes: "outgoing_step env can_write ps tid src a s
    (s\<lparr>or_manager := run_stream_writer env can_write (ps_noise ps) (OnConnection n) tid (or_manager s)\<rparr>)"
| relay_forwards: "outgoing_step env can_write ps tid src a s
    (s\<lparr>or_manager := run_relay_forwarder env ps n tid (or_manager s)\<rparr>)"

text \<open>What the function returns and leaves behind once its loop has returned.\<close>

definition outgoing_result ::
    "('h, 't) env \<Rightarrow> nat \<Rightarrow> string \<Rightarrow> string \<Rightarrow> nat \<Rightarrow> ('h, 't) outgoing_run \<Rightarrow> (unit res \<times> ('h, 't) manager) option" where
  "outgoing_result env now peer tid a s =
     (case or_pc s of
        Returned (Inr _) \<Rightarrow> Some (Inr (), finish_outgoing env now peer tid a (or_manager s))
      | Returned (Inl e) \<Rightarrow> Some (Inl e, or_manager s)
      | _ \<Rightarrow> None)"

section \<open>It is the loop of the workers\<close>

definition pool_of :: "nat \<Rightarrow> ('h, 't) outgoing_run \<Rightarrow> pool" where
  "pool_of a s = \<lparr>todo = or_todo s, pc = or_pc s, tasks = or_tasks s, sent = or_sent s, handle = or_handle a s\<rparr>"

lemma pool_of_init [simp]: "pool_of a (outgoing_init a m) = pool_init (m_handles m a)"
  by (simp add: pool_of_def outgoing_init_def pool_init_def)

lemma pool_of_simps [simp]:
  "todo (pool_of a s) = or_todo s" "pc (pool_of a s) = or_pc s" "tasks (pool_of a s) = or_tasks s"
  "sent (pool_of a s) = or_sent s" "handle (pool_of a s) = or_handle a s" "running (pool_of a s) = or_running s"
  by (simp_all add: pool_of_def running_def or_running_def)

lemma streams_keep [simp]:
  "m_handles (run_stream_writer env can_write b c tid m) = m_handles m"
  "m_fs (run_stream_writer env can_write b c tid m) = m_fs m"
  "m_handles (run_relay_forwarder env ps n tid m) = m_handles m" "m_fs (run_relay_forwarder env ps n tid m) = m_fs m"
  by (auto simp: run_stream_writer_def run_relay_forwarder_def Let_def
      split: option.split outbound_path.split prod.split)

lemma opening_keeps:
  "transfer_stream_sender opened ps tid m = (r, m1) \<Longrightarrow> m_handles m1 = m_handles m \<and> m_fs m1 = m_fs m"
  by (auto simp: transfer_stream_sender_def split: outbound_path.splits option.splits sum.splits)

lemma chunk_task_effect:
  assumes "chunk_task env now c tid src a i m = (r, m1)"
  shows "m_fs m1 = m_fs m \<and>
    (case read_chunk_from_source (m_fs m) src i of
       Inl e \<Rightarrow> r = Inl e \<and> m_handles m1 = m_handles m
     | Inr p \<Rightarrow> if is_ok r then m_handles m1 = (m_handles m)(a := mark_chunk_acked now i (of_nat (length p)) (m_handles m a))
         else m_handles m1 = m_handles m)"
proof (cases "read_chunk_from_source (m_fs m) src i")
  case (Inr p)
  have s: "m_handles m2 = m_handles m \<and> m_fs m2 = m_fs m" if "stream_send c tid msg m = (q, m2)" for msg q m2
    using that by (auto simp: stream_send_def split: option.splits if_splits)
  show ?thesis
    using assms Inr
    by (auto simp: chunk_task_def Let_def update_handle_def emit_def split: prod.splits sum.splits dest!: s)
qed (use assms in \<open>simp add: chunk_task_def\<close>)

text \<open>The source of the chunks does not change under the loop.\<close>

abbreviation chunk_source :: "filesystem \<Rightarrow> file_source \<Rightarrow> u64 \<Rightarrow> bytes res" where
  "chunk_source fs src \<equiv> read_chunk_from_source fs src"

lemma outgoing_istep_pool:
  assumes "outgoing_istep env ps tid src a s t" and "m_fs (or_manager s) = fs"
  shows "pool_istep OutgoingTransfer DEFAULT_PARALLELISM (chunk_source fs src) (pool_of a s) (pool_of a t) \<and>
    m_fs (or_manager t) = fs"
  using assms(1)
proof (cases rule: outgoing_istep.cases)
  case (task_ran k i now r m)
  note e = chunk_task_effect [OF task_ran(4)]
  have p: "k < length (tasks (pool_of a s))" "tasks (pool_of a s) ! k = (i, None)" using task_ran(2,3) by simp_all
  show ?thesis
  proof (cases "read_chunk_from_source fs src i")
    case (Inl x)
    then show ?thesis
      using e task_read_failed [where v = OutgoingTransfer and src = "chunk_source fs src", OF p] assms(2) by (simp add: task_ran(1) pool_of_def)
  next
    case (Inr payload)
    show ?thesis
    proof (cases r)
      case (Inl x)
      then show ?thesis
        using e task_send_failed [where v = OutgoingTransfer and src = "chunk_source fs src", OF p Inr] Inr assms(2) by (simp add: task_ran(1) pool_of_def)
    next
      case r: (Inr u)
      then show ?thesis
        using e task_done [where v = OutgoingTransfer and src = "chunk_source fs src" and now = now, OF p Inr] Inr assms(2)
        by (simp add: task_ran(1) pool_of_def)
    qed
  qed
next
  case (spawned i opened c m)
  then show ?thesis
    using opening_keeps [OF spawned(4)] pool_istep.spawn [of "pool_of a s" i DEFAULT_PARALLELISM] assms(2)
    by (simp add: pool_of_def running_def or_running_def)
next
  case (not_opened i opened e m)
  then show ?thesis
    using opening_keeps [OF not_opened(4)]
      pool_istep.stream_failed [of OutgoingTransfer "pool_of a s" i DEFAULT_PARALLELISM] assms(2)
    by (simp add: pool_of_def running_def or_running_def)
next
  case no_more
  then show ?thesis using pool_istep.head_done [of "pool_of a s"] assms(2) by (simp add: pool_of_def)
next
  case (cancelled i rest)
  then show ?thesis using pool_istep.head_cancelled_break [of OutgoingTransfer "pool_of a s"] assms(2) by (simp add: pool_of_def)
next
  case (paused i rest)
  then show ?thesis using pool_istep.head_paused [of "pool_of a s"] assms(2) by (simp add: pool_of_def)
next
  case (next_chunk i rest)
  then show ?thesis using pool_istep.head_go [of "pool_of a s"] assms(2) by (simp add: pool_of_def)
next
  case (woken_cancelled i)
  then show ?thesis using pool_istep.wake_cancelled_break [of OutgoingTransfer "pool_of a s"] assms(2) by (simp add: pool_of_def)
next
  case (woken i)
  then show ?thesis using pool_istep.wake_go [of "pool_of a s"] assms(2) by (simp add: pool_of_def)
next
  case (joined k)
  then show ?thesis using pool_istep.join_next [of "pool_of a s"] assms(2) by (simp add: pool_of_def)
next
  case (joined_failed k e)
  then show ?thesis using pool_istep.join_failed [of "pool_of a s"] assms(2) by (simp add: pool_of_def)
next
  case (all_joined k)
  then show ?thesis using pool_istep.join_done [of "pool_of a s"] assms(2) by (simp add: pool_of_def)
qed

lemma outgoing_step_pool:
  assumes "outgoing_step env can_write ps tid src a s t" and "m_fs (or_manager s) = fs"
  shows "(pool_step OutgoingTransfer DEFAULT_PARALLELISM (chunk_source fs src))\<^sup>=\<^sup>= (pool_of a s) (pool_of a t) \<and>
    m_fs (or_manager t) = fs"
  using assms(1)
proof (cases rule: outgoing_step.cases)
  case inside
  then show ?thesis using outgoing_istep_pool [OF _ assms(2)] pool_step.internal by blast
next
  case user_pauses
  then show ?thesis
    using pool_step.ui_pause [of _ _ _ "pool_of a s"] assms(2) by (simp add: pool_of_def update_handle_def)
next
  case user_resumes
  then show ?thesis
    using pool_step.ui_resume [of _ _ _ "pool_of a s"] assms(2) by (simp add: pool_of_def update_handle_def)
next
  case user_cancels
  then show ?thesis
    using pool_step.ui_cancel [of _ _ _ "pool_of a s"] assms(2) by (simp add: pool_of_def update_handle_def)
qed (use assms(2) in \<open>simp_all add: pool_of_def\<close>)

lemma outgoing_run_pool:
  assumes "(outgoing_step env can_write ps tid src a)\<^sup>*\<^sup>* s t"
  shows "(pool_step OutgoingTransfer DEFAULT_PARALLELISM (chunk_source (m_fs (or_manager s)) src))\<^sup>*\<^sup>* (pool_of a s) (pool_of a t) \<and>
    m_fs (or_manager t) = m_fs (or_manager s)"
  using assms
proof (induction rule: rtranclp_induct)
  case (step t u)
  then show ?case
    using outgoing_step_pool [OF step(2), of "m_fs (or_manager s)"] by (auto intro: rtranclp.rtrancl_into_rtrancl)
qed simp

section \<open>It comes to an end\<close>

text \<open>Whenever the loop of the workers can go on, so can this one: opening a stream and running a task always have a
  result.\<close>

lemma outgoing_can_step:
  assumes "pool_istep OutgoingTransfer DEFAULT_PARALLELISM f (pool_of a s) q"
  shows "\<exists>t. outgoing_istep env ps tid src a s t"
  using assms
proof (cases rule: pool_istep.cases)
  case (spawn i)
  obtain r m where "transfer_stream_sender (Inr ()) ps tid (or_manager s) = (r, m)" by (rule prod.exhaust)
  with spawn show ?thesis by (cases r) (auto intro: outgoing_istep.spawned outgoing_istep.not_opened)
next
  case (stream_failed i e)
  obtain r m where "transfer_stream_sender (Inr ()) ps tid (or_manager s) = (r, m)" by (rule prod.exhaust)
  with stream_failed show ?thesis by (cases r) (auto intro: outgoing_istep.spawned outgoing_istep.not_opened)
next
  case (task_done k i payload now)
  then show ?thesis by (metis pool_of_simps(3) outgoing_istep.task_ran prod.exhaust)
next
  case (task_read_failed k i e)
  then show ?thesis by (metis pool_of_simps(3) outgoing_istep.task_ran prod.exhaust)
next
  case (task_send_failed k i payload e)
  then show ?thesis by (metis pool_of_simps(3) outgoing_istep.task_ran prod.exhaust)
qed (auto intro: outgoing_istep.intros)

interpretation outgoing_end: terminating_machine
    "\<lambda>s. \<not> th_paused (or_handle a s)" "outgoing_istep env ps tid src a" "\<lambda>s. \<exists>r. or_pc s = Returned r"
    "\<lambda>s. pool_weight (pool_of a s)" for env ps tid src a
proof
  fix s t :: "('a, 'b) outgoing_run" and env :: "('a, 'b) env" and ps tid src a
  assume "outgoing_istep env ps tid src a s t"
  from outgoing_istep_pool [OF this refl]
  show "pool_weight (pool_of a t) < pool_weight (pool_of a s)" by (blast intro: istep_weight)
next
  fix s t :: "('a, 'b) outgoing_run" and env :: "('a, 'b) env" and ps tid src a
  assume "\<not> th_paused (or_handle a s)" and "outgoing_istep env ps tid src a s t"
  with outgoing_istep_pool [OF this(2) refl] show "\<not> th_paused (or_handle a t)"
    using istep_paused by fastforce
next
  fix s :: "('a, 'b) outgoing_run" and env :: "('a, 'b) env" and ps tid src a
  assume "\<not> th_paused (or_handle a s)" and "\<nexists>r. or_pc s = Returned r"
  then have "\<exists>t. pool_istep OutgoingTransfer DEFAULT_PARALLELISM (\<lambda>_. Inr []) (pool_of a s) t"
    by (intro istep_progress) (simp_all add: DEFAULT_PARALLELISM_def)
  then show "\<exists>t. outgoing_istep env ps tid src a s t" using outgoing_can_step by blast
qed

section \<open>What the loop has done\<close>

lemma outgoing_pool_inv:
  assumes "(outgoing_step env can_write ps tid src a)\<^sup>*\<^sup>* (outgoing_init a m) s"
  shows "(pool_step OutgoingTransfer DEFAULT_PARALLELISM (chunk_source (m_fs m) src))\<^sup>*\<^sup>*
      (pool_init (m_handles m a)) (pool_of a s)"
    "pool_inv DEFAULT_PARALLELISM (m_handles m a) (pool_of a s)" "m_fs (or_manager s) = m_fs m"
proof -
  have init: "or_manager (outgoing_init a m) = m" by (simp add: outgoing_init_def)
  show run: "(pool_step OutgoingTransfer DEFAULT_PARALLELISM (chunk_source (m_fs m) src))\<^sup>*\<^sup>*
      (pool_init (m_handles m a)) (pool_of a s)"
    using outgoing_run_pool [OF assms] by (simp add: init)
  show "m_fs (or_manager s) = m_fs m" using outgoing_run_pool [OF assms] by (simp add: init)
  show "pool_inv DEFAULT_PARALLELISM (m_handles m a) (pool_of a s)" by (rule workers.reachable_inv [OF refl run])
qed

text \<open>C18: the loop of \<open>run_outgoing_transfer\<close> on the state of the manager is the loop of the workers: whatever its tasks,
  the writers, the forwarders and the user interface do, it is in a state the worker loop can reach on the same
  handle, with never more than six tasks at work; and from there it can always go on until it returns, unless the
  transfer is paused.\<close>

theorem outgoing_refines_workers:
  assumes "(outgoing_step env can_write ps tid src a)\<^sup>*\<^sup>* (outgoing_init a m) s"
  shows "(pool_step OutgoingTransfer DEFAULT_PARALLELISM (chunk_source (m_fs m) src))\<^sup>*\<^sup>*
      (pool_init (m_handles m a)) (pool_of a s) \<and>
    or_running s \<le> DEFAULT_PARALLELISM \<and>
    (\<not> th_paused (or_handle a s) \<longrightarrow>
      (\<exists>t r. (outgoing_istep env ps tid src a)\<^sup>*\<^sup>* s t \<and> or_pc t = Returned r) \<and>
      (\<forall>k t. (outgoing_istep env ps tid src a ^^ k) s t \<longrightarrow> k \<le> pool_weight (pool_of a s)))"
proof (intro conjI impI)
  show "(pool_step OutgoingTransfer DEFAULT_PARALLELISM (chunk_source (m_fs m) src))\<^sup>*\<^sup>*
      (pool_init (m_handles m a)) (pool_of a s)" by (rule outgoing_pool_inv(1) [OF assms])
  show "or_running s \<le> DEFAULT_PARALLELISM" using outgoing_pool_inv(2) [OF assms] by (simp add: pool_inv_def)
  assume "\<not> th_paused (or_handle a s)"
  then show "\<exists>t r. (outgoing_istep env ps tid src a)\<^sup>*\<^sup>* s t \<and> or_pc t = Returned r"
    "\<forall>k t. (outgoing_istep env ps tid src a ^^ k) s t \<longrightarrow> k \<le> pool_weight (pool_of a s)"
    using outgoing_end.reaches_end [where s = s and a = a and env = env and ps = ps and tid = tid and src = src]
      outgoing_end.runs_bounded [where s = s and a = a and env = env and ps = ps and tid = tid and src = src] by blast+
qed

end
