(* ===== verification/File_Transfer.thy ===== *)
theory File_Transfer
  imports Outgoing
begin

text \<open>
  A file on its way from one device to another: the loop of \<open>run_outgoing_transfer\<close> with its tasks on the sending
  side, the writer of the transfer's stream beside them, the bytes of that stream, the reader task of the stream on
  the other side, and what the receiving side makes of the chunks, while it acknowledges them over the same Noise
  session.
\<close>

section \<open>The sending side\<close>

abbreviation chunk_msg :: "('h, 't) env \<Rightarrow> string \<Rightarrow> bytes \<Rightarrow> u64 \<Rightarrow> protocol_message" where
  "chunk_msg env tid content i \<equiv> FileChunk (chunk_message env tid content i)"

lemma chunk_task_queued:
  assumes "m_streams m (c, tid) = Some \<lparr>st_queue = q, st_written = w, st_running = True\<rparr>"
    and "files (m_fs m) (source_path src) = Some content" and "length content < 2 ^ 63"
    and "i \<in> in_range (of_nat (length content))"
    and "chunk_task env now c tid src h i m = (r, m1)"
  shows "r = Inr ()" "m_streams m1 =
      (m_streams m)((c, tid) \<mapsto> \<lparr>st_queue = q @ [chunk_msg env tid content i], st_written = w, st_running = True\<rparr>)"
    "m_noise m1 = m_noise m"
    "m_handles m1 h = mark_chunk_acked now i (of_nat (chunk_len (length content) (unat i))) (m_handles m h)"
proof -
  have "unat i < num_chunks (length content)"
    using assms(3,4) by (simp add: in_range_def unat_of_length)
  then have "read_chunk_from_source (m_fs m) src i = Inr (chunk_of content (unat i))"
    by (rule read_chunk_in_file [OF assms(2) _ assms(3)])
  then show "r = Inr ()" "m_streams m1 =
      (m_streams m)((c, tid) \<mapsto> \<lparr>st_queue = q @ [chunk_msg env tid content i], st_written = w, st_running = True\<rparr>)"
    "m_noise m1 = m_noise m"
    "m_handles m1 h = mark_chunk_acked now i (of_nat (chunk_len (length content) (unat i))) (m_handles m h)"
    using assms(1,5)
    by (auto simp: chunk_task_def stream_send_def chunk_frame_new_def update_handle_def emit_def Let_def chunk_message_def)
qed

text \<open>The writer task on messages that fit.\<close>

lemma length_boxes [simp]: "length (boxes box k n ps) = length ps"
  by (induction ps arbitrary: n) simp_all

lemma boxes_append: "boxes box k n (xs @ ys) = boxes box k n xs @ boxes box k (n + length xs) ys"
  by (induction xs arbitrary: n) simp_all

lemma stream_writer_fits:
  assumes "snow_laws (e_snow env) view box" and "n_out (view t) + length msgs < 2 ^ 64"
    and "\<And>msg. msg \<in> set msgs \<Longrightarrow> sendable env msg"
  shows "\<exists>t'. stream_writer env (\<lambda>_. True) (Transport t) msgs =
      (map write_framed (boxes box (key_out (view t)) (n_out (view t)) (map (plaintext_of env) msgs)), True, Transport t') \<and>
    key_out (view t') = key_out (view t) \<and> n_out (view t') = n_out (view t) + length msgs"
  using assms(2,3)
proof (induction msgs arbitrary: t)
  case (Cons msg msgs)
  note p = sendable_plaintext [of env msg]
  obtain t1 where t1: "encrypt (e_snow env) (Transport t) (plaintext_of env msg) =
      (Inr (box (key_out (view t)) (n_out (view t)) (plaintext_of env msg)), Transport t1)"
      "view t1 = (view t)\<lparr>n_out := Suc (n_out (view t))\<rparr>"
    using encrypt_fits [OF assms(1), of "plaintext_of env msg" t] p Cons.prems by auto
  obtain t2 where "stream_writer env (\<lambda>_. True) (Transport t1) msgs =
      (map write_framed (boxes box (key_out (view t)) (Suc (n_out (view t))) (map (plaintext_of env) msgs)), True, Transport t2)"
      "key_out (view t2) = key_out (view t)" "n_out (view t2) = Suc (n_out (view t)) + length msgs"
    using Cons.IH [of t1] Cons.prems t1(2) by auto
  then show ?case using p Cons.prems(2) t1(1) by (simp del: encrypt.simps)
qed simp

text \<open>The one stream of the transfer: what its writer has put on it and what waits for it are the chunks sent so
  far, in the order of their tasks, and no other stream of the transfer is there.\<close>

definition stream_ok ::
    "('h, 't) env \<Rightarrow> ('t \<Rightarrow> noise_view) \<Rightarrow> (bytes \<Rightarrow> nat \<Rightarrow> bytes \<Rightarrow> bytes) \<Rightarrow> stream_id \<Rightarrow> nat \<Rightarrow> string \<Rightarrow> bytes \<Rightarrow> bytes \<Rightarrow> nat \<Rightarrow>
      u64 list \<Rightarrow> ('h, 't) manager \<Rightarrow> bool" where
  "stream_ok env view box c b tid content k n is m \<longleftrightarrow>
     (\<forall>c'. c' \<noteq> c \<longrightarrow> m_streams m (c', tid) = None) \<and>
     (\<exists>t written waiting. m_noise m b = Transport t \<and> key_out (view t) = k \<and> n_out (view t) = n + length written \<and>
        written @ waiting = map (chunk_msg env tid content) is \<and>
        (case m_streams m (c, tid) of
           None \<Rightarrow> is = []
         | Some st \<Rightarrow> st = \<lparr>st_queue = waiting,
             st_written = map write_framed (boxes box k n (map (plaintext_of env) written)), st_running = True\<rparr>))"

definition sending_ok ::
    "('h, 't) env \<Rightarrow> ('t \<Rightarrow> noise_view) \<Rightarrow> (bytes \<Rightarrow> nat \<Rightarrow> bytes \<Rightarrow> bytes) \<Rightarrow> stream_id \<Rightarrow> nat \<Rightarrow> string \<Rightarrow> bytes \<Rightarrow> bytes \<Rightarrow> nat \<Rightarrow>
      nat \<Rightarrow> ('h, 't) outgoing_run \<Rightarrow> bool" where
  "sending_ok env view box c b tid content k n h s \<longleftrightarrow>
     stream_ok env view box c b tid content k n (or_sent s) (or_manager s) \<and>
     set (or_streams s) \<subseteq> {c} \<and> length (or_streams s) = length (or_tasks s) \<and>
     (or_streams s \<noteq> [] \<longrightarrow> m_streams (or_manager s) (c, tid) \<noteq> None) \<and>
     unat (th_bytes_transferred (or_handle h s)) = acked_bytes (length content) (th_acked_chunks (or_handle h s))"

lemma stream_ok_same:
  "m_streams m' = m_streams m \<Longrightarrow> m_noise m' = m_noise m \<Longrightarrow>
    stream_ok env view box c b tid content k n is m' \<longleftrightarrow> stream_ok env view box c b tid content k n is m"
  by (simp add: stream_ok_def)

lemma stream_ok_opened:
  assumes "stream_ok env view box c b tid content k n is m" and "ps_outbound ps = Quic conn" and "c = OnConnection conn"
    and "transfer_stream_sender opened ps tid m = (r, m1)"
  shows "stream_ok env view box c b tid content k n is m1 \<and> (\<forall>c'. r = Inr c' \<longrightarrow> c' = c \<and> m_streams m1 (c, tid) \<noteq> None) \<and>
    (m_streams m (c, tid) \<noteq> None \<longrightarrow> m_streams m1 (c, tid) \<noteq> None)"
proof (cases "m_streams m (c, tid)")
  case None
  show ?thesis
  proof (cases opened)
    case (Inr u)
    obtain t where "m_noise m b = Transport t" "key_out (view t) = k" "n_out (view t) = n" "is = []"
      "\<forall>c'. c' \<noteq> c \<longrightarrow> m_streams m (c', tid) = None"
      using assms(1) None by (auto simp: stream_ok_def)
    then show ?thesis
      using assms(2-4) None Inr by (auto simp: transfer_stream_sender_def stream_ok_def intro!: exI [of _ t])
  qed (use assms None in \<open>auto simp: transfer_stream_sender_def\<close>)
qed (use assms in \<open>auto simp: transfer_stream_sender_def\<close>)

lemma stream_ok_queued:
  assumes "stream_ok env view box c b tid content k n is m" and "m_streams m (c, tid) \<noteq> None"
    and "files (m_fs m) (source_path src) = Some content" and "length content < 2 ^ 63"
    and "i \<in> in_range (of_nat (length content))" and "chunk_task env now c tid src h i m = (r, m1)"
  shows "r = Inr () \<and> stream_ok env view box c b tid content k n (is @ [i]) m1 \<and> m_streams m1 (c, tid) \<noteq> None \<and>
    m_handles m1 h = mark_chunk_acked now i (of_nat (chunk_len (length content) (unat i))) (m_handles m h)"
proof -
  obtain t written waiting where st: "m_noise m b = Transport t" "key_out (view t) = k" "n_out (view t) = n + length written"
      "written @ waiting = map (chunk_msg env tid content) is" "\<forall>c'. c' \<noteq> c \<longrightarrow> m_streams m (c', tid) = None"
      "m_streams m (c, tid) = Some \<lparr>st_queue = waiting,
        st_written = map write_framed (boxes box k n (map (plaintext_of env) written)), st_running = True\<rparr>"
    using assms(1,2) by (auto simp: stream_ok_def)
  note q = chunk_task_queued [OF st(6) assms(3-6)]
  have w: "written @ waiting @ [chunk_msg env tid content i] = map (chunk_msg env tid content) (is @ [i])"
    using st(4) by simp
  have "stream_ok env view box c b tid content k n (is @ [i]) m1"
    unfolding stream_ok_def q(2,3) using st(1-3,5) w by (intro conjI exI [of _ t] exI [of _ written] exI) auto
  then show ?thesis using q by simp
qed

lemma stream_ok_written:
  assumes "stream_ok env view box c b tid content k n is m" and "snow_laws (e_snow env) view box"
    and "n + length is < 2 ^ 64" and "\<And>i. i \<in> set is \<Longrightarrow> sendable env (chunk_msg env tid content i)"
  shows "stream_ok env view box c b tid content k n is (run_stream_writer env (\<lambda>_. True) b c' tid m) \<and>
    (m_streams m (c, tid) \<noteq> None \<longrightarrow> m_streams (run_stream_writer env (\<lambda>_. True) b c' tid m) (c, tid) \<noteq> None)"
proof (cases "m_streams m (c', tid)")
  case None
  then show ?thesis using assms(1) by (simp add: run_stream_writer_def)
next
  case (Some st')
  then have c: "c' = c" using assms(1) by (auto simp: stream_ok_def)
  obtain t written waiting where st: "m_noise m b = Transport t" "key_out (view t) = k" "n_out (view t) = n + length written"
      "written @ waiting = map (chunk_msg env tid content) is" "\<forall>c'. c' \<noteq> c \<longrightarrow> m_streams m (c', tid) = None"
      "m_streams m (c, tid) = Some \<lparr>st_queue = waiting,
        st_written = map write_framed (boxes box k n (map (plaintext_of env) written)), st_running = True\<rparr>"
    using assms(1) Some c by (auto simp: stream_ok_def)
  have len: "length written + length waiting = length is" using st(4) by (metis length_append length_map)
  have ok: "sendable env msg" if "msg \<in> set waiting" for msg
  proof -
    have "msg \<in> set (map (chunk_msg env tid content) is)" using that st(4) by (metis Un_iff set_append)
    then show ?thesis using assms(4) by auto
  qed
  obtain t' where t': "stream_writer env (\<lambda>_. True) (Transport t) waiting =
      (map write_framed (boxes box k (n + length written) (map (plaintext_of env) waiting)), True, Transport t')"
      "key_out (view t') = k" "n_out (view t') = n + length written + length waiting"
    using stream_writer_fits [OF assms(2), where t = t and msgs = waiting] ok assms(3) st(2,3) len by auto
  let ?m = "run_stream_writer env (\<lambda>_. True) b c' tid m"
  have m': "m_noise ?m b = Transport t'" "m_streams ?m = (m_streams m)((c, tid) \<mapsto> \<lparr>st_queue = [],
      st_written = map write_framed (boxes box k n (map (plaintext_of env) (written @ waiting))), st_running = True\<rparr>)"
    using st(1,6) t'(1) by (simp_all add: c run_stream_writer_def boxes_append)
  show ?thesis
    unfolding stream_ok_def
    using st(4,5) t'(2,3) len by (auto simp: m' intro!: exI [of _ "written @ waiting"])
qed
text \<open>The invariant of the worker loop on a fresh handle.\<close>

lemma pool_inv_chunks:
  assumes "pool_inv p h0 q" and "th_total_chunks h0 = div_ceil (of_nat n) (of_nat CHUNK_SIZE)" and "n < 2 ^ 63"
    and "th_acked_chunks h0 = {}"
  shows "fst ` set (tasks q) \<subseteq> in_range (of_nat n)" "set (sent q) \<subseteq> in_range (of_nat n)" "distinct (sent q)"
    "th_acked_chunks (handle q) = set (sent q)" "length (sent q) \<le> num_chunks n"
proof -
  have n: "unat (of_nat n :: u64) = n" using assms(3) by (simp add: unat_of_nat)
  have c: "chunks_inv h0 q" and a: "acks_inv h0 q" using assms(1) by (simp_all add: pool_inv_def)
  obtain l where "map fst (tasks q) @ taken (pc q) @ l @ todo q = pending_chunk_indices h0"
    using c by (auto simp: chunks_inv_def)
  then have "set (map fst (tasks q)) \<subseteq> set (pending_chunk_indices h0)" by (metis Un_upper1 set_append)
  then show t: "fst ` set (tasks q) \<subseteq> in_range (of_nat n)"
    using assms(2,3) by (auto simp: set_pending in_range_def n unat_div_ceil_chunks word_less_nat_alt)
  show "distinct (sent q)" "th_acked_chunks (handle q) = set (sent q)" using a assms(4) by (simp_all add: acks_inv_def)
  show s: "set (sent q) \<subseteq> in_range (of_nat n)" using a t by (force simp: acks_inv_def done_tasks_def)
  show "length (sent q) \<le> num_chunks n"
    using card_mono [OF finite_in_range s] distinct_card [of "sent q"] a assms(3)
    by (simp add: acks_inv_def n)
qed
lemma sending_ok_step:
  assumes "sending_ok env view box c b tid content k n h s" and "outgoing_step env (\<lambda>_. True) ps tid src h s s'"
    and "ps_outbound ps = Quic conn" and "c = OnConnection conn" and "ps_noise ps = b"
    and "snow_laws (e_snow env) view box" and "files (m_fs (or_manager s)) (source_path src) = Some content"
    and "length content < 2 ^ 63" and "fst ` set (or_tasks s) \<subseteq> in_range (of_nat (length content))"
    and "set (or_sent s) \<subseteq> in_range (of_nat (length content))"
    and "th_acked_chunks (or_handle h s) = set (or_sent s)" and "n + length (or_sent s) < 2 ^ 64"
    and "\<And>i. i \<in> in_range (of_nat (length content)) \<Longrightarrow> sendable env (chunk_msg env tid content i)"
  shows "sending_ok env view box c b tid content k n h s'"
proof -
  note ok = assms(1) [unfolded sending_ok_def]
  have stream: "stream_ok env view box c b tid content k n (or_sent s) (or_manager s)" using ok by blast
  from assms(2) show ?thesis
  proof (cases rule: outgoing_step.cases)
    case inside
    then show ?thesis
    proof (cases rule: outgoing_istep.cases)
      case (spawned i opened d m)
      note o = stream_ok_opened [OF stream assms(3,4) spawned(4)]
      have "m_handles m = m_handles (or_manager s)" using opening_keeps [OF spawned(4)] by simp
      then show ?thesis using ok o by (auto simp: sending_ok_def spawned(1))
    next
      case (not_opened i opened e m)
      note o = stream_ok_opened [OF stream assms(3,4) not_opened(4)]
      have "m_handles m = m_handles (or_manager s)" using opening_keeps [OF not_opened(4)] by simp
      then show ?thesis using ok o by (auto simp: sending_ok_def not_opened(1))
    next
      case (task_ran j i now r m)
      have l: "j < length (or_streams s)" using task_ran(2) ok by simp
      then have d: "or_streams s ! j = c" using ok nth_mem [OF l] by blast
      have "(i, None) \<in> set (or_tasks s)" using task_ran(2) nth_mem [of j "or_tasks s"] by (simp add: task_ran(3))
      then have i: "i \<in> in_range (of_nat (length content))" using assms(9) by force
      have there: "m_streams (or_manager s) (c, tid) \<noteq> None" using ok l by auto
      note q = stream_ok_queued [OF stream there assms(7,8) i task_ran(4) [unfolded d]]
      have "unat (th_bytes_transferred (m_handles m h)) = acked_bytes (length content) (th_acked_chunks (m_handles m h))"
        using mark_bytes_acked [of "or_handle h s" "length content" i now] ok assms(8,10,11) i q by simp
      then show ?thesis using ok q by (simp add: sending_ok_def task_ran(1))
    qed (use ok in \<open>simp_all add: sending_ok_def\<close>)
  next
    case (stream_writes d)
    have send: "sendable env (chunk_msg env tid content i)" if "i \<in> set (or_sent s)" for i
      using assms(10,13) that by blast
    note w = stream_ok_written [OF stream assms(6,12) send, of "OnConnection d"]
    then show ?thesis using ok by (simp add: sending_ok_def stream_writes assms(5))
  next
    case (relay_forwards a)
    then show ?thesis using ok assms(3) by (simp add: sending_ok_def run_relay_forwarder_def)
  qed (use ok in \<open>auto simp: sending_ok_def update_handle_def pause_def resume_def cancel_def stream_ok_def\<close>)
qed

lemma sending_ok_run:
  assumes "(outgoing_step env (\<lambda>_. True) ps tid src h)\<^sup>*\<^sup>* (outgoing_init h m) s"
    and "ps_outbound ps = Quic conn" and "c = OnConnection conn" and "ps_noise ps = b"
    and "snow_laws (e_snow env) view box" and "files (m_fs m) (source_path src) = Some content"
    and "length content < 2 ^ 63" and "m_handles m h = handle_new now0 tid name (of_nat (length content))"
    and "\<And>c'. m_streams m (c', tid) = None" and "m_noise m b = Transport t"
    and "n_out (view t) + num_chunks (length content) < 2 ^ 64"
    and "\<And>i. i \<in> in_range (of_nat (length content)) \<Longrightarrow> sendable env (chunk_msg env tid content i)"
  shows "sending_ok env view box c b tid content (key_out (view t)) (n_out (view t)) h s"
  using assms(1)
proof (induction rule: rtranclp_induct)
  case base
  show ?case
    using assms(8-10) by (simp add: sending_ok_def stream_ok_def outgoing_init_def acked_bytes_def)
next
  case (step s s')
  note inv = outgoing_pool_inv [OF step(1)]
  have "th_total_chunks (m_handles m h) = div_ceil (of_nat (length content)) (of_nat CHUNK_SIZE)"
    "th_acked_chunks (m_handles m h) = {}" using assms(8) by (simp_all add: handle_new_def)
  note chunks = pool_inv_chunks [OF inv(2) this(1) assms(7) this(2), simplified]
  show ?case
    by (rule sending_ok_step [OF step(3,2) assms(2-5) _ assms(7) chunks(1,2,4) _ assms(12)])
      (use inv(3) assms(6,11) chunks(5) in simp_all)
qed
section \<open>The receiving side\<close>

lemma receiving_noise [simp]: "receiving tid dest content A (m\<lparr>m_noise := ns\<rparr>) \<longleftrightarrow> receiving tid dest content A m"
  by (simp add: receiving_def)

lemma received_noise [simp]: "received tid dest content (m\<lparr>m_noise := ns\<rparr>) \<longleftrightarrow> received tid dest content m"
  by (simp add: received_def)

text \<open>Acknowledging does not move the receiving direction of a session.\<close>

definition reads_at :: "('t \<Rightarrow> noise_view) \<Rightarrow> nat \<Rightarrow> bytes \<Rightarrow> nat \<Rightarrow> ('h, 't) manager \<Rightarrow> bool" where
  "reads_at view b k n m \<longleftrightarrow> (\<exists>t. m_noise m b = Transport t \<and> key_in (view t) = k \<and> n_in (view t) = n)"

lemma reads_at_same: "m_noise m' = m_noise m \<Longrightarrow> reads_at view b k n m' \<longleftrightarrow> reads_at view b k n m"
  by (simp add: reads_at_def)

lemma reads_at_try_send:
  assumes "snow_laws (e_snow env) view box" and "reads_at view b k n m"
  shows "reads_at view b k n (try_send env did msg m)"
proof -
  have w: "key_in (view (snd (ts_write (e_snow env) t p size))) = key_in (view t)"
    "n_in (view (snd (ts_write (e_snow env) t p size))) = n_in (view t)" for t p size
    using assms(1) by (simp_all add: snow_laws_def write_separate_def)
  have "reads_at view b k n (snd (encrypt_with env a p m'))" if "reads_at view b k n m'" for a p and m' :: "('a, 'b) manager"
    using that w by (cases "m_noise m' a") (auto simp: reads_at_def encrypt_with_def Let_def case_prod_beta)
  then have e: "reads_at view b k n m1" if "encrypt_with env a p m = (r, m1)" for a p r m1
    using that assms(2) by (metis snd_conv)
  have o: "reads_at view b k n (snd (put_outbound env path ct m1))" if "reads_at view b k n m1" for path ct m1
    using that by (cases path) (simp_all add: reads_at_def Let_def case_prod_beta)
  show ?thesis
    using assms(2) by (auto simp: try_send_def send_message_def o dest: e split: option.split sum.split prod.split)
qed

lemma reads_at_chunk:
  assumes "snow_laws (e_snow env) view box" and "reads_at view b k n m"
  shows "reads_at view b k n (handle_incoming_chunk env now src c m)"
proof -
  have r: "reads_at view b k n (record_chunk env now c a fs m)" for a fs
    using assms(2) by (simp add: reads_at_def record_chunk_def update_handle_def emit_def Let_def)
  have "reads_at view b k n (complete_incoming env now src tid a m1)" if "reads_at view b k n m1" for tid a m1
    unfolding complete_incoming_def Let_def
    by (rule reads_at_try_send [OF assms(1)]) (use that in \<open>simp add: reads_at_def\<close>)
  then show ?thesis
    using assms(2) by (simp add: handle_incoming_chunk_def Let_def r reads_at_try_send [OF assms(1)] split: option.split sum.split)
qed

lemma chunk_frame_read:
  assumes "snow_laws (e_snow env) view box" and "reads_at view b k n m" and "n < 2 ^ 64 - 1"
    and "sendable env (FileChunk c)"
  shows "\<exists>ns. decrypt_and_dispatch env now src b (box k n (plaintext_of env (FileChunk c))) m =
      (True, handle_incoming_chunk env now src c (m\<lparr>m_noise := ns\<rparr>)) \<and>
    reads_at view b k (Suc n) (handle_incoming_chunk env now src c (m\<lparr>m_noise := ns\<rparr>))"
proof -
  obtain t where t: "m_noise m b = Transport t" "key_in (view t) = k" "n_in (view t) = n"
    using assms(2) by (auto simp: reads_at_def)
  obtain t1 where d: "decrypt_and_dispatch env now src b (box k n (plaintext_of env (FileChunk c))) m =
      (True, dispatch_incoming env now src (FileChunk c) (m\<lparr>m_noise := (m_noise m)(b := Transport t1)\<rparr>))"
      "view t1 = (view t)\<lparr>n_in := Suc (n_in (view t))\<rparr>"
    using decrypt_and_dispatch_expected [OF assms(1) t(1) _ assms(4), of now src] t(2,3) assms(3) by auto
  have "reads_at view b k (Suc n) (m\<lparr>m_noise := (m_noise m)(b := Transport t1)\<rparr>)"
    using t d(2) by (simp add: reads_at_def)
  then show ?thesis
    using reads_at_chunk [OF assms(1)] d(1) by (intro exI [of _ "(m_noise m)(b := Transport t1)"]) simp
qed

text \<open>The reader task of the stream, once nothing is missing and while something is.\<close>

lemma read_late_chunks:
  assumes "snow_laws (e_snow env) view box" and "reads_at view b k n m" and "n + length is < 2 ^ 64"
    and "\<And>i. i \<in> set is \<Longrightarrow> sendable env (chunk_msg env tid content i)" and "length instants = length is"
    and "received tid dest content m"
  shows "received tid dest content (read_frames env src b
      (zip instants (boxes box k n (map (\<lambda>i. plaintext_of env (chunk_msg env tid content i)) is))) m) \<and>
    m_events (read_frames env src b
      (zip instants (boxes box k n (map (\<lambda>i. plaintext_of env (chunk_msg env tid content i)) is))) m) = m_events m"
  using assms(2-)
proof (induction "is" arbitrary: m n instants)
  case (Cons i "is")
  obtain now later where instants: "instants = now # later" using Cons.prems(4) by (cases instants) auto
  obtain ns where d: "decrypt_and_dispatch env now src b (box k n (plaintext_of env (chunk_msg env tid content i))) m =
      (True, handle_incoming_chunk env now src (chunk_message env tid content i) (m\<lparr>m_noise := ns\<rparr>))"
      "reads_at view b k (Suc n) (handle_incoming_chunk env now src (chunk_message env tid content i) (m\<lparr>m_noise := ns\<rparr>))"
    using chunk_frame_read [OF assms(1) Cons.prems(1), of "chunk_message env tid content i" now src] Cons.prems(2,3) by auto
  have "handle_incoming_chunk env now src (chunk_message env tid content i) (m\<lparr>m_noise := ns\<rparr>) = m\<lparr>m_noise := ns\<rparr>"
    by (rule unknown_chunk_ignored) (use Cons.prems(5) in \<open>simp add: received_def\<close>)
  then show ?case
    using Cons.IH [of "Suc n" "m\<lparr>m_noise := ns\<rparr>" later] Cons.prems d instants by simp
qed simp

lemma read_chunks:
  assumes "snow_laws (e_snow env) view box" and "length content < 2 ^ 63"
    and "reads_at view b k n m" and "n + length is < 2 ^ 64"
    and "\<And>i. i \<in> set is \<Longrightarrow> sendable env (chunk_msg env tid content i)" and "length instants = length is"
    and "receiving tid dest content A m" and "set is \<subseteq> in_range (of_nat (length content))"
    and "A \<union> set is = in_range (of_nat (length content))"
  shows "\<exists>evs. m_events (read_frames env src b
      (zip instants (boxes box k n (map (\<lambda>i. plaintext_of env (chunk_msg env tid content i)) is))) m) = m_events m @ evs \<and>
    completions evs = [tid] \<and> received tid dest content (read_frames env src b
      (zip instants (boxes box k n (map (\<lambda>i. plaintext_of env (chunk_msg env tid content i)) is))) m)"
  using assms(3-)
proof (induction "is" arbitrary: m n instants A)
  case Nil
  then show ?case by (auto simp: receiving_def)
next
  case (Cons i "is")
  obtain now later where instants: "instants = now # later" using Cons.prems(4) by (cases instants) auto
  obtain ns where d: "decrypt_and_dispatch env now src b (box k n (plaintext_of env (chunk_msg env tid content i))) m =
      (True, handle_incoming_chunk env now src (chunk_message env tid content i) (m\<lparr>m_noise := ns\<rparr>))"
      "reads_at view b k (Suc n) (handle_incoming_chunk env now src (chunk_message env tid content i) (m\<lparr>m_noise := ns\<rparr>))"
    using chunk_frame_read [OF assms(1) Cons.prems(1), of "chunk_message env tid content i" now src] Cons.prems(2,3) by auto
  let ?m1 = "handle_incoming_chunk env now src (chunk_message env tid content i) (m\<lparr>m_noise := ns\<rparr>)"
  have i: "i \<in> in_range (of_nat (length content))" using Cons.prems(6) by simp
  have m: "receiving tid dest content A (m\<lparr>m_noise := ns\<rparr>)" using Cons.prems(5) by simp
  note c = chunk_received [OF m assms(2) i refl, of env now src]
  show ?case
  proof (cases "insert i A = in_range (of_nat (length content))")
    case True
    then obtain p where e: "received tid dest content ?m1" "m_events ?m1 = m_events m @ [OnTransferProgress p, OnTransferComplete tid]"
      using c by auto
    show ?thesis
      using read_late_chunks [OF assms(1) d(2) _ _ _ e(1), of "is" later src] Cons.prems(2-4) e(2) d(1) instants
      by (intro exI [of _ "[OnTransferProgress p, OnTransferComplete tid]"]) (simp add: o_def)
  next
    case False
    then obtain p where e: "receiving tid dest content (insert i A) ?m1" "m_events ?m1 = m_events m @ [OnTransferProgress p]"
      using c by auto
    have u: "insert i A \<union> set is = in_range (of_nat (length content))" using Cons.prems(7) by auto
    obtain evs where "m_events (read_frames env src b
          (zip later (boxes box k (Suc n) (map (\<lambda>i. plaintext_of env (chunk_msg env tid content i)) is))) ?m1) = m_events ?m1 @ evs"
        "completions evs = [tid]" "received tid dest content (read_frames env src b
          (zip later (boxes box k (Suc n) (map (\<lambda>i. plaintext_of env (chunk_msg env tid content i)) is))) ?m1)"
      using Cons.IH [OF d(2) _ _ _ e(1) _ u, of later] Cons.prems(2-4,6) instants by auto
    then show ?thesis
      using e(2) d(1) instants by (intro exI [of _ "[OnTransferProgress p] @ evs"]) (simp add: completions_def)
  qed
qed

section \<open>The whole way\<close>

text \<open>What the sender has done when its loop has returned without having been cancelled.\<close>

lemma all_chunks_handed_over:
  assumes "(outgoing_step env can_write ps tid src h)\<^sup>*\<^sup>* (outgoing_init h m) s"
    and "m_handles m h = handle_new now0 tid name (of_nat (length content))" and "length content < 2 ^ 63"
    and "or_pc s = Returned (Inr ())" and "\<not> th_cancelled (or_handle h s)"
  shows "set (or_sent s) = in_range (of_nat (length content))" "length (or_sent s) = num_chunks (length content)"
    "pending_chunk_indices (or_handle h s) = []" "th_acked_chunks (or_handle h s) = set (or_sent s)"
proof -
  let ?R = "in_range (of_nat (length content))"
  have h: "th_total_chunks (m_handles m h) = div_ceil (of_nat (length content)) (of_nat CHUNK_SIZE)"
    "th_acked_chunks (m_handles m h) = {}" using assms(2) by (simp_all add: handle_new_def)
  note inv = outgoing_pool_inv [OF assms(1)]
  note chunks = pool_inv_chunks [OF inv(2) h(1) assms(3) h(2), simplified]
  have L: "unat (of_nat (length content) :: u64) = length content" by (rule unat_of_length [OF assms(3)])
  have "set (pending_chunk_indices (m_handles m h)) = ?R"
    using h assms(3) by (auto simp: set_pending in_range_def L unat_div_ceil_chunks)
  then show sent: "set (or_sent s) = ?R" using pool_completed(1) [OF inv(2)] assms(4,5) by simp
  then show "length (or_sent s) = num_chunks (length content)" using distinct_card [OF chunks(3)] L by simp
  show "pending_chunk_indices (or_handle h s) = []" using pool_completed(2) [OF inv(2)] assms(4,5) by simp
  show "th_acked_chunks (or_handle h s) = set (or_sent s)" by (rule chunks(4))
qed

text \<open>Its handle then counts the whole file, if every chunk was counted with its length.\<close>

lemma all_bytes_counted:
  assumes "unat (th_bytes_transferred x) = acked_bytes (length content) (th_acked_chunks x)" and "length content < 2 ^ 63"
    and "th_acked_chunks x = in_range (of_nat (length content))"
  shows "unat (th_bytes_transferred x) = length content"
  using assms acked_bytes_all [of "of_nat (length content)"] unat_of_length [OF assms(2)] by simp

text \<open>And it reports completion with it.\<close>

lemma completion_reported:
  assumes "outgoing_result env now bob tid h s = Some (Inr (), m')" and "\<not> th_cancelled (or_handle h s)"
  shows "or_pc s = Returned (Inr ()) \<and> m_outgoing m' tid = None \<and>
    (\<exists>p. m_events m' = m_events (or_manager s) @ [OnTransferProgress p] \<and> tp_state p = ''completed'' \<and>
      tp_bytes_transferred p = th_bytes_transferred (or_handle h s))"
proof -
  have "or_pc s = Returned (Inr ())" and "m' = finish_outgoing env now bob tid h (or_manager s)"
    using assms(1) by (auto simp: outgoing_result_def split: loop_pc.splits sum.splits)
  then show ?thesis
    using assms(2) by (auto simp: finish_outgoing_def Let_def emit_def remove_outgoing_def drop_sender_def progress_def
        split: option.split)
qed


section \<open>A file of three bytes\<close>

definition chunk_wire :: wire where
  "chunk_wire = \<lparr>to_vec = (\<lambda>m. case m of FileChunk c \<Rightarrow> Inr (fc_payload c) | _ \<Rightarrow> Inl ''unsupported''),
     from_slice = (\<lambda>b. Inr (FileChunk \<lparr>fc_transfer_id = ''t'', fc_chunk_index = 0, fc_payload = b,
       fc_checksum_sha256 = sha256 toy_crypto b\<rparr>))\<rparr>"

definition transfer_env :: "(bytes, noise_view) env" where
  "transfer_env = toy_env\<lparr>e_wire := chunk_wire\<rparr>"

definition bob_session :: peer_session where
  "bob_session = \<lparr>ps_device_id = ''bob'', ps_noise = 0, ps_outbound = Quic 0\<rparr>"

definition sending_toy :: "(bytes, noise_view) manager" where
  "sending_toy = toy_manager\<lparr>m_fs := \<lparr>files = [''/f'' \<mapsto> [1, 2, 3]], creatable = (\<lambda>_. True)\<rparr>,
     m_sessions := [''bob'' \<mapsto> bob_session],
     m_handles := (\<lambda>_. handle_new 0 ''t'' ''f'' (of_nat (length [1, 2, 3 :: u8])))\<rparr>"

lemma transfer_env_simps [simp]:
  "e_snow transfer_env = toy_snow" "e_crypto transfer_env = toy_crypto" "e_wire transfer_env = chunk_wire"
  by (simp_all add: transfer_env_def toy_env_def)

lemma sending_toy_simps [simp]:
  "files (m_fs sending_toy) (source_path (Path ''/f'')) = Some [1, 2, 3]" "m_streams sending_toy = Map.empty"
  "outgoing_session ''bob'' sending_toy = Inr bob_session" "m_noise sending_toy 0 = Transport toy_view"
  "m_handles sending_toy 5 = handle_new 0 ''t'' ''f'' (of_nat (length [1, 2, 3 :: u8]))"
  "ps_outbound bob_session = Quic 0" "ps_noise bob_session = 0"
  by (simp_all add: sending_toy_def toy_manager_def outgoing_session_def bob_session_def)

lemma small_chunk_sendable: "sendable transfer_env (chunk_msg transfer_env ''t'' [1, 2, 3] 0)"
proof -
  have "length (chunk_of [1, 2, 3 :: u8] 0) \<le> 3" by (simp add: chunk_len_def)
  then show ?thesis
    by (simp add: sendable_def chunk_wire_def encode_plaintext_def decode_plaintext_def fits_def NOISE_MAX_def)
      (simp add: chunk_message_def)
qed

lemma toy_pending: "pending_chunk_indices (handle_new 0 ''t'' ''f'' 3) = [0]"
proof -
  have "unat (th_total_chunks (handle_new 0 ''t'' ''f'' 3)) = 1"
    by (simp add: num_chunks_def CHUNK_SIZE_eq)
  then show ?thesis by (simp add: pending_chunk_indices_def)
qed

text \<open>The loop hands over its one chunk, joins it and returns; then the writer runs.\<close>

lemma toy_outgoing_run:
  "\<exists>s st. (outgoing_step transfer_env (\<lambda>_. True) bob_session ''t'' (Path ''/f'') 5)\<^sup>*\<^sup>* (outgoing_init 5 sending_toy) s \<and>
    or_pc s = Returned (Inr ()) \<and> \<not> th_cancelled (or_handle 5 s) \<and>
    m_streams (or_manager s) (OnConnection 0, ''t'') = Some st \<and> st_queue st = []"
proof -
  let ?step = "outgoing_step transfer_env (\<lambda>_. True) bob_session ''t'' (Path ''/f'') 5"
  let ?s = "\<lambda>p ts ds is m. \<lparr>or_todo = [], or_pc = p, or_tasks = ts, or_streams = ds, or_sent = is, or_manager = m\<rparr>
    :: (bytes, noise_view) outgoing_run"
  let ?c = "OnConnection 0" and ?m1 = "sending_toy\<lparr>m_streams := [(OnConnection 0, ''t'') \<mapsto> new_stream]\<rparr>"
  obtain r m2 where m2: "chunk_task transfer_env 1 ?c ''t'' (Path ''/f'') 5 0 ?m1 = (r, m2)" by (rule prod.exhaust)
  have f: "files (m_fs ?m1) (source_path (Path ''/f'')) = Some [1, 2, 3]" using sending_toy_simps(1) by simp
  have i: "0 \<in> in_range (of_nat (length [1, 2, 3 :: u8]))" unfolding in_range_3 by simp
  have st: "m_streams ?m1 (?c, ''t'') = Some \<lparr>st_queue = [], st_written = [], st_running = True\<rparr>" by simp
  have l: "length [1, 2, 3 :: u8] < 2 ^ 63" by simp
  note q = chunk_task_queued [OF st f l i m2]
  have flags: "\<not> th_cancelled (m_handles sending_toy 5)" "\<not> th_paused (m_handles sending_toy 5)"
    by (simp_all add: handle_new_def)
  have live: "\<not> th_cancelled (m_handles m2 5)" using flags unfolding q(4) by simp
  let ?m3 = "run_stream_writer transfer_env (\<lambda>_. True) 0 ?c ''t'' m2"
  have "?step (outgoing_init 5 sending_toy) (?s (Acquiring 0) [] [] [] sending_toy)"
    using outgoing_istep.next_chunk [of "outgoing_init 5 sending_toy" 0 "[]" 5] flags
    by (intro inside) (simp add: outgoing_init_def toy_pending)
  moreover have "?step (?s (Acquiring 0) [] [] [] sending_toy) (?s Head [(0, None)] [?c] [] ?m1)"
    using outgoing_istep.spawned [of "?s (Acquiring 0) [] [] [] sending_toy" 0 "Inr ()" bob_session "''t''" ?c ?m1]
    by (intro inside) (simp add: or_running_def DEFAULT_PARALLELISM_def transfer_stream_sender_def)
  moreover have "?step (?s Head [(0, None)] [?c] [] ?m1) (?s Head [(0, Some (Inr ()))] [?c] [0] m2)"
    using outgoing_istep.task_ran [of 0 "?s Head [(0, None)] [?c] [] ?m1" 0 transfer_env 1 "''t''" "Path ''/f''" 5 r m2]
      m2 q(1) by (intro inside) simp
  moreover have "?step (?s Head [(0, Some (Inr ()))] [?c] [0] m2) (?s (Joining 0) [(0, Some (Inr ()))] [?c] [0] m2)"
    using outgoing_istep.no_more [of "?s Head [(0, Some (Inr ()))] [?c] [0] m2"] by (intro inside) simp
  moreover have "?step (?s (Joining 0) [(0, Some (Inr ()))] [?c] [0] m2) (?s (Joining 1) [(0, Some (Inr ()))] [?c] [0] m2)"
    using outgoing_istep.joined [of "?s (Joining 0) [(0, Some (Inr ()))] [?c] [0] m2" 0] by (intro inside) simp
  moreover have "?step (?s (Joining 1) [(0, Some (Inr ()))] [?c] [0] m2) (?s (Returned (Inr ())) [(0, Some (Inr ()))] [?c] [0] m2)"
    using outgoing_istep.all_joined [of "?s (Joining 1) [(0, Some (Inr ()))] [?c] [0] m2" 1] by (intro inside) simp
  moreover have "?step (?s (Returned (Inr ())) [(0, Some (Inr ()))] [?c] [0] m2)
      (?s (Returned (Inr ())) [(0, Some (Inr ()))] [?c] [0] ?m3)"
    using stream_writes [of transfer_env "\<lambda>_. True" bob_session "''t''" "Path ''/f''" 5
      "?s (Returned (Inr ())) [(0, Some (Inr ()))] [?c] [0] m2" 0] by simp
  ultimately have "?step\<^sup>*\<^sup>* (outgoing_init 5 sending_toy) (?s (Returned (Inr ())) [(0, Some (Inr ()))] [?c] [0] ?m3)"
    by (meson converse_rtranclp_into_rtranclp rtranclp.rtrancl_refl)
  moreover have "\<exists>st. m_streams ?m3 (?c, ''t'') = Some st \<and> st_queue st = []"
    by (simp add: run_stream_writer_def q(2) Let_def split: prod.split)
  ultimately show ?thesis using live by (intro exI [of _ "?s (Returned (Inr ())) [(0, Some (Inr ()))] [?c] [0] ?m3"]) auto
qed



theorem outgoing_refines_workers_witness:
  "\<exists>s :: (bytes, noise_view) outgoing_run. or_pc s = Returned (Inr ()) \<and>
     (pool_step OutgoingTransfer DEFAULT_PARALLELISM (chunk_source (m_fs sending_toy) (Path ''/f'')))\<^sup>*\<^sup>*
       (pool_init (m_handles sending_toy 5)) (pool_of 5 s) \<and> or_running s \<le> DEFAULT_PARALLELISM"
proof -
  obtain s where run: "(outgoing_step transfer_env (\<lambda>_. True) bob_session ''t'' (Path ''/f'') 5)\<^sup>*\<^sup>* (outgoing_init 5 sending_toy) s"
    and "or_pc s = Returned (Inr ())"
    using toy_outgoing_run by blast
  with outgoing_refines_workers [OF run] show ?thesis by blast
qed

end
