(* ===== verification/Overtaking.thy ===== *)
theory Overtaking
  imports Conversation File_Transfer
begin

text \<open>
  The transfer streams and the control stream of a connection share one Noise state, and nothing orders what arrives
  on different streams: what a message that overtakes a chunk does to the session.  Then the file without a chunk.
\<close>

section \<open>A message that overtakes a chunk\<close>

lemma decrypt_and_dispatch_unexpected:
  assumes "snow_laws (e_snow env) view box" and "m_noise m a = Transport t" and "n_in (view t) < 2 ^ 64 - 1"
    and "n < 2 ^ 64 - 1" and "n \<noteq> n_in (view t)" and "sendable env msg"
  shows "decrypt_and_dispatch env now from a (box (key_in (view t)) n (plaintext_of env msg)) m = (False, m)"
proof -
  obtain e where "decrypt (e_snow env) (Transport t) (box (key_in (view t)) n (plaintext_of env msg)) = (Inl (Crypto e), Transport t)"
    using decrypt_unexpected [OF assms(1) _ assms(3-5)] sendable_plaintext [OF assms(6)] by blast
  then show ?thesis
    using assms(2) by (simp add: decrypt_and_dispatch_def fun_upd_idem del: decrypt.simps)
qed

text \<open>The writer of a transfer stream that has one chunk to write.\<close>

lemma chunk_written:
  assumes "snow_laws (e_snow env) view box" and "m_noise m a = Transport t" and "n_out (view t) + 1 < 2 ^ 64"
    and "sendable env msg"
    and "m_streams m (c, tid) = Some \<lparr>st_queue = [msg], st_written = [], st_running = True\<rparr>"
  shows "\<exists>t'. run_stream_writer env (\<lambda>_. True) a c tid m = m\<lparr>m_noise := (m_noise m)(a := Transport t'),
      m_streams := (m_streams m)((c, tid) \<mapsto> \<lparr>st_queue = [],
        st_written = [write_framed (box (key_out (view t)) (n_out (view t)) (plaintext_of env msg))], st_running = True\<rparr>)\<rparr> \<and>
    key_out (view t') = key_out (view t) \<and> n_out (view t') = Suc (n_out (view t))"
proof -
  obtain t' where "stream_writer env (\<lambda>_. True) (Transport t) [msg] =
      ([write_framed (box (key_out (view t)) (n_out (view t)) (plaintext_of env msg))], True, Transport t')"
      "key_out (view t') = key_out (view t)" "n_out (view t') = Suc (n_out (view t))"
    using stream_writer_fits [OF assms(1), of t "[msg]"] assms(3,4) by auto
  then show ?thesis
    using assms(2,5) by (intro exI [of _ t']) (simp add: run_stream_writer_def del: stream_writer.simps)
qed

text \<open>A chunk is written, then messages go out on the control stream.\<close>

lemma chunk_then_messages:
  assumes "snow_laws (e_snow env) view box"
    and "connected bob a c ma" and "m_noise ma a = Transport ta" and "m_control ma c = []"
    and "m_streams ma (OnConnection c, tid) = Some \<lparr>st_queue = [FileChunk chunk], st_written = [], st_running = True\<rparr>"
    and "n_out (view ta) + 1 + length msgs < 2 ^ 64" and "sendable env (FileChunk chunk)"
    and "\<And>msg. msg \<in> set msgs \<Longrightarrow> sendable env msg"
    and "send_all env bob msgs (run_stream_writer env (\<lambda>_. True) a (OnConnection c) tid ma) = (rs, ma')"
    and "m_streams ma' (OnConnection c, tid) = Some st"
  shows "rs = replicate (length msgs) (Inr ())"
    "st_written st = map write_framed [box (key_out (view ta)) (n_out (view ta)) (plaintext_of env (FileChunk chunk))]"
    "m_control ma' c = boxes box (key_out (view ta)) (Suc (n_out (view ta))) (map (plaintext_of env) msgs)"
    "\<exists>t1. key_out (view t1) = key_out (view ta) \<and> n_out (view t1) = Suc (n_out (view ta))"
proof -
  let ?k = "key_out (view ta)" and ?n = "n_out (view ta)"
  let ?ct = "box ?k ?n (plaintext_of env (FileChunk chunk))" and ?ma1 = "run_stream_writer env (\<lambda>_. True) a (OnConnection c) tid ma"
  have n: "?n + 1 < 2 ^ 64" using assms(6) by linarith
  obtain t1 where w: "?ma1 = ma\<lparr>m_noise := (m_noise ma)(a := Transport t1),
      m_streams := (m_streams ma)((OnConnection c, tid) \<mapsto> \<lparr>st_queue = [], st_written = [write_framed ?ct], st_running = True\<rparr>)\<rparr>"
      "key_out (view t1) = ?k" "n_out (view t1) = Suc ?n"
    using chunk_written [OF assms(1,3) n assms(7,5)] by blast
  have "connected bob a c ?ma1" "m_noise ?ma1 a = Transport t1" "n_out (view t1) + length msgs < 2 ^ 64"
    using assms(2,6) by (simp_all add: w connected_def)
  from send_all_connected [OF assms(1) this assms(8)] w(2,3)
  obtain t2 where "send_all env bob msgs ?ma1 = (replicate (length msgs) (Inr ()),
      after_send a t2 c (boxes box ?k (Suc ?n) (map (plaintext_of env) msgs)) ?ma1)" by auto
  then show "rs = replicate (length msgs) (Inr ())" "st_written st = map write_framed [?ct]"
    "m_control ma' c = boxes box ?k (Suc ?n) (map (plaintext_of env) msgs)"
    using assms(4,9,10) by (auto simp: w(1) after_send_def)
  show "\<exists>t1. key_out (view t1) = ?k \<and> n_out (view t1) = Suc ?n" using w(2,3) by blast
qed

text \<open>C14: a message that overtakes a chunk ends the session.  A chunk goes out on the stream of its transfer, then
  messages go out on the control stream of the same connection, all of them reported as sent.  If the peer reads the
  control stream first, it tells its user none of these messages, only that the sender has disconnected, and drops the
  session; the chunk, read later, is still handled.  If it reads the chunk first, it tells its user every message.\<close>

theorem overtaking_ends_session:
  assumes "snow_laws (e_snow env) view box"
    and "connected bob a c ma" and "m_noise ma a = Transport ta" and "m_control ma c = []"
    and "m_streams ma (OnConnection c, tid) = Some \<lparr>st_queue = [FileChunk chunk], st_written = [], st_running = True\<rparr>"
    and "n_out (view ta) + 1 + length msgs < 2 ^ 64" and "msgs \<noteq> []" and "sendable env (FileChunk chunk)"
    and "\<forall>msg \<in> set msgs. sendable env msg \<and> notice alice msg \<noteq> None"
    and "send_all env bob msgs (run_stream_writer env (\<lambda>_. True) a (OnConnection c) tid ma) = (rs, ma')"
    and "m_streams ma' (OnConnection c, tid) = Some st"
    and "frames_until_error (concat (st_written st)) = (on_stream, err)"
    and "frames_until_error (concat (map write_framed (m_control ma' c))) = (on_control, err')"
    and "m_noise mb b = Transport tb" and "in_step view ta tb" and "length instants = length msgs"
    and "overtaken = control_reader env alice b (zip instants on_control) mb"
    and "first_chunk = read_frames env alice b (zip [now] on_stream) mb"
  shows "rs = replicate (length msgs) (Inr ()) \<and>
    m_events overtaken = m_events mb @ [OnPeerDisconnected alice] \<and> m_sessions overtaken alice = None \<and>
    (\<exists>ns. read_frames env alice b (zip [now] on_stream) overtaken =
      handle_incoming_chunk env now alice chunk (overtaken\<lparr>m_noise := ns\<rparr>)) \<and>
    m_events (control_reader env alice b (zip instants on_control) first_chunk) =
      m_events first_chunk @ concat (map (the \<circ> notice alice) msgs) @ [OnPeerDisconnected alice]"
proof -
  let ?k = "key_out (view ta)" and ?n = "n_out (view ta)"
  let ?ct = "box ?k ?n (plaintext_of env (FileChunk chunk))"
  let ?cts = "boxes box ?k (Suc ?n) (map (plaintext_of env) msgs)"
  have sendable: "msg \<in> set msgs \<Longrightarrow> sendable env msg" for msg using assms(9) by blast
  note sent = chunk_then_messages [OF assms(1-6,8) sendable assms(10,11)]
  obtain t1 where t1: "key_out (view t1) = ?k" "n_out (view t1) = Suc ?n" using sent(4) by auto
  have "frames_until_error (concat (map write_framed [?ct])) = (on_stream, err)" using assms(12) sent(2) by simp
  from frames_of_boxes [OF assms(1) _ _ this, where msgs = "[FileChunk chunk]" and k = ?k and n = ?n]
  have stream: "on_stream = [?ct]" using assms(8) by simp
  have control: "on_control = ?cts"
    using frames_of_boxes [OF assms(1) sendable sent(3) assms(13)] sent(3) by simp
  have step: "?k = key_in (view tb)" "?n = n_in (view tb)" using assms(15) by (simp_all add: in_step_def)
  have reads: "reads_at view b ?k ?n m" if "m_noise m = m_noise mb" for m :: "('a, 'b) manager"
    using that assms(14) step by (simp add: reads_at_def)
  obtain m1 ms now1 later where cons: "msgs = m1 # ms" "instants = now1 # later"
    using assms(7,16) by (cases msgs; cases instants) auto
  have "decrypt_and_dispatch env now1 alice b (box (key_in (view tb)) (Suc ?n) (plaintext_of env m1)) mb = (False, mb)"
    by (rule decrypt_and_dispatch_unexpected [OF assms(1,14)]) (use assms(6,9) step cons in simp_all)
  then have over: "overtaken = emit (OnPeerDisconnected alice) (mb\<lparr>m_sessions := (m_sessions mb)(alice := None)\<rparr>)"
    by (simp add: assms(17) control cons control_reader_def step(1))
  have chunk: "\<exists>ns. read_frames env alice b (zip [now] on_stream) m = handle_incoming_chunk env now alice chunk (m\<lparr>m_noise := ns\<rparr>) \<and>
      reads_at view b ?k (Suc ?n) (read_frames env alice b (zip [now] on_stream) m)" if "m_noise m = m_noise mb" for m :: "('a, 'b) manager"
    using chunk_frame_read [OF assms(1) reads [OF that] _ assms(8), of now alice] assms(6) by (auto simp: stream)
  have "m_noise overtaken = m_noise mb" by (simp add: over)
  from chunk [OF this] obtain ns where "read_frames env alice b (zip [now] on_stream) overtaken =
      handle_incoming_chunk env now alice chunk (overtaken\<lparr>m_noise := ns\<rparr>)" by blast
  moreover obtain tb1 where tb1: "m_noise first_chunk b = Transport tb1" "in_step view t1 tb1"
    using chunk [OF refl] t1 by (auto simp: assms(18) reads_at_def in_step_def)
  then obtain tb2 where "control_reader env alice b (zip instants on_control) first_chunk = emit (OnPeerDisconnected alice)
      ((after_read b tb2 (concat (map (the \<circ> notice alice) msgs)) first_chunk)\<lparr>m_sessions := (m_sessions first_chunk)(alice := None)\<rparr>)"
    using reader_delivers [OF assms(1) tb1 _ assms(9) _ assms(13) assms(16)] assms(6) sent(3) t1 by auto
  ultimately show ?thesis using sent(1) by (auto simp: over emit_def)
qed

definition lost_chunk :: file_chunk_message where
  "lost_chunk = \<lparr>fc_transfer_id = ''t'', fc_chunk_index = 0, fc_payload = [7], fc_checksum_sha256 = []\<rparr>"

definition mixed_env :: "(bytes, noise_view) env" where
  "mixed_env = toy_env\<lparr>e_wire :=
     \<lparr>to_vec = (\<lambda>m. case m of FileChunk _ \<Rightarrow> Inr [7] | Presence online t \<Rightarrow> Inr [if online then 1 else 0]
        | _ \<Rightarrow> Inl ''unsupported''),
      from_slice = (\<lambda>b. Inr (if b = [7] then FileChunk lost_chunk else Presence (b = [1]) 0))\<rparr>\<rparr>"

definition writing_manager :: "(bytes, noise_view) manager" where
  "writing_manager = toy_manager\<lparr>m_streams := [(OnConnection 0, ''t'') \<mapsto>
     \<lparr>st_queue = [FileChunk lost_chunk], st_written = [], st_running = True\<rparr>]\<rparr>"

theorem overtaking_ends_session_witness:
  "\<exists>on_control err overtaken.
     frames_until_error (concat (map write_framed (m_control (snd (send_all mixed_env ''peer'' [Presence True 0]
       (run_stream_writer mixed_env (\<lambda>_. True) 0 (OnConnection 0) ''t'' writing_manager))) 0))) = (on_control, err) \<and>
     overtaken = control_reader mixed_env ''peer'' 0 (zip [1] on_control) toy_manager \<and>
     m_events overtaken = [OnPeerDisconnected ''peer''] \<and> m_sessions overtaken ''peer'' = None"
proof -
  let ?ma1 = "run_stream_writer mixed_env (\<lambda>_. True) 0 (OnConnection 0) ''t'' writing_manager"
  obtain rs ma' where s: "send_all mixed_env ''peer'' [Presence True 0] ?ma1 = (rs, ma')" by (rule prod.exhaust)
  obtain on_control err where f: "frames_until_error (concat (map write_framed (m_control ma' 0))) = (on_control, err)"
    by (rule prod.exhaust)
  have law: "snow_laws (e_snow mixed_env) (\<lambda>t. t) toy_box" by (simp add: mixed_env_def)
  have send: "sendable mixed_env (Presence True 0)" "sendable mixed_env (FileChunk lost_chunk)"
    by (simp_all add: sendable_def mixed_env_def encode_plaintext_def decode_plaintext_def fits_def NOISE_MAX_def)
  have conn: "connected ''peer'' 0 0 writing_manager" "m_noise writing_manager 0 = Transport toy_view"
    "m_control writing_manager 0 = []"
    "m_streams writing_manager (OnConnection 0, ''t'') =
      Some \<lparr>st_queue = [FileChunk lost_chunk], st_written = [], st_running = True\<rparr>"
    by (simp_all add: connected_def writing_manager_def toy_manager_def)
  obtain st where st: "m_streams ma' (OnConnection 0, ''t'') = Some st"
  proof -
    obtain t1 where w: "?ma1 = writing_manager\<lparr>m_noise := (m_noise writing_manager)(0 := Transport t1),
        m_streams := (m_streams writing_manager)((OnConnection 0, ''t'') \<mapsto> \<lparr>st_queue = [],
          st_written = [write_framed (toy_box (key_out toy_view) (n_out toy_view) (plaintext_of mixed_env (FileChunk lost_chunk)))],
          st_running = True\<rparr>)\<rparr>"
      using chunk_written [OF law conn(2) _ send(2) conn(4)] by (auto simp: toy_view_def)
    have "m_streams ma' = m_streams ?ma1"
      using send_to_frame [of ?ma1 mixed_env "''peer''" "Presence True 0"] s by (auto simp: send_frame_def split: prod.splits)
    then show thesis using that by (simp add: w)
  qed
  obtain on_stream err' where g: "frames_until_error (concat (st_written st)) = (on_stream, err')" by (rule prod.exhaust)
  have n: "n_out toy_view + 1 + length [Presence True 0] < 2 ^ 64" by (simp add: toy_view_def)
  have ok: "\<forall>msg \<in> set [Presence True 0]. sendable mixed_env msg \<and> notice ''peer'' msg \<noteq> None" using send by simp
  have nb: "m_noise toy_manager 0 = Transport toy_view" "in_step (\<lambda>t. t) toy_view toy_view" "m_events toy_manager = []"
    by (simp_all add: toy_manager_def in_step_def toy_view_def)
  have l: "[Presence True 0] \<noteq> []" "length [1 :: nat] = length [Presence True 0]" by simp_all
  note t = overtaking_ends_session [OF law conn n l(1) send(2) ok s st g f nb(1,2) l(2) refl refl]
  show ?thesis
    using t f s nb(3) by (intro exI [of _ on_control] exI [of _ err] exI [of _ "control_reader mixed_env ''peer'' 0 (zip [1] on_control) toy_manager"]) simp
qed

section \<open>A file without a chunk\<close>

text \<open>The messages after which a transfer may be over at its receiver.\<close>

fun ends_transfer :: "string \<Rightarrow> protocol_message \<Rightarrow> bool" where
  "ends_transfer tid (FileChunk c) = (fc_transfer_id c = tid)"
| "ends_transfer tid (FileTransferComplete tid') = (tid' = tid)"
| "ends_transfer tid _ = False"

lemma other_transfers_stay:
  assumes "\<not> ends_transfer tid msg"
  shows "m_incoming (dispatch_incoming env now src msg m) tid = m_incoming m tid \<and>
    (OnTransferComplete tid \<in> set (m_events (dispatch_incoming env now src msg m)) \<longleftrightarrow>
      OnTransferComplete tid \<in> set (m_events m))"
  using assms
  by (cases msg)
    (auto simp: handle_file_accept_def handle_file_reject_def handle_folder_accept_def handle_folder_reject_def
      answer_file_def answer_folder_def remove_outgoing_def remove_folder_offer_def answer_with_def drop_sender_def
      handle_incoming_chunk_def record_chunk_def complete_incoming_def cancel_handles_def update_handle_def Let_def
      split: option.split sum.split)

lemma transfer_stays_open:
  "\<forall>(now, src, msg) \<in> set arrivals. \<not> ends_transfer tid msg \<Longrightarrow>
    m_incoming (dispatch_all env arrivals m) tid = m_incoming m tid \<and>
    (OnTransferComplete tid \<in> set (m_events (dispatch_all env arrivals m)) \<longleftrightarrow> OnTransferComplete tid \<in> set (m_events m))"
  by (induction env arrivals m rule: dispatch_all.induct) (auto simp: other_transfers_stay)

text \<open>The loop of the sender when there is no chunk.\<close>

definition nothing_sent :: "string \<Rightarrow> ('h, 't) outgoing_run \<Rightarrow> bool" where
  "nothing_sent tid s \<longleftrightarrow> or_todo s = [] \<and> or_tasks s = [] \<and> or_sent s = [] \<and> (\<forall>c. m_streams (or_manager s) (c, tid) = None) \<and>
     (or_pc s = Head \<or> (\<exists>k. or_pc s = Joining k) \<or> or_pc s = Returned (Inr ()))"

lemma nothing_sent_step:
  assumes "outgoing_step env can_write ps tid src h s s'" and "nothing_sent tid s"
  shows "nothing_sent tid s'"
  using assms(1)
proof (cases rule: outgoing_step.cases)
  case inside
  then show ?thesis using assms(2) by (cases rule: outgoing_istep.cases) (auto simp: nothing_sent_def)
qed (use assms(2) in \<open>auto simp: nothing_sent_def update_handle_def run_stream_writer_def run_relay_forwarder_def
      split: outbound_path.split\<close>)

lemma nothing_sent_run:
  assumes "(outgoing_step env can_write ps tid src h)\<^sup>*\<^sup>* s s'" and "nothing_sent tid s"
  shows "nothing_sent tid s'"
  using assms by (induction rule: rtranclp_induct) (auto intro: nothing_sent_step)

lemma accepted_open:
  assumes "accept_file env now src offer m = (Inr dest, m')" and "fo_file_size offer = 0"
  shows "\<exists>t. m_incoming m' (fo_transfer_id offer) = Some t \<and> pending_chunk_indices (m_handles m' (it_handle t)) = [] \<and>
    m_events m' = m_events m"
proof -
  obtain m1 where p: "prepare_to_receive (fo_transfer_id offer) 0 m = (Inr dest, m1)" "m_events m1 = m_events m"
    using assms by (auto simp: accept_file_def prepare_to_receive_def Let_def andThen_Inr_iff split: sum.splits prod.splits)
  have "pending_chunk_indices (incoming_handle now offer (m_storage m1)) = []"
    by (simp add: incoming_handle_def Let_def pending_chunk_indices_def assms(2) resume_from_manifest_def)
  moreover obtain m2 where "m' = snd (send_to env src (FileAccept (fo_transfer_id offer)) m2)" "m_events m2 = m_events m1"
      "m_incoming m2 (fo_transfer_id offer) = Some \<lparr>it_dest_path = dest, it_handle = m_next m1\<rparr>"
      "m_handles m2 (m_next m1) = incoming_handle now offer (m_storage m1)"
    using assms(1) p(1) by (auto simp: accept_file_def assms(2) Let_def case_prod_beta)
  ultimately show ?thesis
    using p(2) send_to_frame [of m2 env src "FileAccept (fo_transfer_id offer)"] by (simp add: send_frame_def)
qed

text \<open>C27: an empty file is never received.  The sender's loop has no chunk to hand over: it puts nothing on any stream,
  returns success and reports the transfer completed with zero bytes.  The receiver that has accepted the offer misses
  no chunk either, but only the arrival of a chunk, or a notice no sender sends, would end the transfer: whatever else
  arrives from whomever, its entry stays open and completion is never reported.\<close>

theorem empty_file_never_received:
  assumes "(outgoing_step env can_write ps tid src h)\<^sup>*\<^sup>* (outgoing_init h ma) s"
    and "m_handles ma h = handle_new now0 tid name 0" and "\<And>c. m_streams ma (c, tid) = None"
    and "outgoing_result env now2 bob tid h s = Some (r, ma')" and "\<not> th_cancelled (or_handle h s)"
    and "accept_file env now1 alice offer mb0 = (Inr dest, mb)" and "fo_transfer_id offer = tid" and "fo_file_size offer = 0"
    and "\<forall>(now, from, msg) \<in> set arrivals. \<not> ends_transfer tid msg"
    and "OnTransferComplete tid \<notin> set (m_events mb0)"
  shows "r = Inr () \<and> (\<forall>c. m_streams ma' (c, tid) = None) \<and>
    (\<exists>p. m_events ma' = m_events (or_manager s) @ [OnTransferProgress p] \<and> tp_state p = ''completed'') \<and>
    (\<exists>t. m_incoming mb tid = Some t \<and> pending_chunk_indices (m_handles mb (it_handle t)) = [] \<and>
      m_incoming (dispatch_all env arrivals mb) tid = Some t) \<and>
    OnTransferComplete tid \<notin> set (m_events (dispatch_all env arrivals mb))"
proof -
  have "nothing_sent tid (outgoing_init h ma)"
    by (simp add: nothing_sent_def outgoing_init_def assms(2,3) pending_chunk_indices_def)
  then have n: "nothing_sent tid s" by (rule nothing_sent_run [OF assms(1)])
  then have r: "r = Inr ()" "ma' = finish_outgoing env now2 bob tid h (or_manager s)"
    using assms(4) by (auto simp: outgoing_result_def nothing_sent_def split: loop_pc.splits)
  have "(\<forall>c. m_streams ma' (c, tid) = None) \<and>
      (\<exists>p. m_events ma' = m_events (or_manager s) @ [OnTransferProgress p] \<and> tp_state p = ''completed'')"
    using n assms(5) by (auto simp: r(2) nothing_sent_def finish_outgoing_def Let_def emit_def remove_outgoing_def
        drop_sender_def progress_def split: option.split)
  moreover obtain t where "m_incoming mb tid = Some t" "pending_chunk_indices (m_handles mb (it_handle t)) = []"
      "m_events mb = m_events mb0"
    using accepted_open [OF assms(6,8)] assms(7) by blast
  ultimately show ?thesis using r(1) transfer_stays_open [OF assms(9), of env mb] assms(10) by auto
qed

definition plain_env :: "(bytes, noise_view) env" where
  "plain_env = toy_env\<lparr>e_wire := \<lparr>to_vec = (\<lambda>_. Inr [0]), from_slice = (\<lambda>_. Inr Ping)\<rparr>\<rparr>"

definition empty_sender :: "(bytes, noise_view) manager" where
  "empty_sender = toy_manager\<lparr>m_handles := (\<lambda>_. handle_new 0 ''t'' ''f'' 0)\<rparr>"

theorem empty_file_never_received_witness:
  "\<exists>s ma' dest mb.
     outgoing_result plain_env 2 ''bob'' ''t'' 5 s = Some (Inr (), ma') \<and>
     accept_file plain_env 1 ''peer'' (small_offer\<lparr>fo_file_size := 0\<rparr>) toy_manager = (Inr dest, mb) \<and>
     m_incoming (dispatch_all plain_env [(3, ''peer'', Presence False 0)] mb) ''t'' \<noteq> None"
proof -
  let ?s = "\<lambda>p. (outgoing_init 5 empty_sender)\<lparr>or_pc := p\<rparr>"
  let ?istep = "outgoing_istep plain_env bob_session ''t'' (Path ''/f'') 5"
  have i: "or_pc (outgoing_init 5 empty_sender) = Head" "or_todo (outgoing_init 5 empty_sender) = []"
    "or_tasks (outgoing_init 5 empty_sender) = []"
    by (simp_all add: outgoing_init_def empty_sender_def pending_chunk_indices_def)
  have 1: "?istep (outgoing_init 5 empty_sender) (?s (Joining 0))" using i by (intro outgoing_istep.no_more)
  have 2: "?istep (?s (Joining 0)) (?s (Returned (Inr ())))"
    using outgoing_istep.all_joined [of "?s (Joining 0)" 0] i by simp
  have run: "(outgoing_step plain_env (\<lambda>_. True) bob_session ''t'' (Path ''/f'') 5)\<^sup>*\<^sup>*
      (outgoing_init 5 empty_sender) (?s (Returned (Inr ())))"
    by (rule converse_rtranclp_into_rtranclp, rule inside [OF 1], rule r_into_rtranclp, rule inside [OF 2])
  let ?s2 = "?s (Returned (Inr ()))"
  obtain ma' where res: "outgoing_result plain_env 2 ''bob'' ''t'' 5 ?s2 = Some (Inr (), ma')"
    by (simp add: outgoing_result_def)
  have h: "m_handles empty_sender 5 = handle_new 0 ''t'' ''f'' 0" "\<And>c. m_streams empty_sender (c, ''t'') = None"
    "\<not> th_cancelled (or_handle 5 ?s2)"
    by (simp_all add: empty_sender_def toy_manager_def outgoing_init_def) (simp add: handle_new_def)
  obtain dest mb where a: "accept_file plain_env 1 ''peer'' (small_offer\<lparr>fo_file_size := 0\<rparr>) toy_manager = (Inr dest, mb)"
    by (simp add: accept_file_def prepare_to_receive_def preallocate_file_def send_to_def send_message_def encrypt_with_def
        toy_manager_def plain_env_def toy_env_def toy_snow_def encode_plaintext_def NOISE_MAX_def Let_def small_offer_def)
  have o: "fo_transfer_id (small_offer\<lparr>fo_file_size := 0\<rparr>) = ''t''" "fo_file_size (small_offer\<lparr>fo_file_size := 0\<rparr>) = 0"
    "\<forall>(now, from, msg) \<in> set [(3, ''peer'', Presence False 0)]. \<not> ends_transfer ''t'' msg"
    "OnTransferComplete ''t'' \<notin> set (m_events toy_manager)"
    by (simp_all add: small_offer_def toy_manager_def)
  from empty_file_never_received [OF run h(1,2) res h(3) a o] show ?thesis using res a by blast
qed

end
