(* ===== verification/Relay_Transfer.thy ===== *)
theory Relay_Transfer
  imports Relay Overtaking
begin

text \<open>
  A file over the relay.  Every chunk has a forwarding task of its own, and each of them encrypts under the lock of the
  Noise state but sends after it: what the receiver has of the file, given the order in which the tasks were scheduled.
\<close>

section \<open>The forwarding tasks\<close>

fun encrypted :: "forward_move list \<Rightarrow> protocol_message list" where
  "encrypted [] = []"
| "encrypted (Encrypts msg # moves) = msg # encrypted moves"
| "encrypted (Queues j # moves) = encrypted moves"

fun queued :: "forward_move list \<Rightarrow> nat list" where
  "queued [] = []"
| "queued (Encrypts msg # moves) = queued moves"
| "queued (Queues j # moves) = j # queued moves"

text \<open>No message is sent before it has been encrypted.\<close>

fun in_turn :: "nat \<Rightarrow> forward_move list \<Rightarrow> bool" where
  "in_turn c [] \<longleftrightarrow> True"
| "in_turn c (Encrypts msg # moves) \<longleftrightarrow> in_turn (Suc c) moves"
| "in_turn c (Queues j # moves) \<longleftrightarrow> j < c \<and> in_turn c moves"

lemma queued_bound: "in_turn c moves \<Longrightarrow> j \<in> set (queued moves) \<Longrightarrow> j < c + length (encrypted moves)"
  by (induction c moves rule: in_turn.induct) auto

lemma nth_boxes: "j < length ps \<Longrightarrow> boxes box k n ps ! j = box k (n + j) (ps ! j)"
  by (induction ps arbitrary: n j) (auto simp: nth_Cons split: nat.split)

lemma forward_moves_queue:
  assumes "snow_laws (e_snow env) view box" and "\<And>d. sig_roundtrips (e_sig env) (RelayDataMsg sid d)"
    and "\<And>msg. msg \<in> set (encrypted moves) \<Longrightarrow> sendable env msg"
    and "m_noise m b = Transport t" and "key_out (view t) = k" and "n_out (view t) = n + length before"
    and "n + length before + length (encrypted moves) < 2 ^ 64"
    and "outbound_open (m_clients m a)" and "in_turn (length before) moves"
    and "msgs = before @ encrypted moves"
  shows "\<exists>js. outbound (m_clients (forward_moves env b a sid moves (boxes box k n (map (plaintext_of env) before)) m) a) =
      outbound (m_clients m a) @ js \<and>
    map (from_json (e_sig env)) js =
      map (\<lambda>j. Inr (RelayDataMsg sid (box k (n + j) (plaintext_of env (msgs ! j))))) (queued moves)"
  using assms(3-)
proof (induction moves arbitrary: m t before)
  case (Cons move moves)
  show ?case
  proof (cases move)
    case (Encrypts msg)
    note p = sendable_plaintext [of env msg]
    obtain t1 where t1: "encrypt (e_snow env) (Transport t) (plaintext_of env msg) =
        (Inr (box k (n + length before) (plaintext_of env msg)), Transport t1)" "view t1 = (view t)\<lparr>n_out := Suc (n_out (view t))\<rparr>"
      using encrypt_fits [OF assms(1), of "plaintext_of env msg" t] p Cons.prems by (auto simp: Encrypts)
    let ?m1 = "m\<lparr>m_noise := (m_noise m)(b := Transport t1)\<rparr>"
    have e: "forward_encrypt env b msg m = (Some (Inr (box k (n + length before) (plaintext_of env msg))), ?m1)"
      using p Cons.prems(1,2) t1(1) by (simp add: Encrypts forward_encrypt_def del: encrypt.simps)
    have held: "boxes box k n (map (plaintext_of env) before) @ [box k (n + length before) (plaintext_of env msg)] =
        boxes box k n (map (plaintext_of env) (before @ [msg]))" by (simp add: boxes_append)
    show ?thesis
      using Cons.IH [of ?m1 t1 "before @ [msg]"] Cons.prems t1(2) by (simp add: Encrypts e held)
  next
    case (Queues j)
    let ?held = "boxes box k n (map (plaintext_of env) before)"
    have j: "j < length before" using Cons.prems(7) by (simp add: Queues)
    obtain x where x: "send_relay_data (e_sig env) (m_clients m a) sid (?held ! j) =
        (Inr (), (m_clients m a)\<lparr>outbound := outbound (m_clients m a) @ [x]\<rparr>)"
        "from_json (e_sig env) x = Inr (RelayDataMsg sid (?held ! j))"
      using sig_send_open [OF assms(2) Cons.prems(6)] by (auto simp: send_relay_data_def)
    let ?m1 = "m\<lparr>m_clients := (m_clients m)(a := (m_clients m a)\<lparr>outbound := outbound (m_clients m a) @ [x]\<rparr>)\<rparr>"
    have s: "snd (forward_send env a sid (?held ! j) m) = ?m1" by (simp add: forward_send_def x(1))
    have held: "?held ! j = box k (n + j) (plaintext_of env (before ! j))" using j by (simp add: nth_boxes)
    obtain js where "outbound (m_clients (forward_moves env b a sid moves ?held ?m1) a) = outbound (m_clients ?m1 a) @ js"
        "map (from_json (e_sig env)) js =
          map (\<lambda>j. Inr (RelayDataMsg sid (box k (n + j) (plaintext_of env (msgs ! j))))) (queued moves)"
      using Cons.IH [of ?m1 t before] Cons.prems by (auto simp: Queues)
    then show ?thesis
      using j x(2) [unfolded held] Cons.prems(8)
      by (intro exI [of _ "x # js"]) (simp add: Queues held s [unfolded held] nth_append)
  qed
qed simp

text \<open>A message of a session over the relay goes the same way: \<open>send_message\<close> is the two halves one after the other.\<close>

lemma send_message_halves:
  assumes "ps_outbound ps = Relay a sid" and "encode_plaintext (e_wire env) msg = Inr p"
  shows "send_message env ps msg m =
    (case forward_encrypt env (ps_noise ps) msg m of
       (Some (Inr ciphertext), m1) \<Rightarrow> forward_send env a sid ciphertext m1
     | (Some (Inl e), m1) \<Rightarrow> (Inl e, m1) | (None, m1) \<Rightarrow> (Inr (), m1))"
  using assms
  by (auto simp: send_message_def forward_encrypt_def forward_send_def encrypt_with_def Let_def
      simp del: encrypt.simps split: prod.split sum.split)

lemma forward_moves_sessions [simp]: "m_sessions (forward_moves env b a sid moves held m) = m_sessions m"
  by (induction env b a sid moves held m rule: forward_moves.induct)
    (auto simp: forward_encrypt_def forward_send_def Let_def simp del: encrypt.simps split: prod.splits sum.splits)

section \<open>The client at the other end\<close>

lemma relay_texts_read:
  "map (from_json c) js = map (\<lambda>d. Inr (RelayDataMsg sid d)) ds \<Longrightarrow>
    ws_reader c (\<lambda>_. True) i (map (\<lambda>j. WsOk (WsText j)) js) = map (RelayData sid) ds @ [Disconnected]"
  by (induction js arbitrary: i ds) (auto simp: closing_def map_eq_Cons_conv)

definition relay_ready :: "string \<Rightarrow> string \<Rightarrow> nat \<Rightarrow> ('h, 't) manager \<Rightarrow> bool" where
  "relay_ready sid alice b m \<longleftrightarrow>
     m_relay_waiters m sid = None \<and> m_tracker m sid = Some alice \<and>
     (\<exists>ps. m_sessions m alice = Some ps \<and> ps_noise ps = b)"

lemma relay_data_dispatched:
  "relay_ready sid alice b m \<Longrightarrow> handle_relay_data env now sid d m = snd (decrypt_and_dispatch env now alice b d m)"
  by (auto simp: relay_ready_def handle_relay_data_def peer_for_session_def)

lemma handle_incoming_chunk_frame:
  "m_relay_waiters (handle_incoming_chunk env now src c m) = m_relay_waiters m \<and>
    m_tracker (handle_incoming_chunk env now src c m) = m_tracker m \<and>
    m_sessions (handle_incoming_chunk env now src c m) = m_sessions m"
  by (auto simp: handle_incoming_chunk_def record_chunk_def complete_incoming_def update_handle_def emit_def Let_def
      split: option.split sum.split)

lemma signaling_loop_append:
  "snd (signaling_loop env parse dial a (evs @ evs') m) =
    snd (signaling_loop env parse dial a evs' (snd (signaling_loop env parse dial a evs m)))"
proof (induction evs arbitrary: m)
  case (Cons ev evs)
  show ?case
    using Cons.IH by (cases ev) (simp add: Let_def case_prod_beta split: option.split)
qed simp

section \<open>How much of the file is there\<close>

text \<open>A receiver that expects message \<open>e\<close> of a session takes the messages of its channel that come in turn and refuses
  all others: what it expects in the end.\<close>

fun in_row :: "nat \<Rightarrow> nat list \<Rightarrow> nat" where
  "in_row e [] = e"
| "in_row e (j # js) = in_row (if j = e then Suc e else e) js"

lemma in_row_append: "in_row e (xs @ ys) = in_row (in_row e xs) ys"
  by (induction xs arbitrary: e) auto

lemma in_row_stuck: "e \<le> j \<Longrightarrow> j \<notin> set xs \<Longrightarrow> in_row e xs \<le> j"
  by (induction xs arbitrary: e) auto

lemma in_row_all: "in_row e [e..<e + n] = e + n"
  by (induction n arbitrary: e) (simp_all add: in_row_append)

lemma in_row_mono: "e \<le> in_row e js"
  by (induction js arbitrary: e) (auto intro: Suc_leD)

lemma in_row_bound: "e \<le> l \<Longrightarrow> \<forall>j \<in> set js. j < l \<Longrightarrow> in_row e js \<le> l"
  by (induction js arbitrary: e) auto

text \<open>Two messages whose tasks went on in the wrong order: nothing behind the first of them is taken any more.\<close>

lemma in_row_swapped:
  assumes "distinct (xs @ Suc j # ys @ j # zs)"
  shows "in_row 0 (xs @ Suc j # ys @ j # zs) \<le> Suc j"
proof -
  have "in_row 0 (xs @ Suc j # ys) \<le> j" using assms by (intro in_row_stuck) auto
  then have "in_row (in_row 0 (xs @ Suc j # ys)) [j] \<le> Suc j" by auto
  then have "in_row (in_row (in_row 0 (xs @ Suc j # ys)) [j]) zs \<le> Suc j"
    by (rule in_row_stuck) (use assms in auto)
  moreover have "in_row 0 (xs @ Suc j # ys @ j # zs) = in_row (in_row (in_row 0 (xs @ Suc j # ys)) [j]) zs"
    using in_row_append [of 0 "xs @ Suc j # ys" "j # zs"] by simp
  ultimately show ?thesis by simp
qed

lemma relayed_refused:
  assumes "snow_laws (e_snow env) view box" and "relay_ready sid alice b m" and "reads_at view b k (n + e) m"
    and "Suc (n + e) < 2 ^ 64" and "Suc (n + j) < 2 ^ 64" and "sendable env msg" and "j \<noteq> e"
  shows "handle_relay_data env now sid (box k (n + j) (plaintext_of env msg)) m = m"
proof -
  obtain t where t: "m_noise m b = Transport t" "key_in (view t) = k" "n_in (view t) = n + e"
    using assms(3) by (auto simp: reads_at_def)
  have "decrypt_and_dispatch env now alice b (box (key_in (view t)) (n + j) (plaintext_of env msg)) m = (False, m)"
    by (rule decrypt_and_dispatch_unexpected [OF assms(1) t(1)]) (use assms(4-7) t(3) in auto)
  then show ?thesis using t(2) by (simp add: relay_data_dispatched [OF assms(2)])
qed

section \<open>Messages for the user\<close>

lemma relayed_notices:
  assumes "snow_laws (e_snow env) view box" and "Suc (n + length msgs) < 2 ^ 64"
    and "\<forall>msg \<in> set msgs. sendable env msg \<and> notice alice msg \<noteq> None"
    and "relay_ready sid alice b m" and "reads_at view b k (n + e) m" and "e \<le> length msgs"
    and "\<forall>j \<in> set order. j < length msgs" and "length instants = length order"
    and "evs = map (\<lambda>j. RelayData sid (box k (n + j) (plaintext_of env (msgs ! j)))) order"
    and "m' = snd (signaling_loop env parse dial a (zip instants evs) m)"
  shows "relay_ready sid alice b m' \<and>
    m_events m' = m_events m @ concat (map (the \<circ> notice alice) (drop e (take (in_row e order) msgs)))"
  using assms(4-)
proof (induction order arbitrary: m e instants evs m')
  case (Cons j order)
  let ?d = "box k (n + j) (plaintext_of env (msgs ! j))"
  obtain now later where instants: "instants = now # later" using Cons.prems(5) by (cases instants) auto
  let ?m1 = "handle_relay_data env now sid ?d m"
  have m': "m' = snd (signaling_loop env parse dial a (zip later (tl evs)) ?m1)"
    using Cons.prems(6,7) by (simp add: instants Let_def case_prod_beta)
  have tl: "tl evs = map (\<lambda>j. RelayData sid (box k (n + j) (plaintext_of env (msgs ! j)))) order" using Cons.prems(6) by simp
  have j: "j < length msgs" and l: "length later = length order" using Cons.prems(4,5) instants by simp_all
  show ?case
  proof (cases "j = e")
    case True
    have e: "e < length msgs" using j True by simp
    obtain t where t: "m_noise m b = Transport t" "key_in (view t) = k" "n_in (view t) = n + e"
      using Cons.prems(2) by (auto simp: reads_at_def)
    obtain evs1 where evs1: "notice alice (msgs ! e) = Some evs1" and send: "sendable env (msgs ! e)"
      using assms(3) e by fastforce
    obtain t1 where "decrypt_and_dispatch env now alice b ?d m = (True, after_read b t1 evs1 m)"
        "view t1 = (view t)\<lparr>n_in := Suc (n_in (view t))\<rparr>"
      using decrypt_and_dispatch_notice [OF assms(1) t(1) _ send evs1, of now] t(2,3) assms(2) e True by auto
    then have m1: "m_events ?m1 = m_events m @ evs1" "relay_ready sid alice b ?m1" "reads_at view b k (n + Suc e) ?m1"
      using Cons.prems(1) t by (simp_all add: relay_data_dispatched [OF Cons.prems(1)] relay_ready_def reads_at_def after_read_def)
    have "e < length (take (in_row (Suc e) order) msgs)" "take (in_row (Suc e) order) msgs ! e = msgs ! e"
      using e in_row_mono [of "Suc e" order] by simp_all
    then have "drop e (take (in_row (Suc e) order) msgs) = msgs ! e # drop (Suc e) (take (in_row (Suc e) order) msgs)"
      by (metis Cons_nth_drop_Suc)
    then show ?thesis
      using Cons.IH [OF m1(2,3) _ _ l tl m'] Cons.prems(4) e True evs1 m1(1) by simp
  next
    case False
    have "?m1 = m"
      by (rule relayed_refused [OF assms(1) Cons.prems(1,2) _ _ _ False]) (use assms(2,3) Cons.prems(3) j in auto)
    then show ?thesis using Cons.IH [OF Cons.prems(1-3) _ l tl, of m'] Cons.prems(4) m' False by simp
  qed
qed simp

section \<open>Chunks of a file\<close>

definition has_chunks :: "string \<Rightarrow> string \<Rightarrow> bytes \<Rightarrow> u64 set \<Rightarrow> ('h, 't) manager \<Rightarrow> bool" where
  "has_chunks tid dest content A m \<longleftrightarrow>
     (if A = in_range (of_nat (length content)) then received tid dest content m else receiving tid dest content A m)"

lemma relayed_chunk:
  assumes "snow_laws (e_snow env) view box" and "length content < 2 ^ 63"
    and "Suc (n + length is) < 2 ^ 64" and "\<And>i. i \<in> set is \<Longrightarrow> sendable env (chunk_msg env tid content i)"
    and "distinct is" and "set is \<subseteq> in_range (of_nat (length content))"
    and "relay_ready sid alice b m" and "reads_at view b k (n + e) m" and "has_chunks tid dest content (set (take e is)) m"
    and "e \<le> length is" and "j < length is"
    and "m' = handle_relay_data env now sid (box k (n + j) (plaintext_of env (chunk_msg env tid content (is ! j)))) m"
  shows "if j = e then relay_ready sid alice b m' \<and> reads_at view b k (n + Suc e) m' \<and>
      has_chunks tid dest content (set (take (Suc e) is)) m' \<and>
      (\<exists>evs. m_events m' = m_events m @ evs \<and>
        completions evs = (if set (take (Suc e) is) = in_range (of_nat (length content)) then [tid] else []))
    else m' = m"
proof (cases "j = e")
  case True
  let ?R = "in_range (of_nat (length content)) :: u64 set" and ?c = "chunk_message env tid content (is ! e)"
  have e: "e < length is" using assms(11) True by simp
  have i: "is ! e \<in> set is" using e by simp
  obtain ns where d: "decrypt_and_dispatch env now alice b (box k (n + e) (plaintext_of env (FileChunk ?c))) m =
      (True, handle_incoming_chunk env now alice ?c (m\<lparr>m_noise := ns\<rparr>))"
      "reads_at view b k (Suc (n + e)) (handle_incoming_chunk env now alice ?c (m\<lparr>m_noise := ns\<rparr>))"
    using chunk_frame_read [OF assms(1,8), of ?c now alice] assms(3) e assms(4) [OF i] by auto
  have m': "m' = handle_incoming_chunk env now alice ?c (m\<lparr>m_noise := ns\<rparr>)"
    using assms(12) d(1) by (simp add: True relay_data_dispatched [OF assms(7)])
  have "is ! e \<notin> set (take e is)" using distinct_take [OF assms(5), of "Suc e"] e by (simp add: take_Suc_conv_app_nth)
  then have "set (take e is) \<noteq> ?R" using i assms(6) by auto
  then have "receiving tid dest content (set (take e is)) (m\<lparr>m_noise := ns\<rparr>)" using assms(9) by (simp add: has_chunks_def)
  from chunk_received [OF this assms(2) subsetD [OF assms(6) i] m']
  have c: "if insert (is ! e) (set (take e is)) = ?R
      then received tid dest content m' \<and> (\<exists>p. m_events m' = m_events m @ [OnTransferProgress p, OnTransferComplete tid])
      else receiving tid dest content (insert (is ! e) (set (take e is))) m' \<and> (\<exists>p. m_events m' = m_events m @ [OnTransferProgress p])"
    by (auto split: if_splits)
  have "set (take (Suc e) is) = insert (is ! e) (set (take e is))" using e by (simp add: take_Suc_conv_app_nth)
  moreover have "relay_ready sid alice b m'"
    using assms(7) handle_incoming_chunk_frame [of env now alice ?c "m\<lparr>m_noise := ns\<rparr>"] by (simp add: relay_ready_def m')
  moreover have "reads_at view b k (n + Suc e) m'" using d(2) by (simp add: m')
  ultimately show ?thesis using c True by (auto simp: has_chunks_def completions_def split: if_splits)
next
  case False
  have "sendable env (chunk_msg env tid content (is ! j))" using assms(4,11) by simp
  then show ?thesis
    using relayed_refused [OF assms(1,7,8) _ _ _ False] assms(3,10-12) False by simp
qed

lemma relayed_chunks:
  assumes "snow_laws (e_snow env) view box" and "length content < 2 ^ 63"
    and "Suc (n + length is) < 2 ^ 64" and "\<And>i. i \<in> set is \<Longrightarrow> sendable env (chunk_msg env tid content i)"
    and "distinct is" and "set is \<subseteq> in_range (of_nat (length content))"
    and "relay_ready sid alice b m" and "reads_at view b k (n + e) m" and "has_chunks tid dest content (set (take e is)) m"
    and "e \<le> length is" and "\<forall>j \<in> set order. j < length is" and "length instants = length order"
    and "evs = map (\<lambda>j. RelayData sid (box k (n + j) (plaintext_of env (chunk_msg env tid content (is ! j))))) order"
    and "m' = snd (signaling_loop env parse dial a (zip instants evs) m)"
  shows "relay_ready sid alice b m' \<and> has_chunks tid dest content (set (take (in_row e order) is)) m' \<and>
    (\<exists>new. m_events m' = m_events m @ new \<and> completions new =
      (if set (take e is) \<noteq> in_range (of_nat (length content)) \<and>
        set (take (in_row e order) is) = in_range (of_nat (length content)) then [tid] else []))"
  using assms(7-)
proof (induction order arbitrary: m e instants evs m')
  case Nil
  then show ?case by (auto simp: completions_def)
next
  case (Cons j order)
  let ?R = "in_range (of_nat (length content)) :: u64 set"
  let ?d = "box k (n + j) (plaintext_of env (chunk_msg env tid content (is ! j)))"
  obtain now later where instants: "instants = now # later" using Cons.prems(6) by (cases instants) auto
  let ?m1 = "handle_relay_data env now sid ?d m"
  have j: "j < length is" using Cons.prems(5) by simp
  note c = relayed_chunk [OF assms(1-6) Cons.prems(1-4) j refl, of now]
  have m': "m' = snd (signaling_loop env parse dial a (zip later (tl evs)) ?m1)"
    using Cons.prems(7,8) by (simp add: instants Let_def case_prod_beta)
  have l: "length later = length order" using Cons.prems(6) instants by simp
  show ?case
  proof (cases "j = e")
    case True
    have e: "Suc e \<le> length is" using j True by simp
    note c = c [unfolded if_P [OF True]]
    obtain evs1 where evs1: "m_events ?m1 = m_events m @ evs1"
        "completions evs1 = (if set (take (Suc e) is) = ?R then [tid] else [])" using c by blast
    have "is ! e \<notin> set (take e is)" "is ! e \<in> set is"
      using distinct_take [OF assms(5), of "Suc e"] e by (simp_all add: take_Suc_conv_app_nth)
    then have "set (take e is) \<noteq> ?R" using assms(6) by blast
    moreover obtain new where "relay_ready sid alice b m'" "has_chunks tid dest content (set (take (in_row (Suc e) order) is)) m'"
        "m_events m' = m_events ?m1 @ new"
        "completions new = (if set (take (Suc e) is) \<noteq> ?R \<and> set (take (in_row (Suc e) order) is) = ?R then [tid] else [])"
      using Cons.IH [of ?m1 "Suc e" later "tl evs" m'] c e m' l Cons.prems(5,7) by auto
    moreover have "set (take (in_row (Suc e) order) is) = ?R" if "set (take (Suc e) is) = ?R"
      using that in_row_mono [of "Suc e" order] set_take_subset_set_take [of "Suc e" "in_row (Suc e) order" "is"]
        set_take_subset [of "in_row (Suc e) order" "is"] assms(6) by blast
    ultimately show ?thesis
      using evs1 True by (auto simp: completions_def intro!: exI [of _ "evs1 @ new"])
  next
    case False
    then have "?m1 = m" using c by simp
    then show ?thesis using Cons.IH [of m e later "tl evs" m'] Cons.prems m' l False by simp
  qed
qed

lemma take_all_chunks: "distinct xs \<Longrightarrow> l \<le> length xs \<Longrightarrow> set (take l xs) = set xs \<longleftrightarrow> l = length xs"
  by (metis distinct_card distinct_take length_take min.absorb2 take_all order_refl)

section \<open>From the forwarding tasks to the file\<close>

lemma signaling_gone [simp]:
  "receiving tid dest content A (m\<lparr>m_signaling := x\<rparr>) = receiving tid dest content A m"
  "received tid dest content (m\<lparr>m_signaling := x\<rparr>) = received tid dest content m"
  by (simp_all add: receiving_def received_def)

lemma relay_carries:
  assumes "snow_laws (e_snow env) view box" and "\<And>d. sig_roundtrips (e_sig env) (RelayDataMsg sid d)"
    and "m_noise ma nb = Transport ta" and "n_out (view ta) + length (encrypted moves) < 2 ^ 64"
    and "outbound_open (m_clients ma a)" and "\<forall>msg \<in> set (encrypted moves). sendable env msg" and "in_turn 0 moves"
    and "outbound (m_clients (forward_moves env nb a sid moves [] ma) a) = outbound (m_clients ma a) @ js"
  shows "ws_reader (e_sig env) (\<lambda>_. True) 0 (map (\<lambda>j. WsOk (WsText j)) js) =
      map (\<lambda>j. RelayData sid (box (key_out (view ta)) (n_out (view ta) + j) (plaintext_of env (encrypted moves ! j))))
        (queued moves) @ [Disconnected]"
    "\<forall>j \<in> set (queued moves). j < length (encrypted moves)"
proof -
  obtain js' where "outbound (m_clients ma a) @ js = outbound (m_clients ma a) @ js'"
      "map (from_json (e_sig env)) js' = map (\<lambda>j. Inr (RelayDataMsg sid
        (box (key_out (view ta)) (n_out (view ta) + j) (plaintext_of env (encrypted moves ! j))))) (queued moves)"
    using forward_moves_queue [OF assms(1,2) _ assms(3) refl, of moves "n_out (view ta)" "[]" a "encrypted moves"] assms(4-8)
    by auto
  then have "map (from_json (e_sig env)) js = map (\<lambda>d. Inr (RelayDataMsg sid d))
      (map (\<lambda>j. box (key_out (view ta)) (n_out (view ta) + j) (plaintext_of env (encrypted moves ! j))) (queued moves))"
    by simp
  from relay_texts_read [OF this, of 0]
  show "ws_reader (e_sig env) (\<lambda>_. True) 0 (map (\<lambda>j. WsOk (WsText j)) js) =
      map (\<lambda>j. RelayData sid (box (key_out (view ta)) (n_out (view ta) + j) (plaintext_of env (encrypted moves ! j))))
        (queued moves) @ [Disconnected]" by (simp add: o_def)
  show "\<forall>j \<in> set (queued moves). j < length (encrypted moves)" using queued_bound [OF assms(7)] by auto
qed

lemma signaling_loop_ends:
  assumes "length instants = Suc (length evs)"
  shows "snd (signaling_loop env parse dial c (zip instants (evs @ [Disconnected])) m) =
    (snd (signaling_loop env parse dial c (zip (butlast instants) evs) m))\<lparr>m_signaling := None\<rparr>"
proof -
  obtain ins final where "instants = ins @ [final]" "length ins = length evs"
    using assms by (cases instants rule: rev_cases) auto
  then show ?thesis by (simp add: signaling_loop_append)
qed

text \<open>C15: over the relay messages arrive only in the order in which they were encrypted.  Every forwarding task and every
  \<open>send_message\<close> of a session encrypts under the lock of the Noise state and sends after it, so two of them can send the
  other way round.  If nobody is overtaken, the user at the other end is told every message; if message \<open>j\<close> is overtaken by
  the next, its user is told nothing from that one on, however many messages follow, while both sides keep the session.\<close>

theorem relay_overtaking_silences:
  assumes "snow_laws (e_snow env) view box" and "\<And>d. sig_roundtrips (e_sig env) (RelayDataMsg sid d)"
    and "m_noise ma nb = Transport ta" and "Suc (n_out (view ta) + length msgs) < 2 ^ 64"
    and "outbound_open (m_clients ma a)" and "encrypted moves = msgs"
    and "\<forall>msg \<in> set msgs. sendable env msg \<and> notice alice msg \<noteq> None" and "in_turn 0 moves"
    and "ma' = forward_moves env nb a sid moves [] ma" and "outbound (m_clients ma' a) = outbound (m_clients ma a) @ js"
    and "relay_ready sid alice b mb" and "m_noise mb b = Transport tb" and "in_step view ta tb"
    and "evs = ws_reader (e_sig env) (\<lambda>_. True) 0 (map (\<lambda>j. WsOk (WsText j)) js)" and "length instants = length evs"
    and "mb' = snd (signaling_loop env parse dial c (zip instants evs) mb)"
  shows "m_sessions ma' = m_sessions ma \<and> is_connected alice mb' \<and>
    m_events mb' = m_events mb @ concat (map (the \<circ> notice alice) (take (in_row 0 (queued moves)) msgs)) \<and>
    (queued moves = [0..<length msgs] \<longrightarrow> in_row 0 (queued moves) = length msgs) \<and>
    (distinct (queued moves) \<longrightarrow> (\<forall>xs j ys zs. queued moves = xs @ Suc j # ys @ j # zs \<longrightarrow>
      in_row 0 (queued moves) \<le> Suc j \<and> Suc j < length msgs))"
proof -
  let ?k = "key_out (view ta)" and ?n = "n_out (view ta)" and ?q = "queued moves"
  let ?data = "map (\<lambda>j. RelayData sid (box ?k (?n + j) (plaintext_of env (msgs ! j)))) ?q"
  note carried = relay_carries [OF assms(1-3) _ assms(5) _ assms(8), unfolded assms(6), OF _ _ assms(10) [unfolded assms(9)]]
  have evs: "evs = ?data @ [Disconnected]" and q: "\<forall>j \<in> set ?q. j < length msgs"
    using carried assms(4,7,14) by simp_all
  let ?mb1 = "snd (signaling_loop env parse dial c (zip (butlast instants) ?data) mb)"
  have mb': "mb' = ?mb1\<lparr>m_signaling := None\<rparr>" using assms(15) by (simp add: assms(16) evs signaling_loop_ends)
  have ins: "length (butlast instants) = length ?q" using assms(15) evs by simp
  have reads: "reads_at view b ?k (?n + 0) mb" using assms(12,13) by (simp add: reads_at_def in_step_def)
  have got: "relay_ready sid alice b ?mb1 \<and>
      m_events ?mb1 = m_events mb @ concat (map (the \<circ> notice alice) (drop 0 (take (in_row 0 ?q) msgs)))"
    by (rule relayed_notices [OF assms(1,4,7,11) reads _ q ins refl refl]) simp
  have "in_row 0 ?q \<le> Suc j \<and> Suc j < length msgs" if "distinct ?q" "?q = xs @ Suc j # ys @ j # zs" for xs j ys zs
    using in_row_swapped [of xs j ys zs] that q by auto
  then show ?thesis
    using got in_row_all [of 0 "length msgs"] by (auto simp: assms(9) mb' relay_ready_def is_connected_def)
qed


section \<open>Witnesses\<close>

definition relayed_env :: "wire \<Rightarrow> (bytes, noise_view) env" where
  "relayed_env w = toy_env\<lparr>e_wire := w, e_sig := relay_sig\<rparr>"

definition relayed_peer :: "(bytes, noise_view) manager" where
  "relayed_peer = toy_manager\<lparr>m_tracker := [''s'' \<mapsto> ''peer'']\<rparr>"

lemma relayed_env_laws:
  "snow_laws (e_snow (relayed_env w)) (\<lambda>t. t) toy_box" "sig_roundtrips (e_sig (relayed_env w)) (RelayDataMsg ''s'' d)"
  using toy_env_laws relay_sig_roundtrips by (simp_all add: relayed_env_def)

lemma relayed_presence: "sendable (relayed_env presence_wire) (Presence online 0)"
  using toy_presence_sendable [of online] by (simp add: sendable_def relayed_env_def toy_env_def)

lemma relayed_peer_simps:
  "m_noise relayed_peer 0 = Transport toy_view" "outbound (m_clients relayed_peer 0) = []"
  "outbound_open (m_clients relayed_peer 0)" "m_events relayed_peer = []" "relay_ready ''s'' ''peer'' 0 relayed_peer"
  "in_step (\<lambda>t. t) toy_view toy_view" "n_out toy_view = 7"
  by (simp_all add: relayed_peer_def toy_manager_def relay_ready_def in_step_def toy_view_def)

lemma paired_instants: "map (Pair 1) evs = zip (replicate (length evs) (1 :: nat)) evs"
  by (induction evs) simp_all

text \<open>Three messages, the first overtaken by the second: only the first is told.\<close>

theorem relay_overtaking_silences_witness:
  "\<exists>mb'. mb' = snd (signaling_loop (relayed_env presence_wire) (\<lambda>_. None :: nat option) (\<lambda>_. Inl (Io ''x'')) 0
      (map (Pair 1) (ws_reader relay_sig (\<lambda>_. True) 0 (map (\<lambda>j. WsOk (WsText j)) (outbound (m_clients
        (forward_moves (relayed_env presence_wire) 0 0 ''s'' [Encrypts (Presence True 0), Encrypts (Presence False 0), Queues 1,
          Queues 0, Encrypts (Presence True 0), Queues 2] [] relayed_peer) 0))))) relayed_peer) \<and>
    is_connected ''peer'' mb' \<and> m_events mb' = [OnPresence ''peer'' True]"
proof -
  let ?moves = "[Encrypts (Presence True 0), Encrypts (Presence False 0), Queues 1, Queues 0, Encrypts (Presence True 0), Queues 2]"
  let ?msgs = "[Presence True 0, Presence False 0, Presence True 0]"
  let ?env = "relayed_env presence_wire"
  let ?js = "outbound (m_clients (forward_moves ?env 0 0 ''s'' ?moves [] relayed_peer) 0)"
  let ?evs = "ws_reader (e_sig ?env) (\<lambda>_. True) 0 (map (\<lambda>j. WsOk (WsText j)) ?js)"
  have ok: "\<forall>msg \<in> set ?msgs. sendable ?env msg \<and> notice ''peer'' msg \<noteq> None" by (simp add: relayed_presence)
  have n: "Suc (n_out toy_view + length ?msgs) < 2 ^ 64" by (simp add: relayed_peer_simps)
  have moves: "encrypted ?moves = ?msgs" "in_turn 0 ?moves" by simp_all
  have out: "?js = outbound (m_clients relayed_peer 0) @ ?js" by (simp add: relayed_peer_simps)
  note t = relay_overtaking_silences [OF relayed_env_laws relayed_peer_simps(1) n relayed_peer_simps(3) moves(1) ok moves(2) refl
      out relayed_peer_simps(5,1,6) refl length_replicate [where x = "1 :: nat"] refl,
      where parse = "\<lambda>_. None :: nat option" and dial = "\<lambda>_. Inl (Io ''x'')" and c = 0]
  have sig: "e_sig ?env = relay_sig" by (simp add: relayed_env_def)
  have row: "in_row 0 (queued ?moves) = 1" by simp
  show ?thesis
    unfolding paired_instants by (rule exI, rule conjI, rule refl) (use t in \<open>simp only: sig row relayed_peer_simps, simp\<close>)
qed


end
