(* ===== verification/Dialling.thy ===== *)
theory Dialling
  imports Authentication
begin

text \<open>
  Accepting and dialling over QUIC: the accept loop as a run of the node, and what the length of a device id means for
  dialling.
\<close>

section \<open>The accept loop\<close>

lemma accept_loop_run: "(node_step env)\<^sup>*\<^sup>* m (accept_loop env arrivals m)"
proof (induction env arrivals m rule: accept_loop.induct)
  case (2 env now accepted later m)
  show ?case
  proof (cases accepted)
    case (Some r)
    show ?thesis
    proof (cases r)
      case (Inr x)
      obtain conn frame1 st where x: "x = (conn, frame1, st)" by (rule prod_cases3)
      have "(node_step env)\<^sup>*\<^sup>* m (snd (handle_inbound_connection env now conn frame1 st m))"
        by (intro r_into_rtranclp accepting)
      then show ?thesis
        using 2(2) [OF Some Inr x [symmetric] refl] by (simp add: Some Inr x)
    qed (use 2(1) in \<open>simp add: Some\<close>)
  qed simp
qed simp

text \<open>Connections that fail leave no trace.\<close>

lemma accept_loop_failures:
  "accept_loop env ((now, Some (Inl e)) # arrivals) m = accept_loop env arrivals m"
  "fst (handle_inbound_connection env now conn frame1 st m) = Inl e \<Longrightarrow>
    accept_loop env ((now, Some (Inr (conn, frame1, st))) # arrivals) m = accept_loop env arrivals m"
  by (auto simp: handle_inbound_connection_def split: sum.splits)

section \<open>Dialling a device id\<close>

lemma no_candidate_dialled:
  assumes "\<And>addr. \<exists>e. connect_to_peer env now (dial addr) peer m = (Inl e, m)"
  shows "try_candidates env now parse dial peer cands m = (Inl (InvalidState (''no candidate reachable for peer '' @ peer)), m)"
proof (induction cands)
  case (Cons c cands)
  then show ?case
  proof (cases "parse c")
    case (Some addr)
    with assms [of addr] Cons show ?thesis by auto
  qed simp
qed simp

text \<open>C13: no device id can be dialled over QUIC.  \<open>connect\<close> passes the device id on as the TLS server name; a device id is
  the hexadecimal text of a SHA-256 digest, one label of 64 characters, and a DNS label has at most 63.  So whatever
  address is dialled for an id that some key or new identity has, the call fails before a packet is sent and leaves the
  state as it was; no candidate is ever reachable, and offered candidates are answered with a negative result.\<close>

theorem device_ids_never_dialled:
  assumes "\<And>addr. names_checked (connecting addr)" and "hex_law (e_crypto env)" and "digest_32 (e_crypto env)"
    and "peer = device_id_from_public_key (e_crypto env) key \<or> peer = di_device_id (generate (e_crypto env) seed)"
    and "m_sessions m peer = None" and "dial = (\<lambda>addr. dial_peer (connecting addr) streams peer)"
  shows "(\<exists>e. connect_to_peer env now (dial addr) peer m = (Inl (InvalidState (''quic connect setup failed: '' @ e)), m)) \<and>
    try_candidates env now parse dial peer cands m =
      (Inl (InvalidState (''no candidate reachable for peer '' @ peer)), m) \<and>
    handle_signaling_event env now parse dial a (IncomingCandidates peer sid cands) m =
      (None, snd (with_client a (\<lambda>cl. sig_send (e_sig env) cl (CandidateResultMsg sid False))
        (m\<lparr>m_tracker := tracker_register sid peer (m_tracker m)\<rparr>)))"
proof -
  have fails: "\<exists>e. connect_to_peer env now (dial addr) peer m' = (Inl (InvalidState (''quic connect setup failed: '' @ e)), m')"
    if "m_sessions m' peer = None" for addr m'
  proof -
    obtain e where "dial addr = Inl (InvalidState (''quic connect setup failed: '' @ e))"
      using device_id_not_dialled [OF assms(1) assms(2-4), where streams = streams] unfolding assms(6) by blast
    then show ?thesis using that by (simp add: connect_to_peer_def)
  qed
  have none: "try_candidates env now parse dial peer cands m' =
      (Inl (InvalidState (''no candidate reachable for peer '' @ peer)), m')" if "m_sessions m' peer = None" for m'
    by (rule no_candidate_dialled) (use fails [OF that] in blast)
  show ?thesis
    using fails [OF assms(5), of addr] none [OF assms(5)] none [of "m\<lparr>m_tracker := tracker_register sid peer (m_tracker m)\<rparr>"] assms(5)
    by (auto simp: Let_def case_prod_beta)
qed

text \<open>A library that checks names and would otherwise connect.\<close>

definition strict_connecting :: "string \<Rightarrow> string + (string + nat)" where
  "strict_connecting name = (if 63 < length name then Inl (''invalid server name: '' @ name) else Inr (Inr 0))"

definition hex_env :: "(bytes \<times> bytes option, noise_view) env" where
  "hex_env = xx_env\<lparr>e_crypto := toy_crypto\<lparr>hex_encode := hex_of\<rparr>\<rparr>"

theorem device_ids_never_dialled_witness:
  "\<exists>e. connect_to_peer hex_env 1 (dial_peer strict_connecting (\<lambda>_. Inr (honest_stream (second_message hex_env (m_identity (xx_node 6)))))
      (device_id_from_public_key (e_crypto hex_env) [6])) (device_id_from_public_key (e_crypto hex_env) [6]) (xx_node 5) =
    (Inl (InvalidState (''quic connect setup failed: '' @ e)), xx_node 5)"
proof -
  let ?peer = "device_id_from_public_key (e_crypto hex_env) [6]"
  have law: "hex_law (e_crypto hex_env)" "digest_32 (e_crypto hex_env)"
    using toy_digest_32 by (simp_all add: hex_env_def digest_32_def)
  have names: "names_checked strict_connecting" by (simp add: names_checked_def strict_connecting_def)
  have free: "m_sessions (xx_node 5) ?peer = None" by (simp add: xx_node_def manager_new_def)
  show ?thesis
    using device_ids_never_dialled [where connecting = "\<lambda>_. strict_connecting" and peer = ?peer and key = "[6]" and m = "xx_node 5" and
        now = 1 and streams = "\<lambda>_. Inr (honest_stream (second_message hex_env (m_identity (xx_node 6))))", OF names law _ free refl]
    by blast
qed

end
