(* ===== verification/Native.thy ===== *)
theory Native
  imports Usage
begin

text \<open>
  The module \<open>android\<close> of core/src/ffi.rs: what the Kotlin app calls.  Each wrapper turns its Java arguments into
  those of a public function and the \<open>Result\<close> of the function into one text, an error into a JSON object that
  the wrapper writes itself.  A Java string arrives as its characters; a null string panics in the \<open>jni\<close> crate and
  is excluded by Kotlin's types.  The function \<open>opens\<close> gives the outcome of opening the database at a path under a key.
\<close>

section \<open>Values across the bridge\<close>

type_synonym jint = "32 word"
type_synonym jlong = "64 word"
type_synonym jboolean = "8 word"

text \<open>\<open>limit.max(0) as u32\<close> and \<open>size.max(0) as u64\<close>.\<close>

definition jint_u32 :: "jint \<Rightarrow> u32" where
  "jint_u32 x = of_int (max (sint x) 0)"

definition jlong_u64 :: "jlong \<Rightarrow> u64" where
  "jlong_u64 x = of_int (max (sint x) 0)"

text \<open>\<open>replace('\"', \"'\")\<close> and the text of a result.\<close>

definition unquote :: "string \<Rightarrow> string" where
  "unquote e = map (\<lambda>c. if c = CHR 0x22 then CHR 0x27 else c) e"

definition error_prefix :: string where
  "error_prefix = ''{\"error\":\"''"

fun bridge_text :: "string + string \<Rightarrow> string" where
  "bridge_text (Inr json) = json"
| "bridge_text (Inl e) = error_prefix @ unquote e @ ''\"}''"

definition bridged :: "(string + string) \<times> 's \<Rightarrow> string \<times> 's" where
  "bridged x = (bridge_text (fst x), snd x)"

section \<open>The wrappers\<close>

definition Java_initApp ::
    "('h, 't) env \<Rightarrow> serde \<Rightarrow> (string \<Rightarrow> string \<Rightarrow> unit res) \<Rightarrow> bytes \<Rightarrow> string \<Rightarrow> string \<Rightarrow> ('h, 't) process \<Rightarrow>
      string \<times> ('h, 't) process" where
  "Java_initApp env sd opens seed db_path db_key pr = bridged (init_app env sd (opens db_path db_key) seed pr)"

definition Java_getIdentity ::
    "('h, 't) env \<Rightarrow> serde \<Rightarrow> (string \<Rightarrow> string \<Rightarrow> unit res) \<Rightarrow> string \<Rightarrow> string \<Rightarrow> ('h, 't) process \<Rightarrow>
      string \<times> ('h, 't) process" where
  "Java_getIdentity env sd opens db_path db_key pr = bridged (get_identity env sd (opens db_path db_key) pr, pr)"

text \<open>The answers of the file system and of discovery depend on the directory and the name.\<close>

definition Java_startNetworking ::
    "('h, 't) env \<Rightarrow> serde \<Rightarrow> (string \<Rightarrow> string \<Rightarrow> unit res) \<Rightarrow> bytes \<Rightarrow> (string \<Rightarrow> string + unit) \<Rightarrow> (u16 \<times> string) res \<Rightarrow>
      (string \<Rightarrow> unit res) \<Rightarrow> filesystem \<Rightarrow> ('h, 't) noise_session \<Rightarrow> string \<Rightarrow> string \<Rightarrow> string \<Rightarrow> string \<Rightarrow>
      ('h, 't) process \<Rightarrow> string \<times> ('h, 't) process" where
  "Java_startNetworking env sd opens seed made bound discovering fs unused db_path db_key display_name downloads_dir pr =
     bridged (start_networking env sd (opens db_path db_key) seed (made downloads_dir) bound (discovering display_name)
       downloads_dir fs unused pr)"

definition Java_connectToPeer ::
    "('h, 't) env \<Rightarrow> nat \<Rightarrow> (string \<Rightarrow> string + 'a) \<Rightarrow> ('a \<Rightarrow> (nat \<times> peer_stream) res) \<Rightarrow> string \<Rightarrow> string \<Rightarrow>
      ('h, 't) process \<Rightarrow> string \<times> ('h, 't) process" where
  "Java_connectToPeer env now parse dial addr expected_device_id pr =
     bridged (on_manager (connect_to_peer_ffi env now parse dial addr expected_device_id) pr)"

definition Java_connectSignalingServer ::
    "('h, 't) env \<Rightarrow> (string \<Rightarrow> string + unit) \<Rightarrow> string \<Rightarrow> ('h, 't) process \<Rightarrow> string \<times> ('h, 't) process" where
  "Java_connectSignalingServer env ws url pr = bridged (on_manager (connect_signaling_server_ffi env (ws url)) pr)"

definition Java_connectToPeerViaInternet ::
    "('h, 't) env \<Rightarrow> socket_addr res \<Rightarrow> string \<Rightarrow> string \<Rightarrow> string \<Rightarrow> ('h, 't) process \<Rightarrow> string \<times> ('h, 't) process" where
  "Java_connectToPeerViaInternet env probe local_addr sid peer_device_id pr =
     bridged (on_manager (connect_to_peer_via_internet_ffi env probe local_addr sid peer_device_id) pr)"

definition Java_bleSealMessage ::
    "crypto \<Rightarrow> (string \<Rightarrow> string + bytes) \<Rightarrow> bytes \<Rightarrow> bytes \<Rightarrow> string \<Rightarrow> string \<Rightarrow> ('h, 't) process \<Rightarrow>
      string \<times> ('h, 't) process" where
  "Java_bleSealMessage c hex_decode eph nonce recipient_public_key_hex plaintext pr =
     bridged (ble_seal_message c hex_decode eph nonce recipient_public_key_hex plaintext, pr)"

definition Java_bleOpenMessage ::
    "('h, 't) env \<Rightarrow> (string \<Rightarrow> string + bytes) \<Rightarrow> (bytes \<Rightarrow> string) \<Rightarrow> (string \<Rightarrow> string \<Rightarrow> unit res) \<Rightarrow> string \<Rightarrow> string \<Rightarrow>
      string \<Rightarrow> ('h, 't) process \<Rightarrow> string \<times> ('h, 't) process" where
  "Java_bleOpenMessage env hex_decode utf8_error opens db_path db_key sealed_hex pr =
     bridged (ble_open_message env hex_decode utf8_error (opens db_path db_key) sealed_hex pr, pr)"

definition Java_getKnownDevicePublicKey ::
    "('h, 't) env \<Rightarrow> string \<Rightarrow> ('h, 't) process \<Rightarrow> string \<times> ('h, 't) process" where
  "Java_getKnownDevicePublicKey env peer_device_id pr =
     bridged (on_manager (get_known_device_public_key (e_crypto env) peer_device_id) pr)"

definition Java_sendTextMessage ::
    "('h, 't) env \<Rightarrow> serde \<Rightarrow> nat \<Rightarrow> string \<Rightarrow> string \<Rightarrow> string \<Rightarrow> ('h, 't) process \<Rightarrow> string \<times> ('h, 't) process" where
  "Java_sendTextMessage env sd now mid peer_device_id body pr =
     bridged (on_manager (send_text_message env sd now mid peer_device_id body) pr)"

definition Java_pollEvents :: "serde \<Rightarrow> ('h, 't) process \<Rightarrow> string \<times> ('h, 't) process" where
  "Java_pollEvents sd pr = bridged (on_manager (poll_events sd) pr)"

definition Java_getConversationHistory ::
    "serde \<Rightarrow> (message_row list \<Rightarrow> message_row list) \<Rightarrow> string \<Rightarrow> jint \<Rightarrow> ('h, 't) process \<Rightarrow> string \<times> ('h, 't) process" where
  "Java_getConversationHistory sd newest_first peer_device_id limit pr =
     bridged (on_manager (get_conversation_history sd newest_first peer_device_id (jint_u32 limit)) pr)"

definition Java_sendTypingIndicator ::
    "('h, 't) env \<Rightarrow> string \<Rightarrow> string \<Rightarrow> jboolean \<Rightarrow> ('h, 't) process \<Rightarrow> string \<times> ('h, 't) process" where
  "Java_sendTypingIndicator env peer_device_id conversation_id is_typing pr =
     bridged (on_manager (send_typing_indicator env peer_device_id conversation_id (is_typing \<noteq> 0)) pr)"

definition Java_markMessageRead ::
    "('h, 't) env \<Rightarrow> nat \<Rightarrow> string \<Rightarrow> string \<Rightarrow> ('h, 't) process \<Rightarrow> string \<times> ('h, 't) process" where
  "Java_markMessageRead env now peer_device_id message_id pr =
     bridged (on_manager (mark_message_read_ffi env now peer_device_id message_id) pr)"

definition Java_connectedPeers ::
    "serde \<Rightarrow> (string set \<Rightarrow> string list) \<Rightarrow> ('h, 't) process \<Rightarrow> string \<times> ('h, 't) process" where
  "Java_connectedPeers sd order pr = bridged (on_manager (connected_peers sd order) pr)"

definition Java_discoverPeers ::
    "serde \<Rightarrow> (discovered_peer set \<Rightarrow> discovered_peer list) \<Rightarrow> u64 \<Rightarrow> ('h, 't) process \<Rightarrow> string \<times> ('h, 't) process" where
  "Java_discoverPeers sd order now pr = bridged (with_session (discover_peers sd order now) pr)"

definition Java_networkingStatus :: "serde \<Rightarrow> u64 \<Rightarrow> ('h, 't) process \<Rightarrow> string \<times> ('h, 't) process" where
  "Java_networkingStatus sd now pr = bridged (with_session (networking_status sd now) pr)"

definition Java_pauseTransfer :: "string \<Rightarrow> ('h, 't) process \<Rightarrow> string \<times> ('h, 't) process" where
  "Java_pauseTransfer transfer_id pr = bridged (on_manager (pause_transfer transfer_id) pr)"

definition Java_resumeTransfer :: "string \<Rightarrow> ('h, 't) process \<Rightarrow> string \<times> ('h, 't) process" where
  "Java_resumeTransfer transfer_id pr = bridged (on_manager (resume_transfer transfer_id) pr)"

definition Java_cancelTransfer ::
    "('h, 't) env \<Rightarrow> string \<Rightarrow> string \<Rightarrow> ('h, 't) process \<Rightarrow> string \<times> ('h, 't) process" where
  "Java_cancelTransfer env peer_device_id transfer_id pr =
     bridged (on_manager (cancel_transfer_ffi env peer_device_id transfer_id) pr)"

definition Java_sendFile ::
    "('h, 't) env \<Rightarrow> serde \<Rightarrow> nat \<Rightarrow> (string \<Rightarrow> string + u64) \<Rightarrow> string \<Rightarrow> string \<Rightarrow> string \<Rightarrow> string \<Rightarrow> string \<Rightarrow>
      ('h, 't) process \<Rightarrow> string \<times> ('h, 't) process" where
  "Java_sendFile env sd now metadata mid tid peer_device_id file_path conversation_id pr =
     bridged (on_manager (send_file_ffi env sd now (\<lambda>c. c = CHR ''/'') metadata mid tid peer_device_id file_path
       conversation_id) pr)"

definition Java_sendFileFd ::
    "('h, 't) env \<Rightarrow> serde \<Rightarrow> nat \<Rightarrow> string \<Rightarrow> string \<Rightarrow> string \<Rightarrow> jint \<Rightarrow> string \<Rightarrow> jlong \<Rightarrow> string \<Rightarrow> string \<Rightarrow>
      ('h, 't) process \<Rightarrow> string \<times> ('h, 't) process" where
  "Java_sendFileFd env sd now mid tid peer_device_id fd file_name file_size mime_type conversation_id pr =
     bridged (on_manager (send_file_fd env sd now mid tid peer_device_id (sint fd) file_name (jlong_u64 file_size)
       mime_type conversation_id) pr)"

text \<open>\<open>sendFolder\<close> returns to Java when the answer to the offer is there: it fails with the offer, or it waits with what
  was offered.\<close>

definition Java_sendFolder_begin ::
    "('h, 't) env \<Rightarrow> string \<Rightarrow> string \<Rightarrow> string \<Rightarrow> path \<Rightarrow> entry \<Rightarrow> ('h, 't) process \<Rightarrow>
      (string + path list \<times> folder_file_entry list \<times> nat) \<times> ('h, 't) process" where
  "Java_sendFolder_begin env batch peer_device_id conversation_id dir tree pr =
     (let (r, pr') = on_manager (send_folder_begin env batch peer_device_id conversation_id CHR ''/'' dir tree) pr
      in (map_err (\<lambda>e. bridge_text (Inl e)) r, pr'))"

definition Java_sendFolder ::
    "('h, 't) env \<Rightarrow> serde \<Rightarrow> nat \<Rightarrow> bool \<Rightarrow> nat \<Rightarrow> string \<Rightarrow> string \<Rightarrow> string \<Rightarrow>
      (path \<times> folder_file_entry \<times> string \<times> string) list \<Rightarrow> (nat \<Rightarrow> string) \<Rightarrow> ('h, 't) process \<Rightarrow>
      string \<times> ('h, 't) process" where
  "Java_sendFolder env sd now timed_out tx batch peer_device_id conversation_id offered mids pr =
     bridged (on_manager (send_folder_ffi env sd now timed_out tx batch peer_device_id conversation_id CHR ''/'' offered
       mids) pr)"

definition Java_acceptFile ::
    "('h, 't) env \<Rightarrow> serde \<Rightarrow> nat \<Rightarrow> string \<Rightarrow> string \<Rightarrow> string \<Rightarrow> string \<Rightarrow> jlong \<Rightarrow> string \<Rightarrow> ('h, 't) process \<Rightarrow>
      string \<times> ('h, 't) process" where
  "Java_acceptFile env sd now from_device_id transfer_id message_id file_name file_size mime_type pr =
     bridged (on_manager (accept_file_ffi env sd now from_device_id transfer_id message_id file_name
       (jlong_u64 file_size) mime_type) pr)"

definition Java_rejectFile ::
    "('h, 't) env \<Rightarrow> string \<Rightarrow> string \<Rightarrow> string \<Rightarrow> ('h, 't) process \<Rightarrow> string \<times> ('h, 't) process" where
  "Java_rejectFile env from_device_id transfer_id reason pr =
     bridged (on_manager (reject_file_ffi env from_device_id transfer_id reason) pr)"

definition Java_acceptFolder ::
    "('h, 't) env \<Rightarrow> string \<Rightarrow> string \<Rightarrow> ('h, 't) process \<Rightarrow> string \<times> ('h, 't) process" where
  "Java_acceptFolder env from_device_id folder_batch_id pr =
     bridged (on_manager (accept_folder_ffi env from_device_id folder_batch_id) pr)"

definition Java_rejectFolder ::
    "('h, 't) env \<Rightarrow> string \<Rightarrow> string \<Rightarrow> string \<Rightarrow> ('h, 't) process \<Rightarrow> string \<times> ('h, 't) process" where
  "Java_rejectFolder env from_device_id folder_batch_id reason pr =
     bridged (on_manager (reject_folder_ffi env from_device_id folder_batch_id reason) pr)"

definition Java_getTransferProgress :: "serde \<Rightarrow> string \<Rightarrow> ('h, 't) process \<Rightarrow> string \<times> ('h, 't) process" where
  "Java_getTransferProgress sd transfer_id pr = bridged (on_manager (get_transfer_progress sd transfer_id) pr)"

lemmas wrappers =
  Java_initApp_def Java_getIdentity_def Java_startNetworking_def Java_connectToPeer_def Java_connectSignalingServer_def
  Java_connectToPeerViaInternet_def Java_bleSealMessage_def Java_bleOpenMessage_def Java_getKnownDevicePublicKey_def
  Java_sendTextMessage_def Java_pollEvents_def Java_getConversationHistory_def Java_sendTypingIndicator_def
  Java_markMessageRead_def Java_connectedPeers_def Java_discoverPeers_def Java_networkingStatus_def
  Java_pauseTransfer_def Java_resumeTransfer_def Java_cancelTransfer_def Java_sendFile_def Java_sendFileFd_def
  Java_sendFolder_def Java_acceptFile_def Java_rejectFile_def Java_acceptFolder_def Java_rejectFolder_def
  Java_getTransferProgress_def

section \<open>The app on the bridge\<close>

text \<open>What the Kotlin app can call.  Its database is always the same file under the same key.\<close>

inductive native_call ::
    "('h, 't) env \<Rightarrow> (string \<Rightarrow> string \<Rightarrow> unit res) \<Rightarrow> string \<Rightarrow> string \<Rightarrow>
      (('h, 't) process \<Rightarrow> string \<times> ('h, 't) process) \<Rightarrow> bool" for env opens db_path db_key where
  "native_call env opens db_path db_key (Java_initApp env sd opens seed db_path db_key)"
| "native_call env opens db_path db_key (Java_getIdentity env sd opens db_path db_key)"
| "native_call env opens db_path db_key
    (Java_startNetworking env sd opens seed made bound discovering fs unused db_path db_key display_name downloads_dir)"
| "native_call env opens db_path db_key (Java_connectToPeer env now (parse :: string \<Rightarrow> string + string) dial addr expected)"
| "native_call env opens db_path db_key (Java_connectSignalingServer env ws url)"
| "native_call env opens db_path db_key (Java_connectToPeerViaInternet env probe local_addr sid peer)"
| "native_call env opens db_path db_key (Java_bleSealMessage (e_crypto env) hex_decode eph nonce recipient plaintext)"
| "native_call env opens db_path db_key (Java_bleOpenMessage env hex_decode utf8_error opens db_path db_key sealed_hex)"
| "native_call env opens db_path db_key (Java_getKnownDevicePublicKey env peer)"
| "native_call env opens db_path db_key (Java_sendTextMessage env sd now mid peer body)"
| "native_call env opens db_path db_key (Java_pollEvents sd)"
| "native_call env opens db_path db_key (Java_getConversationHistory sd newest_first peer limit)"
| "native_call env opens db_path db_key (Java_sendTypingIndicator env peer conv is_typing)"
| "native_call env opens db_path db_key (Java_markMessageRead env now peer mid)"
| "native_call env opens db_path db_key (Java_connectedPeers sd id_order)"
| "native_call env opens db_path db_key (Java_discoverPeers sd order now_unix)"
| "native_call env opens db_path db_key (Java_networkingStatus sd now_unix)"
| "native_call env opens db_path db_key (Java_pauseTransfer tid)"
| "native_call env opens db_path db_key (Java_resumeTransfer tid)"
| "native_call env opens db_path db_key (Java_cancelTransfer env peer tid)"
| "native_call env opens db_path db_key (Java_sendFile env sd now metadata mid tid peer file_path conv)"
| "native_call env opens db_path db_key (Java_sendFileFd env sd now mid tid peer fd name fsize mime conv)"
| "native_call env opens db_path db_key (Java_sendFolder env sd now timed_out tx batch peer conv offered mids)"
| "native_call env opens db_path db_key (Java_acceptFile env sd now src tid mid name fsize mime)"
| "native_call env opens db_path db_key (Java_rejectFile env src tid reason)"
| "native_call env opens db_path db_key (Java_acceptFolder env src batch)"
| "native_call env opens db_path db_key (Java_rejectFolder env src batch reason)"
| "native_call env opens db_path db_key (Java_getTransferProgress sd tid)"

text \<open>The app makes calls, and around it the network, discovery and the end of the process go on as before.\<close>

inductive android_step ::
    "('h, 't) env \<Rightarrow> (string \<Rightarrow> string \<Rightarrow> unit res) \<Rightarrow> string \<Rightarrow> string \<Rightarrow> ('h, 't) process \<Rightarrow> ('h, 't) process \<Rightarrow> bool"
  for env opens db_path db_key where
  called: "native_call env opens db_path db_key f \<Longrightarrow> android_step env opens db_path db_key pr (snd (f pr))"
| folder_call: "android_step env opens db_path db_key pr
    (snd (Java_sendFolder_begin env batch peer conv dir tree pr))"
| around: "world_step env pr pr' \<Longrightarrow> android_step env opens db_path db_key pr pr'"
lemma bridged_snd [simp]: "snd (bridged x) = snd x"
  by (simp add: bridged_def)

lemma native_call_simulated:
  assumes "native_call env opens db_path db_key f"
  shows "snd (f pr) = pr \<or> process_step env pr (snd (f pr))"
  using assms
  by (induction rule: native_call.induct) (simp_all add: wrappers process_step.intros ffi_call.intros)

lemma android_step_simulated:
  assumes "android_step env opens db_path db_key pr pr'"
  shows "(process_step env)\<^sup>*\<^sup>* pr pr'"
  using assms
proof (induction rule: android_step.induct)
  case (called f pr)
  then show ?case using native_call_simulated [OF called, of pr] by auto
next
  case (folder_call pr batch peer conv dir tree)
  then show ?case
    using folder_begins [of env pr batch peer conv "CHR ''/''" dir tree]
    by (simp add: Java_sendFolder_begin_def case_prod_beta r_into_rtranclp)
qed (auto intro: process_step.around)

interpretation android: shell env "android_step env opens db_path db_key" "\<lambda>pr. pr" for env opens db_path db_key
  by unfold_locales (rule android_step_simulated)


section \<open>What Kotlin reads of an error\<close>

text \<open>A JSON string up to its closing quote, as RFC 8259 has it, over UTF-8; an escaped UTF-16 unit on its own.\<close>

definition hex_value :: "char \<Rightarrow> nat option" where
  "hex_value c =
     (let n = of_char c :: nat
      in if 48 \<le> n \<and> n \<le> 57 then Some (n - 48)
         else if 65 \<le> n \<and> n \<le> 70 then Some (n - 55)
         else if 97 \<le> n \<and> n \<le> 102 then Some (n - 87)
         else None)"

definition utf8_unit :: "nat \<Rightarrow> string" where
  "utf8_unit v =
     map char_of (if v < 0x80 then [v]
       else if v < 0x800 then [0xC0 + v div 64, 0x80 + v mod 64]
       else [0xE0 + v div 4096, 0x80 + v div 64 mod 64, 0x80 + v mod 64])"

definition unicode_escape :: "char \<Rightarrow> char \<Rightarrow> char \<Rightarrow> char \<Rightarrow> string option" where
  "unicode_escape a b c d =
     (case (hex_value a, hex_value b, hex_value c, hex_value d) of
        (Some w, Some x, Some y, Some z) \<Rightarrow> Some (utf8_unit (w * 4096 + x * 256 + y * 16 + z))
      | _ \<Rightarrow> None)"

definition simple_escape :: "char \<Rightarrow> char option" where
  "simple_escape c =
     map_of (zip [CHR 0x22, CHR 0x5C, CHR ''/'', CHR ''b'', CHR ''f'', CHR ''n'', CHR ''r'', CHR ''t'']
       [CHR 0x22, CHR 0x5C, CHR ''/'', CHR 0x08, CHR 0x0C, CHR 0x0A, CHR 0x0D, CHR 0x09]) c"

text \<open>What follows a backslash: the text it stands for and the rest.\<close>

fun unescape :: "string \<Rightarrow> (string \<times> string) option" where
  "unescape [] = None"
| "unescape (e # r) =
     (if e = CHR ''u'' then
        (case r of
           h1 # h2 # h3 # h4 # r' \<Rightarrow> map_option (\<lambda>u. (u, r')) (unicode_escape h1 h2 h3 h4)
         | _ \<Rightarrow> None)
      else map_option (\<lambda>c. ([c], r)) (simple_escape e))"

lemma length_unicode_escape: "unicode_escape a b c d = Some u \<Longrightarrow> length u \<le> 3"
  by (auto simp: unicode_escape_def utf8_unit_def split: option.splits if_splits)

lemma unescape_consumed:
  assumes "unescape cs = Some (u, r)"
  shows "\<exists>q. cs = q @ r \<and> length u \<le> length q"
proof (cases cs)
  case (Cons e es)
  show ?thesis
  proof (cases "e = CHR ''u''")
    case True
    with assms Cons obtain h1 h2 h3 h4 where h: "es = h1 # h2 # h3 # h4 # r" "unicode_escape h1 h2 h3 h4 = Some u"
      by (auto split: list.splits)
    show ?thesis
      using length_unicode_escape [OF h(2)] by (intro exI [of _ "e # [h1, h2, h3, h4]"]) (simp add: Cons h(1))
  next
    case False
    with assms Cons show ?thesis by (intro exI [of _ "[e]"]) auto
  qed
qed (use assms in simp)

function json_chars :: "string \<Rightarrow> (string \<times> string) option" where
  "json_chars [] = None"
| "json_chars (c # cs) =
     (if c = CHR 0x22 then Some ([], cs)
      else if of_char c < (0x20 :: nat) then None
      else if c = CHR 0x5C then
        (case unescape cs of
           None \<Rightarrow> None
         | Some (u, r) \<Rightarrow> map_option (\<lambda>(t, rest). (u @ t, rest)) (json_chars r))
      else map_option (\<lambda>(t, rest). (c # t, rest)) (json_chars cs))"
  by pat_completeness auto

termination json_chars
  by (relation "measure length") (auto dest!: unescape_consumed)

text \<open>The text in an object with the one field \<open>error\<close>, as the wrappers write it.\<close>

definition read_error :: "string \<Rightarrow> string option" where
  "read_error s =
     (if take (length error_prefix) s = error_prefix
      then (case json_chars (drop (length error_prefix) s) of
              Some (t, rest) \<Rightarrow> if rest = ''}'' then Some t else None
            | None \<Rightarrow> None)
      else None)"

text \<open>Characters that stand for themselves in a JSON string, quotes aside.\<close>

definition plain :: "string \<Rightarrow> bool" where
  "plain e \<longleftrightarrow> (\<forall>c \<in> set e. c \<noteq> CHR 0x5C \<and> (0x20 :: nat) \<le> of_char c)"

lemma json_chars_plain: "plain p \<Longrightarrow> CHR 0x22 \<notin> set p \<Longrightarrow> json_chars (p @ CHR 0x22 # rest) = Some (p, rest)"
  by (induction p) (auto simp: plain_def)

text \<open>A reader consumes at least as many characters as it yields, and more where there is an escape.\<close>

lemma json_chars_consumed:
  "json_chars s = Some (t, rest) \<Longrightarrow>
    \<exists>p. s = p @ CHR 0x22 # rest \<and> length t \<le> length p \<and> (length t = length p \<longrightarrow> t = p \<and> plain p)"
proof (induction s arbitrary: t rest rule: json_chars.induct)
  case (2 c cs)
  consider (close) "c = CHR 0x22" | (control) "c \<noteq> CHR 0x22" "of_char c < (0x20 :: nat)"
    | (escape) "c \<noteq> CHR 0x22" "\<not> of_char c < (0x20 :: nat)" "c = CHR 0x5C"
    | (self) "c \<noteq> CHR 0x22" "\<not> of_char c < (0x20 :: nat)" "c \<noteq> CHR 0x5C" by blast
  then show ?case
  proof cases
    case close
    then show ?thesis using "2.prems" by (auto simp: plain_def)
  next
    case control
    then show ?thesis using "2.prems" by simp
  next
    case escape
    then obtain u r t' where u: "unescape cs = Some (u, r)" "json_chars r = Some (t', rest)" "t = u @ t'"
      using "2.prems" by (auto split: option.splits)
    obtain p where p: "r = p @ CHR 0x22 # rest" "length t' \<le> length p"
      using "2.IH"(1) [OF escape u(1) refl u(2)] by blast
    obtain q where q: "cs = q @ r" "length u \<le> length q" using unescape_consumed [OF u(1)] by blast
    show ?thesis using p q u(3) by (intro exI [of _ "c # q @ p"]) simp
  next
    case self
    then obtain t' where t: "json_chars cs = Some (t', rest)" "t = c # t'" using "2.prems" by auto
    obtain p where "cs = p @ CHR 0x22 # rest" "length t' \<le> length p" "length t' = length p \<longrightarrow> t' = p \<and> plain p"
      using "2.IH"(2) [OF self t(1)] by blast
    then show ?thesis using self t(2) by (intro exI [of _ "c # p"]) (auto simp: plain_def)
  qed
qed simp

lemma plain_simps [simp]: "plain []" "plain (c # e) \<longleftrightarrow> c \<noteq> CHR 0x5C \<and> (0x20 :: nat) \<le> of_char c \<and> plain e"
  by (auto simp: plain_def)

lemma unquote_simps [simp]:
  "length (unquote e) = length e" "CHR 0x22 \<notin> set (unquote e)" "plain (unquote e) \<longleftrightarrow> plain e"
proof -
  show "length (unquote e) = length e" by (simp add: unquote_def)
  show "CHR 0x22 \<notin> set (unquote e)" by (induction e) (simp_all add: unquote_def)
  show "plain (unquote e) \<longleftrightarrow> plain e" by (induction e) (simp_all add: unquote_def)
qed


text \<open>C39: a message over the mesh that a peer seals with the text of an error is handed to Kotlin as that error: the
  wrapper returns what it returns when opening fails, so a message that was read is taken for one that could not
  be.\<close>

theorem error_forged_by_peer:
  assumes "load_identity (e_crypto env) (database pb) = Inr (Some bob)"
    and "dh_agrees (e_crypto env)" and "x_keys_32 (e_crypto env)" and "aead_correct (e_crypto env)"
    and "\<And>b. hex_decode (hex_encode (e_crypto env) b) = Inr b" and "length nonce = 12"
    and "utf8_valid (ascii_bytes (bridge_text (Inl e)))" and "opens db_path db_key = Inr ()"
    and "ble_seal_message (e_crypto env) hex_decode eph nonce
      (hex_encode (e_crypto env) (noise_public (e_crypto env) bob)) (bridge_text (Inl e)) = Inr sealed"
    and "ble_open_message env hex_decode utf8_error (Inr ()) garbage pb = Inl e"
  shows "ble_open_message env hex_decode utf8_error (Inr ()) sealed pb = Inr (bridge_text (Inl e)) \<and>
    Java_bleOpenMessage env hex_decode utf8_error opens db_path db_key sealed pb =
    Java_bleOpenMessage env hex_decode utf8_error opens db_path db_key garbage pb"
proof -
  have "ble_open_message env hex_decode utf8_error (Inr ()) sealed pb = Inr (bridge_text (Inl e))"
    by (rule sealed_message_opens [OF assms(1-7,9)])
  then show ?thesis by (simp add: Java_bleOpenMessage_def bridged_def assms(8,10))
qed

section \<open>Concrete calls\<close>


theorem error_forged_by_peer_witness:
  "\<exists>e sealed. ble_open_message app_env toy_unhex (\<lambda>_. ''bad'') (Inr ()) sealed (started 6) = Inr (bridge_text (Inl e)) \<and>
    Java_bleOpenMessage app_env toy_unhex (\<lambda>_. ''bad'') (\<lambda>_ _. Inr ()) ''db'' ''k'' sealed (started 6) =
    Java_bleOpenMessage app_env toy_unhex (\<lambda>_. ''bad'') (\<lambda>_ _. Inr ()) ''db'' ''k'' ''x'' (started 6)"
proof -
  let ?e = "''crypto error: sealed_box message too short''"
  have garbage: "ble_open_message app_env toy_unhex (\<lambda>_. ''bad'') (Inr ()) ''x'' (started 6) = Inl ?e"
    by (simp add: ble_open_message_def person_on_record [simplified] toy_unhex_def open_sealed_def)
  have valid: "utf8_valid (ascii_bytes (bridge_text (Inl ?e)))"
    by (simp add: ascii_bytes_def error_prefix_def unquote_def)
  obtain sealed where sealed: "ble_seal_message (e_crypto app_env) toy_unhex [3] (replicate 12 8)
      (hex_encode (e_crypto app_env) (noise_public (e_crypto app_env) (person 6))) (bridge_text (Inl ?e)) = Inr sealed"
    using toy_sealed by blast
  show ?thesis
    by (intro exI, rule error_forged_by_peer [OF person_on_record app_env_crypto_laws toy_unhex_encoded length_replicate
        valid refl sealed garbage])
qed

end
