(* ===== verification/Windows.thy ===== *)
theory Windows
  imports Usage
begin

text \<open>
  src/windows/src-tauri/src/main.rs: the Windows shell.  It keeps the key of the database in a file beside it and
  forwards the commands of its user interface to the public functions of the core.  A command that panics has no
  result.  What the system answers is the record \<open>windows_os\<close>; opening the database is a function of path and key.
\<close>

section \<open>Trimming a text\<close>

text \<open>\<open>str::trim\<close>: the characters of the Unicode property \<open>White_Space\<close>, in UTF-8.\<close>

definition white_space :: "string list" where
  "white_space = map (\<lambda>c. [c]) [CHR 0x09, CHR 0x0A, CHR 0x0B, CHR 0x0C, CHR 0x0D, CHR 0x20] @
     [[CHR 0xC2, CHR 0x85], [CHR 0xC2, CHR 0xA0], [CHR 0xE1, CHR 0x9A, CHR 0x80]] @
     map (\<lambda>c. [CHR 0xE2, CHR 0x80, c]) [CHR 0x80, CHR 0x81, CHR 0x82, CHR 0x83, CHR 0x84, CHR 0x85, CHR 0x86,
       CHR 0x87, CHR 0x88, CHR 0x89, CHR 0x8A, CHR 0xA8, CHR 0xA9, CHR 0xAF] @
     [[CHR 0xE2, CHR 0x81, CHR 0x9F], [CHR 0xE3, CHR 0x80, CHR 0x80]]"

function trim_front :: "string list \<Rightarrow> string \<Rightarrow> string" where
  "trim_front ws s =
     (case find (\<lambda>w. w \<noteq> [] \<and> take (length w) s = w) ws of
        None \<Rightarrow> s
      | Some w \<Rightarrow> trim_front ws (drop (length w) s))"
  by pat_completeness auto

termination trim_front
proof (relation "measure (\<lambda>(ws, s). length s)")
  fix ws s w
  assume "find (\<lambda>w. w \<noteq> [] \<and> take (length w) s = w) ws = Some w"
  then have "w \<noteq> [] \<and> take (length w) s = w" by (auto simp: find_Some_iff)
  then show "((ws, drop (length w) s), ws, s) \<in> measure (\<lambda>(ws, s). length s)" by (cases s) auto
qed simp

declare trim_front.simps [simp del]

definition trim :: "string \<Rightarrow> string" where
  "trim s = rev (trim_front (map rev white_space) (rev (trim_front white_space s)))"

section \<open>The key of the database\<close>

text \<open>The directory of the user's data, whether a directory can be made, the name of the device, whether the key file
  can be read, and what writing it leaves there.\<close>

record windows_os =
  os_data_dir :: "string option"
  os_mkdir :: "string \<Rightarrow> bool"
  os_device_name :: string
  os_reads :: bool
  os_write :: "bytes \<Rightarrow> bool \<times> bytes option"

record ('h, 't) windows =
  wi_key_file :: "bytes option"
  wi_process :: "('h, 't) process"

text \<open>\<open>join\<close> of a directory with one of the relative names used here.\<close>

definition win_join :: "string \<Rightarrow> string \<Rightarrow> string" where
  "win_join dir name =
     (if dir = [] \<or> last dir = CHR 0x5C \<or> last dir = CHR ''/'' then dir @ name else dir @ CHR 0x5C # name)"

definition app_data_dir :: "windows_os \<Rightarrow> string option" where
  "app_data_dir os =
     (case os_data_dir os of
        None \<Rightarrow> None
      | Some d \<Rightarrow> let dir = win_join d ''ZaoP2P'' in if os_mkdir os dir then Some dir else None)"

definition db_path :: "windows_os \<Rightarrow> string option" where
  "db_path os = map_option (\<lambda>dir. win_join dir ''zao.db'') (app_data_dir os)"

definition downloads_dir :: "windows_os \<Rightarrow> string option" where
  "downloads_dir os =
     (case app_data_dir os of
        None \<Rightarrow> None
      | Some d \<Rightarrow> let dir = win_join d ''downloads'' in if os_mkdir os dir then Some dir else None)"

text \<open>\<open>fs::read_to_string\<close>, then the key with the content of the file afterwards; \<open>drawn\<close> are the random bytes.\<close>

definition read_key :: "windows_os \<Rightarrow> bytes option \<Rightarrow> string option" where
  "read_key os file =
     (case file of
        None \<Rightarrow> None
      | Some b \<Rightarrow> if os_reads os \<and> utf8_valid b then Some (text_of_bytes b) else None)"

definition get_or_create_db_key :: "windows_os \<Rightarrow> crypto \<Rightarrow> bytes \<Rightarrow> bytes option \<Rightarrow> string option \<times> bytes option" where
  "get_or_create_db_key os c drawn file =
     (if app_data_dir os = None then (None, file)
      else
        let made = (let (ok, file') = os_write os (ascii_bytes (hex_encode c drawn))
                    in (if ok then Some (hex_encode c drawn) else None, file'))
        in case read_key os file of
             None \<Rightarrow> made
           | Some existing \<Rightarrow> if trim existing \<noteq> [] then (Some (trim existing), file) else made)"

section \<open>The commands\<close>

text \<open>The commands that open the database first find its path and key.\<close>

definition with_key ::
    "windows_os \<Rightarrow> crypto \<Rightarrow> bytes \<Rightarrow> (string \<Rightarrow> string \<Rightarrow> ('h, 't) process \<Rightarrow> (string + string) option \<times> ('h, 't) process) \<Rightarrow>
      ('h, 't) windows \<Rightarrow> (string + string) option \<times> ('h, 't) windows" where
  "with_key os c drawn f w =
     (case db_path os of
        None \<Rightarrow> (None, w)
      | Some path \<Rightarrow>
          (case get_or_create_db_key os c drawn (wi_key_file w) of
             (None, file) \<Rightarrow> (None, w\<lparr>wi_key_file := file\<rparr>)
           | (Some key, file) \<Rightarrow>
               let (r, pr) = f path key (wi_process w) in (r, \<lparr>wi_key_file = file, wi_process = pr\<rparr>)))"

definition init_app_cmd ::
    "('h, 't) env \<Rightarrow> serde \<Rightarrow> windows_os \<Rightarrow> (string \<Rightarrow> string \<Rightarrow> unit res) \<Rightarrow> bytes \<Rightarrow> bytes \<Rightarrow> ('h, 't) windows \<Rightarrow>
      (string + string) option \<times> ('h, 't) windows" where
  "init_app_cmd env sd os opens drawn seed =
     with_key os (e_crypto env) drawn (\<lambda>path key pr. apfst Some (init_app env sd (opens path key) seed pr))"

definition get_identity_cmd ::
    "('h, 't) env \<Rightarrow> serde \<Rightarrow> windows_os \<Rightarrow> (string \<Rightarrow> string \<Rightarrow> unit res) \<Rightarrow> bytes \<Rightarrow> ('h, 't) windows \<Rightarrow>
      (string + string) option \<times> ('h, 't) windows" where
  "get_identity_cmd env sd os opens drawn =
     with_key os (e_crypto env) drawn (\<lambda>path key pr. (Some (get_identity env sd (opens path key) pr), pr))"

definition start_networking_cmd ::
    "('h, 't) env \<Rightarrow> serde \<Rightarrow> windows_os \<Rightarrow> (string \<Rightarrow> string \<Rightarrow> unit res) \<Rightarrow> bytes \<Rightarrow> bytes \<Rightarrow> (string \<Rightarrow> string + unit) \<Rightarrow>
      (u16 \<times> string) res \<Rightarrow> (string \<Rightarrow> unit res) \<Rightarrow> filesystem \<Rightarrow> ('h, 't) noise_session \<Rightarrow> ('h, 't) windows \<Rightarrow>
      (string + string) option \<times> ('h, 't) windows" where
  "start_networking_cmd env sd os opens drawn seed made bound discovering fs unused =
     with_key os (e_crypto env) drawn (\<lambda>path key pr.
       let display_name = os_device_name os @ '' (Windows)''
       in case downloads_dir os of
            None \<Rightarrow> (None, pr)
          | Some downloads \<Rightarrow> apfst Some (start_networking env sd (opens path key) seed (made downloads) bound
              (discovering display_name) downloads fs unused pr))"

text \<open>The rest forward their arguments.\<close>

definition forward ::
    "(('h, 't) process \<Rightarrow> 'r \<times> ('h, 't) process) \<Rightarrow> ('h, 't) windows \<Rightarrow> 'r option \<times> ('h, 't) windows" where
  "forward f w = (let (r, pr) = f (wi_process w) in (Some r, w\<lparr>wi_process := pr\<rparr>))"

definition discover_peers_cmd ::
    "serde \<Rightarrow> (discovered_peer set \<Rightarrow> discovered_peer list) \<Rightarrow> u64 \<Rightarrow> ('h, 't) windows \<Rightarrow>
      (string + string) option \<times> ('h, 't) windows" where
  "discover_peers_cmd sd order now = forward (with_session (discover_peers sd order now))"

definition networking_status_cmd ::
    "serde \<Rightarrow> u64 \<Rightarrow> ('h, 't) windows \<Rightarrow> (string + string) option \<times> ('h, 't) windows" where
  "networking_status_cmd sd now = forward (with_session (networking_status sd now))"

definition connect_to_peer_cmd ::
    "('h, 't) env \<Rightarrow> nat \<Rightarrow> (string \<Rightarrow> string + 'a) \<Rightarrow> ('a \<Rightarrow> (nat \<times> peer_stream) res) \<Rightarrow> string \<Rightarrow> string \<Rightarrow>
      ('h, 't) windows \<Rightarrow> (string + string) option \<times> ('h, 't) windows" where
  "connect_to_peer_cmd env now parse dial addr expected_device_id =
     forward (on_manager (connect_to_peer_ffi env now parse dial addr expected_device_id))"

definition connect_signaling_server_cmd ::
    "('h, 't) env \<Rightarrow> (string \<Rightarrow> string + unit) \<Rightarrow> string \<Rightarrow> ('h, 't) windows \<Rightarrow>
      (string + string) option \<times> ('h, 't) windows" where
  "connect_signaling_server_cmd env ws url = forward (on_manager (connect_signaling_server_ffi env (ws url)))"

definition connect_to_peer_via_internet_cmd ::
    "('h, 't) env \<Rightarrow> socket_addr res \<Rightarrow> string \<Rightarrow> string \<Rightarrow> string \<Rightarrow> ('h, 't) windows \<Rightarrow>
      (string + string) option \<times> ('h, 't) windows" where
  "connect_to_peer_via_internet_cmd env probe local_addr sid peer_device_id =
     forward (on_manager (connect_to_peer_via_internet_ffi env probe local_addr sid peer_device_id))"

definition send_text_message_cmd ::
    "('h, 't) env \<Rightarrow> serde \<Rightarrow> nat \<Rightarrow> string \<Rightarrow> string \<Rightarrow> string \<Rightarrow> ('h, 't) windows \<Rightarrow>
      (string + string) option \<times> ('h, 't) windows" where
  "send_text_message_cmd env sd now mid peer_device_id body =
     forward (on_manager (send_text_message env sd now mid peer_device_id body))"

definition poll_events_cmd :: "serde \<Rightarrow> ('h, 't) windows \<Rightarrow> (string + string) option \<times> ('h, 't) windows" where
  "poll_events_cmd sd = forward (on_manager (poll_events sd))"

definition get_conversation_history_cmd ::
    "serde \<Rightarrow> (message_row list \<Rightarrow> message_row list) \<Rightarrow> string \<Rightarrow> u32 \<Rightarrow> ('h, 't) windows \<Rightarrow>
      (string + string) option \<times> ('h, 't) windows" where
  "get_conversation_history_cmd sd newest_first peer_device_id limit =
     forward (on_manager (get_conversation_history sd newest_first peer_device_id limit))"

definition send_typing_indicator_cmd ::
    "('h, 't) env \<Rightarrow> string \<Rightarrow> string \<Rightarrow> bool \<Rightarrow> ('h, 't) windows \<Rightarrow> (string + string) option \<times> ('h, 't) windows" where
  "send_typing_indicator_cmd env peer_device_id conversation_id is_typing =
     forward (on_manager (send_typing_indicator env peer_device_id conversation_id is_typing))"

definition mark_message_read_cmd ::
    "('h, 't) env \<Rightarrow> nat \<Rightarrow> string \<Rightarrow> string \<Rightarrow> ('h, 't) windows \<Rightarrow> (string + string) option \<times> ('h, 't) windows" where
  "mark_message_read_cmd env now peer_device_id message_id =
     forward (on_manager (mark_message_read_ffi env now peer_device_id message_id))"

definition connected_peers_cmd ::
    "serde \<Rightarrow> (string set \<Rightarrow> string list) \<Rightarrow> ('h, 't) windows \<Rightarrow> (string + string) option \<times> ('h, 't) windows" where
  "connected_peers_cmd sd order = forward (on_manager (connected_peers sd order))"

definition pause_transfer_cmd :: "string \<Rightarrow> ('h, 't) windows \<Rightarrow> (string + string) option \<times> ('h, 't) windows" where
  "pause_transfer_cmd transfer_id = forward (on_manager (pause_transfer transfer_id))"

definition resume_transfer_cmd :: "string \<Rightarrow> ('h, 't) windows \<Rightarrow> (string + string) option \<times> ('h, 't) windows" where
  "resume_transfer_cmd transfer_id = forward (on_manager (resume_transfer transfer_id))"

definition cancel_transfer_cmd ::
    "('h, 't) env \<Rightarrow> string \<Rightarrow> string \<Rightarrow> ('h, 't) windows \<Rightarrow> (string + string) option \<times> ('h, 't) windows" where
  "cancel_transfer_cmd env peer_device_id transfer_id =
     forward (on_manager (cancel_transfer_ffi env peer_device_id transfer_id))"

definition get_transfer_progress_cmd ::
    "serde \<Rightarrow> string \<Rightarrow> ('h, 't) windows \<Rightarrow> (string + string) option \<times> ('h, 't) windows" where
  "get_transfer_progress_cmd sd transfer_id = forward (on_manager (get_transfer_progress sd transfer_id))"

definition send_file_cmd ::
    "('h, 't) env \<Rightarrow> serde \<Rightarrow> nat \<Rightarrow> (string \<Rightarrow> string + u64) \<Rightarrow> string \<Rightarrow> string \<Rightarrow> string \<Rightarrow> string \<Rightarrow> string \<Rightarrow>
      ('h, 't) windows \<Rightarrow> (string + string) option \<times> ('h, 't) windows" where
  "send_file_cmd env sd now metadata mid tid peer_device_id file_path conversation_id =
     forward (on_manager (send_file_ffi env sd now (\<lambda>c. c = CHR 0x5C \<or> c = CHR ''/'') metadata mid tid peer_device_id
       file_path conversation_id))"

text \<open>As on the other platform, sending a folder has two halves: the offer, and what follows its answer.\<close>

definition send_folder_cmd_begin ::
    "('h, 't) env \<Rightarrow> string \<Rightarrow> string \<Rightarrow> string \<Rightarrow> path \<Rightarrow> entry \<Rightarrow> ('h, 't) windows \<Rightarrow>
      (string + path list \<times> folder_file_entry list \<times> nat) option \<times> ('h, 't) windows" where
  "send_folder_cmd_begin env batch peer_device_id conversation_id dir tree =
     forward (on_manager (send_folder_begin env batch peer_device_id conversation_id CHR 0x5C dir tree))"

definition send_folder_cmd ::
    "('h, 't) env \<Rightarrow> serde \<Rightarrow> nat \<Rightarrow> bool \<Rightarrow> nat \<Rightarrow> string \<Rightarrow> string \<Rightarrow> string \<Rightarrow>
      (path \<times> folder_file_entry \<times> string \<times> string) list \<Rightarrow> (nat \<Rightarrow> string) \<Rightarrow> ('h, 't) windows \<Rightarrow>
      (string + string) option \<times> ('h, 't) windows" where
  "send_folder_cmd env sd now timed_out tx batch peer_device_id conversation_id offered mids =
     forward (on_manager (send_folder_ffi env sd now timed_out tx batch peer_device_id conversation_id CHR 0x5C offered mids))"

definition accept_file_cmd ::
    "('h, 't) env \<Rightarrow> serde \<Rightarrow> nat \<Rightarrow> string \<Rightarrow> string \<Rightarrow> string \<Rightarrow> string \<Rightarrow> u64 \<Rightarrow> string \<Rightarrow> ('h, 't) windows \<Rightarrow>
      (string + string) option \<times> ('h, 't) windows" where
  "accept_file_cmd env sd now from_device_id transfer_id message_id file_name file_size mime_type =
     forward (on_manager (accept_file_ffi env sd now from_device_id transfer_id message_id file_name file_size mime_type))"

definition reject_file_cmd ::
    "('h, 't) env \<Rightarrow> string \<Rightarrow> string \<Rightarrow> string \<Rightarrow> ('h, 't) windows \<Rightarrow> (string + string) option \<times> ('h, 't) windows" where
  "reject_file_cmd env from_device_id transfer_id reason =
     forward (on_manager (reject_file_ffi env from_device_id transfer_id reason))"

lemmas commands =
  discover_peers_cmd_def networking_status_cmd_def connect_to_peer_cmd_def connect_signaling_server_cmd_def
  connect_to_peer_via_internet_cmd_def send_text_message_cmd_def poll_events_cmd_def get_conversation_history_cmd_def
  send_typing_indicator_cmd_def mark_message_read_cmd_def connected_peers_cmd_def pause_transfer_cmd_def
  resume_transfer_cmd_def cancel_transfer_cmd_def get_transfer_progress_cmd_def send_file_cmd_def send_folder_cmd_def
  accept_file_cmd_def reject_file_cmd_def

section \<open>The shell at work\<close>

text \<open>The handler list of \<open>main\<close>.\<close>

inductive windows_command ::
    "('h, 't) env \<Rightarrow> windows_os \<Rightarrow> (string \<Rightarrow> string \<Rightarrow> unit res) \<Rightarrow>
      (('h, 't) windows \<Rightarrow> (string + string) option \<times> ('h, 't) windows) \<Rightarrow> bool" for env os opens where
  "windows_command env os opens (init_app_cmd env sd os opens drawn seed)"
| "windows_command env os opens (get_identity_cmd env sd os opens drawn)"
| "windows_command env os opens (start_networking_cmd env sd os opens drawn seed made bound discovering fs unused)"
| "windows_command env os opens (discover_peers_cmd sd order now_unix)"
| "windows_command env os opens (networking_status_cmd sd now_unix)"
| "windows_command env os opens (connect_to_peer_cmd env now (parse :: string \<Rightarrow> string + string) dial addr expected)"
| "windows_command env os opens (connect_signaling_server_cmd env ws url)"
| "windows_command env os opens (connect_to_peer_via_internet_cmd env probe local_addr sid peer)"
| "windows_command env os opens (send_text_message_cmd env sd now mid peer body)"
| "windows_command env os opens (poll_events_cmd sd)"
| "windows_command env os opens (get_conversation_history_cmd sd newest_first peer limit)"
| "windows_command env os opens (send_typing_indicator_cmd env peer conv is_typing)"
| "windows_command env os opens (mark_message_read_cmd env now peer mid)"
| "windows_command env os opens (connected_peers_cmd sd id_order)"
| "windows_command env os opens (pause_transfer_cmd tid)"
| "windows_command env os opens (resume_transfer_cmd tid)"
| "windows_command env os opens (cancel_transfer_cmd env peer tid)"
| "windows_command env os opens (get_transfer_progress_cmd sd tid)"
| "windows_command env os opens (send_file_cmd env sd now metadata mid tid peer file_path conv)"
| "windows_command env os opens (send_folder_cmd env sd now timed_out tx batch peer conv offered mids)"
| "windows_command env os opens (accept_file_cmd env sd now src tid mid name fsize mime)"
| "windows_command env os opens (reject_file_cmd env src tid reason)"

inductive windows_step ::
    "('h, 't) env \<Rightarrow> windows_os \<Rightarrow> (string \<Rightarrow> string \<Rightarrow> unit res) \<Rightarrow> ('h, 't) windows \<Rightarrow> ('h, 't) windows \<Rightarrow> bool"
  for env os opens where
  command: "windows_command env os opens f \<Longrightarrow> windows_step env os opens w (snd (f w))"
| folder_command: "windows_step env os opens w (snd (send_folder_cmd_begin env batch peer conv dir tree w))"
| outside: "world_step env (wi_process w) pr \<Longrightarrow> windows_step env os opens w (w\<lparr>wi_process := pr\<rparr>)"

lemma forward_simps [simp]:
  "wi_process (snd (forward f w)) = snd (f (wi_process w))"
  "wi_key_file (snd (forward f w)) = wi_key_file w"
  by (simp_all add: forward_def case_prod_beta)

lemma with_key_process:
  "wi_process (snd (with_key os c drawn f w)) = wi_process w \<or>
    (\<exists>path key. wi_process (snd (with_key os c drawn f w)) = snd (f path key (wi_process w)))"
  by (auto simp: with_key_def case_prod_beta split: option.split prod.split)

lemma windows_command_simulated:
  assumes "windows_command env os opens f"
  shows "wi_process (snd (f w)) = wi_process w \<or> process_step env (wi_process w) (wi_process (snd (f w)))"
  using assms
proof (induction rule: windows_command.induct)
  case (1 sd drawn seed)
  then show ?case
    using with_key_process [of os "e_crypto env" drawn _ w] process_step.initialising
    by (fastforce simp: init_app_cmd_def)
next
  case (2 sd drawn)
  then show ?case using with_key_process [of os "e_crypto env" drawn _ w] by (fastforce simp: get_identity_cmd_def)
next
  case (3 sd drawn seed made bound discovering fs unused)
  show ?case
    using with_key_process [of os "e_crypto env" drawn _ w] process_step.starting
    unfolding start_networking_cmd_def Let_def by (fastforce split: option.splits)
qed (simp_all add: commands process_step.intros ffi_call.intros)

lemma windows_step_simulated:
  "windows_step env os opens w w' \<Longrightarrow> (process_step env)\<^sup>*\<^sup>* (wi_process w) (wi_process w')"
proof (induction rule: windows_step.induct)
  case (command f w)
  then show ?case using windows_command_simulated [OF command, of w] by auto
next
  case (folder_command w batch peer conv dir tree)
  then show ?case
    by (simp add: send_folder_cmd_begin_def r_into_rtranclp process_step.folder_begins)
qed (auto intro: process_step.around)

interpretation win: shell env "windows_step env os opens" wi_process for env os opens
  by unfold_locales (rule windows_step_simulated)
section \<open>One key for good\<close>

text \<open>The key file is there and gives the key \<open>k\<close>.\<close>

definition holds_key :: "windows_os \<Rightarrow> string \<Rightarrow> ('h, 't) windows \<Rightarrow> bool" where
  "holds_key os k w \<longleftrightarrow> os_reads os \<and> k \<noteq> [] \<and>
     (\<exists>b. wi_key_file w = Some b \<and> utf8_valid b \<and> trim (text_of_bytes b) = k)"

lemma trim_front_none: "(\<And>w. w \<in> set ws \<Longrightarrow> w = [] \<or> hd w \<noteq> hd s) \<Longrightarrow> trim_front ws s = s"
proof (subst trim_front.simps)
  assume a: "\<And>w. w \<in> set ws \<Longrightarrow> w = [] \<or> hd w \<noteq> hd s"
  have "w = []" if "w \<in> set ws" "take (length w) s = w" for w
    using a [OF that(1)] that(2) by (cases s; cases w) auto
  then have "find (\<lambda>w. w \<noteq> [] \<and> take (length w) s = w) ws = None" by (auto simp: find_None_iff)
  then show "(case find (\<lambda>w. w \<noteq> [] \<and> take (length w) s = w) ws of None \<Rightarrow> s
      | Some w \<Rightarrow> trim_front ws (drop (length w) s)) = s" by simp
qed

text \<open>No hexadecimal digit begins or ends a white space character.\<close>

lemma hex_not_white:
  "\<forall>w \<in> set white_space. hd w \<notin> set hex_alphabet \<and> last w \<notin> set hex_alphabet \<and> w \<noteq> []"
  by (simp add: white_space_def hex_alphabet_def)

lemma trim_hex: "set s \<subseteq> set hex_alphabet \<Longrightarrow> trim s = s"
proof (cases "s = []")
  case False
  assume s: "set s \<subseteq> set hex_alphabet"
  have ends: "hd s \<in> set hex_alphabet" "hd (rev s) \<in> set hex_alphabet"
    using False s hd_in_set [of s] hd_in_set [of "rev s"] by (auto simp del: hd_in_set)
  have "trim_front white_space s = s"
    by (rule trim_front_none) (use hex_not_white ends(1) in metis)
  moreover have "trim_front (map rev white_space) (rev s) = rev s"
  proof (rule trim_front_none)
    fix w assume "w \<in> set (map rev white_space)"
    then obtain v where "v \<in> set white_space" "w = rev v" by auto
    then show "w = [] \<or> hd w \<noteq> hd (rev s)" using hex_not_white ends(2) by (metis hd_rev)
  qed
  ultimately show ?thesis by (simp add: trim_def)
qed (simp add: trim_def trim_front.simps white_space_def)

lemma utf8_valid_ascii: "(\<And>b. b \<in> set bs \<Longrightarrow> b \<le> 0x7F) \<Longrightarrow> utf8_valid bs"
  by (induction bs) auto

lemma utf8_valid_hex: "set s \<subseteq> set hex_alphabet \<Longrightarrow> utf8_valid (ascii_bytes s)"
proof (rule utf8_valid_ascii)
  fix b assume s: "set s \<subseteq> set hex_alphabet" and "b \<in> set (ascii_bytes s)"
  then obtain ch where "ch \<in> set hex_alphabet" "b \<in> set (ascii_bytes [ch])" by (auto simp: ascii_bytes_def)
  moreover have "\<forall>ch \<in> set hex_alphabet. \<forall>b \<in> set (ascii_bytes [ch]). b \<le> 0x7F" by (simp add: hex_alphabet_def ascii_bytes_def)
  ultimately show "b \<le> 0x7F" by blast
qed

lemma key_again:
  assumes "holds_key os k w"
  shows "get_or_create_db_key os c drawn (wi_key_file w) = (if app_data_dir os = None then None else Some k, wi_key_file w)"
  using assms by (auto simp: holds_key_def get_or_create_db_key_def read_key_def)

lemma with_key_again:
  assumes "holds_key os k w" and "db_path os = Some path"
  shows "with_key os c drawn f w = apsnd (\<lambda>pr. w\<lparr>wi_process := pr\<rparr>) (f path k (wi_process w))"
  using key_again [OF assms(1), of c drawn] assms(2)
  by (auto simp: with_key_def db_path_def apsnd_def map_prod_def split: prod.split)

lemma with_key_file: "holds_key os k w \<Longrightarrow> wi_key_file (snd (with_key os c drawn f w)) = wi_key_file w"
  using key_again [of os k w c drawn] by (auto simp: with_key_def split: option.split prod.split)

lemma windows_step_key_file: "windows_step env os opens w w' \<Longrightarrow> holds_key os k w \<Longrightarrow> wi_key_file w' = wi_key_file w"
proof (induction rule: windows_step.induct)
  case (command f w)
  then show ?case
    by (cases rule: windows_command.cases)
      (simp_all add: init_app_cmd_def get_identity_cmd_def start_networking_cmd_def with_key_file commands)
qed (simp_all add: send_folder_cmd_begin_def)

interpretation keyed: machine "holds_key os k" "windows_step env os opens" "holds_key os k" for os k env opens
proof
  show "holds_key os k w \<Longrightarrow> windows_step env os opens w w' \<Longrightarrow> holds_key os k w'"
    for w w' :: "('a, 'b) windows" and env :: "('a, 'b) env" and os opens k
    using windows_step_key_file [of env os opens w w' k] by (simp add: holds_key_def)
qed simp

lemma first_key:
  assumes "hex_law c" and "os_reads os" and "app_data_dir os = Some dir" and "drawn \<noteq> []"
    and "os_write os (ascii_bytes (hex_encode c drawn)) = (True, Some (ascii_bytes (hex_encode c drawn)))"
  shows "get_or_create_db_key os c drawn None = (Some (hex_encode c drawn), Some (ascii_bytes (hex_encode c drawn)))"
    "holds_key os (hex_encode c drawn) \<lparr>wi_key_file = Some (ascii_bytes (hex_encode c drawn)), wi_process = pr\<rparr>"
proof -
  have h: "set (hex_encode c drawn) \<subseteq> set hex_alphabet" "hex_encode c drawn \<noteq> []"
    using assms(1,4) by (auto simp: hex_law_def dest!: spec [of _ drawn])
  show "get_or_create_db_key os c drawn None = (Some (hex_encode c drawn), Some (ascii_bytes (hex_encode c drawn)))"
    using assms(3,5) by (simp add: get_or_create_db_key_def read_key_def)
  show "holds_key os (hex_encode c drawn) \<lparr>wi_key_file = Some (ascii_bytes (hex_encode c drawn)), wi_process = pr\<rparr>"
    using assms(2) h by (simp add: holds_key_def utf8_valid_hex trim_hex)
qed

text \<open>C23: the first start of the Windows shell draws a key, writes it to the file beside the database, and makes the
  identity.  From then on, whatever commands run and however often the program is started again, every
  command that needs the database opens it under that same key, and the identity is the first one.  The file
  must stay readable.\<close>

theorem windows_identity_for_good:
  assumes "hex_law (e_crypto env)" and "\<And>b. length (sha512 (e_crypto env) b) = 64"
    and "os_reads os" and "\<And>b. os_write os b = (True, Some b)" and "app_data_dir os = Some dir"
    and "wi_key_file w0 = None" and "first_start (wi_process w0)" and "length drawn = 32" and "length seed = 32"
    and "key = hex_encode (e_crypto env) drawn" and "opens (win_join dir ''zao.db'') key = Inr ()"
    and "init_app_cmd env sd os opens drawn seed w0 = (r, w1)" and "(windows_step env os opens)\<^sup>*\<^sup>* w1 w"
  shows "get_or_create_db_key os (e_crypto env) drawn' (wi_key_file w) = (Some key, wi_key_file w) \<and>
    r = Some (sd_identity sd (identity_info_of (e_crypto env) (generate (e_crypto env) seed))) \<and>
    get_identity_cmd env sd os opens drawn' w = (r, w) \<and> init_app_cmd env sd os opens drawn' seed' w = (r, w)"
proof -
  have d: "drawn \<noteq> []" using assms(8) by auto
  note k = first_key [OF assms(1,3,5) d assms(4), folded assms(10)]
  obtain x pr1 where i: "init_app env sd (Inr ()) seed (wi_process w0) = (x, pr1)" by (rule prod.exhaust)
  have path: "db_path os = Some (win_join dir ''zao.db'')" by (simp add: db_path_def assms(5))
  have w1: "r = Some x" "w1 = \<lparr>wi_key_file = Some (ascii_bytes key), wi_process = pr1\<rparr>"
    using assms(12) by (simp_all add: init_app_cmd_def with_key_def path assms(6,11) k(1) i)
  have holds: "holds_key os key w" by (rule keyed.steps_inv [OF assms(13)]) (simp add: w1(2) k(2))
  note first = first_identity [OF assms(7,9,2) i]
  have "same.process_ok env (generate (e_crypto env) seed) (wi_process w)"
    by (rule win.identity_kept [OF _ assms(13)]) (simp add: w1(2) first(2))
  note identity = identity_reported [OF this]
  show ?thesis
    using key_again [OF holds] first(1)
    by (simp add: get_identity_cmd_def init_app_cmd_def with_key_again [OF holds path] assms(5,11) identity w1(1))
qed

text \<open>A key file that is there but cannot be read is replaced, and with it the key of the database.\<close>

lemma unreadable_key_replaced:
  assumes "\<not> os_reads os" and "app_data_dir os = Some dir" and "\<And>b. os_write os b = (True, Some b)"
  shows "get_or_create_db_key os c drawn file = (Some (hex_encode c drawn), Some (ascii_bytes (hex_encode c drawn)))"
  using assms by (simp add: get_or_create_db_key_def read_key_def split: option.split)

section \<open>A concrete installation\<close>

definition windows_env :: "(bytes \<times> bytes option, noise_view) env" where
  "windows_env = app_env\<lparr>e_crypto := toy_crypto\<lparr>hex_encode := hex_of\<rparr>\<rparr>"

definition office :: windows_os where
  "office = \<lparr>os_data_dir = Some ''C:'', os_mkdir = (\<lambda>_. True), os_device_name = ''office'', os_reads = True,
     os_write = (\<lambda>b. (True, Some b))\<rparr>"

theorem windows_identity_for_good_witness:
  "\<exists>r w1. init_app_cmd windows_env toy_serde office (\<lambda>_ _. Inr ()) (replicate 32 7) (replicate 32 5)
      \<lparr>wi_key_file = None, wi_process = installed\<rparr> = (r, w1) \<and>
    get_identity_cmd windows_env toy_serde office (\<lambda>_ _. Inr ()) (replicate 32 9)
      (snd (poll_events_cmd toy_serde w1)) = (r, snd (poll_events_cmd toy_serde w1))"
proof -
  obtain r w1 where i: "init_app_cmd windows_env toy_serde office (\<lambda>_ _. Inr ()) (replicate 32 7) (replicate 32 5)
      \<lparr>wi_key_file = None, wi_process = installed\<rparr> = (r, w1)" by (rule prod.exhaust)
  have step: "windows_step windows_env office (\<lambda>_ _. Inr ()) w1 (snd (poll_events_cmd toy_serde w1))"
    by (intro command windows_command.intros)
  have law: "hex_law (e_crypto windows_env)" by (simp add: windows_env_def)
  have sha: "length (sha512 (e_crypto windows_env) b) = 64" for b by (simp add: windows_env_def toy_crypto_def)
  have os: "os_reads office" "\<And>b. os_write office b = (True, Some b)" "app_data_dir office = Some (win_join ''C:'' ''ZaoP2P'')"
    by (simp_all add: office_def app_data_dir_def)
  have start: "wi_key_file \<lparr>wi_key_file = None, wi_process = installed\<rparr> = None"
    "first_start (wi_process \<lparr>wi_key_file = None, wi_process = installed\<rparr>)" by (simp_all add: installed_first)
  show ?thesis
    using windows_identity_for_good [OF law sha os start length_replicate length_replicate refl refl i
        r_into_rtranclp [of "windows_step windows_env office (\<lambda>_ _. Inr ())", OF step], of "replicate 32 9"] i by blast
qed

end
